(* ===== verification/Prelude.thy ===== *)
theory Prelude
  imports Main
begin

text \<open>
  Shared vocabulary of the development: the names of the model's basic types, the
  collections of simplification rules the component theories fill, and generic
  facts on lists (prefixes, suffixes, searches over index ranges) that the regular
  expression search and the rule matching of webpack both rely on.
\<close>

section \<open>Names of the model's types\<close>

text \<open>
  A JavaScript string is modelled as an Isabelle \<open>string\<close> (a list of 8-bit
  \<open>char\<close>s); a webpack resource path and a loader name are strings.
\<close>

type_synonym js_string = string
type_synonym resource_path = string
type_synonym loader_name = string
type_synonym rule_name = string

text \<open>The part of a path after its last dot (the whole path if it has none).\<close>

abbreviation last_ext :: "string \<Rightarrow> string" where
  "last_ext s \<equiv> rev (takeWhile (\<lambda>c. c \<noteq> CHR ''.'') (rev s))"

named_theorems regex_simps \<open>evaluation rules of the regular expression model\<close>
named_theorems config_simps \<open>evaluation rules of the configuration model\<close>

text \<open>
  Sequencing of computations that may throw: \<open>Inl\<close> is the exception, which skips
  the rest.
\<close>

definition sum_bind :: "'e + 'a \<Rightarrow> ('a \<Rightarrow> 'e + 'b) \<Rightarrow> 'e + 'b" where
  "sum_bind m f = (case m of Inl e \<Rightarrow> Inl e | Inr a \<Rightarrow> f a)"

lemma sum_bind_Inl [simp]: "sum_bind (Inl e) f = Inl e"
  by (simp add: sum_bind_def)

lemma sum_bind_Inr [simp]: "sum_bind (Inr a) f = f a"
  by (simp add: sum_bind_def)

section \<open>Searches over index ranges\<close>

text \<open>
  The JavaScript regular expression engine and webpack's loop over rules both scan
  an index range \<open>0 .. n\<close>; the model writes the scan as \<open>list_ex\<close> over
  \<open>[0..<Suc n]\<close>, which evaluates, and these lemmas turn it into a quantifier.
\<close>

lemma list_ex_upt_Suc_iff [simp]:
  "list_ex P [0..<Suc n] \<longleftrightarrow> (\<exists>i\<le>n. P i)"
  unfolding list_ex_iff by (auto simp: less_Suc_eq_le simp del: upt_Suc)

lemma ex_drop_iff_split:
  "(\<exists>i\<le>length s. P (drop i s)) \<longleftrightarrow> (\<exists>p t. s = p @ t \<and> P t)"
proof
  assume "\<exists>i\<le>length s. P (drop i s)"
  then obtain i where "P (drop i s)" by blast
  moreover have "s = take i s @ drop i s" by simp
  ultimately show "\<exists>p t. s = p @ t \<and> P t" by blast
next
  assume "\<exists>p t. s = p @ t \<and> P t"
  then obtain p t where "s = p @ t" "P t" by blast
  then have "length p \<le> length s \<and> P (drop (length p) s)" by simp
  then show "\<exists>i\<le>length s. P (drop i s)" by blast
qed

lemma ex_take_iff_split:
  "(\<exists>k\<le>length s. P (take k s)) \<longleftrightarrow> (\<exists>t q. s = t @ q \<and> P t)"
proof
  assume "\<exists>k\<le>length s. P (take k s)"
  then obtain k where "P (take k s)" by blast
  moreover have "s = take k s @ drop k s" by simp
  ultimately show "\<exists>t q. s = t @ q \<and> P t" by blast
next
  assume "\<exists>t q. s = t @ q \<and> P t"
  then obtain t q where "s = t @ q" "P t" by blast
  then have "length t \<le> length s \<and> P (take (length t) s)" by simp
  then show "\<exists>k\<le>length s. P (take k s)" by blast
qed

section \<open>Splitting a string at the first occurrence of a character\<close>

text \<open>
  JavaScript's \<open>s.indexOf(c)\<close> followed by \<open>substr\<close> splits a string at the
  first occurrence of \<open>c\<close>; \<open>takeWhile\<close>/\<open>dropWhile\<close> do the same.
\<close>

lemma takeWhile_neq_dropWhile_split:
  "c \<in> set s \<Longrightarrow> s = takeWhile (\<lambda>x. x \<noteq> c) s @ c # tl (dropWhile (\<lambda>x. x \<noteq> c) s)"
proof (induction s)
  case Nil
  then show ?case by simp
next
  case (Cons x s)
  then show ?case by (cases "x = c") auto
qed

lemma takeWhile_neq_append_Cons:
  "c \<notin> set p \<Longrightarrow> takeWhile (\<lambda>x. x \<noteq> c) (p @ c # q) = p"
  by (induction p) auto

lemma dropWhile_neq_append_Cons:
  "c \<notin> set p \<Longrightarrow> dropWhile (\<lambda>x. x \<noteq> c) (p @ c # q) = c # q"
  by (induction p) auto

section \<open>File extensions\<close>

text \<open>
  Two ways of writing a path as a prefix, a dot and a dot-free extension agree on
  the extension: the fact that separates the asset rules by extension.
\<close>

lemma dot_suffix_ext:
  assumes eq: "x @ CHR ''.'' # e = y @ CHR ''.'' # ext"
    and e: "CHR ''.'' \<notin> set e" and ext: "CHR ''.'' \<notin> set ext"
  shows "e = ext"
proof (cases "length x \<le> length y")
  case True
  with eq obtain us where us: "us @ CHR ''.'' # ext = CHR ''.'' # e"
    by (auto simp: append_eq_append_conv_if)
  show ?thesis
  proof (cases us)
    case Nil
    with us show ?thesis by simp
  next
    case (Cons a l)
    with us have "e = l @ CHR ''.'' # ext" by simp
    with e show ?thesis by simp
  qed
next
  case False
  with eq obtain us where us: "us @ CHR ''.'' # e = CHR ''.'' # ext"
    by (auto simp: append_eq_append_conv_if)
  show ?thesis
  proof (cases us)
    case Nil
    with us show ?thesis by simp
  next
    case (Cons a l)
    with us have "ext = l @ CHR ''.'' # e" by simp
    with ext show ?thesis by simp
  qed
qed

lemma last_ext_eq:
  assumes "s = a @ CHR ''.'' # e" and "CHR ''.'' \<notin> set e"
  shows "last_ext s = e"
proof -
  have "rev s = rev e @ CHR ''.'' # rev a" using assms(1) by simp
  moreover have "takeWhile (\<lambda>c. c \<noteq> CHR ''.'') (rev e @ CHR ''.'' # rev a) = rev e"
    using assms(2) by (subst takeWhile_append2) auto
  ultimately show ?thesis by simp
qed

section \<open>Deterministic relations\<close>

text \<open>
  Under a deterministic step relation two final states reachable from the same state
  are the same: the step relations of the development use it to show that a run's
  result is unique.
\<close>

lemma deterministic_final_unique:
  assumes det: "\<And>x y z. R x y \<Longrightarrow> R x z \<Longrightarrow> y = z"
    and "R\<^sup>*\<^sup>* x y" and "\<not> (\<exists>w. R y w)"
    and "R\<^sup>*\<^sup>* x z" and "\<not> (\<exists>w. R z w)"
  shows "y = z"
  using assms(2-)
proof (induction arbitrary: z rule: converse_rtranclp_induct)
  case base
  then show ?case by (auto elim: converse_rtranclpE)
next
  case (step x x')
  from step.prems(2) show ?case
  proof (cases rule: converse_rtranclpE)
    case base
    with step.hyps(1) step.prems(3) show ?thesis by blast
  next
    case (step x'')
    with det [OF step.hyps(1)] have "R\<^sup>*\<^sup>* x' z" by simp
    with step.IH step.prems(1,3) show ?thesis by blast
  qed
qed

text \<open>
  A deterministic relation that reaches a final state from \<open>x\<close> has no infinite run
  from \<open>x\<close>: the run would pass through the final state.
\<close>

lemma deterministic_run_at:
  assumes det: "\<And>x y z. R x y \<Longrightarrow> R x z \<Longrightarrow> y = z"
    and run: "\<forall>i. R (f i) (f (Suc i))"
  shows "(R ^^ n) (f j) y \<Longrightarrow> f (j + n) = y"
proof (induction n arbitrary: j)
  case 0
  then show ?case by simp
next
  case (Suc n)
  from Suc.prems obtain b where "R (f j) b" and "(R ^^ n) b y"
    by (rule relpowp_Suc_E2)
  with det run have "(R ^^ n) (f (Suc j)) y" by metis
  with Suc.IH [of "Suc j"] show ?case by simp
qed

lemma deterministic_no_infinite_run:
  assumes det: "\<And>x y z. R x y \<Longrightarrow> R x z \<Longrightarrow> y = z"
    and reach: "R\<^sup>*\<^sup>* x y" and final: "\<not> (\<exists>w. R y w)"
  shows "\<not> (\<exists>f. f 0 = x \<and> (\<forall>i. R (f i) (f (Suc i))))"
proof
  assume "\<exists>f. f 0 = x \<and> (\<forall>i. R (f i) (f (Suc i)))"
  then obtain f where f0: "f 0 = x" and run: "\<forall>i. R (f i) (f (Suc i))" by blast
  from reach obtain n where "(R ^^ n) x y" by (blast dest: rtranclp_imp_relpowp)
  with f0 have "f (0 + n) = y"
    using deterministic_run_at [OF det run, where n = n and j = 0 and y = y] by simp
  with run final show False by auto
qed

end
