(* ===== verification/Chain_Map.thy ===== *)
theory Chain_Map
  imports Prelude "HOL-Library.Multiset"
begin

text \<open>
  The store of webpack-chain's \<open>ChainedMap\<close>, the structure behind
  \<open>config.module.rules\<close> that \<open>chainWebpack\<close> receives
  (\<open>src/vue.config.js\<close>, line 3). It is a JavaScript \<open>Map\<close>: keys are unique,
  \<open>set\<close> on a new key appends the entry and \<open>set\<close> on a present key replaces
  the value in place, \<open>delete\<close> removes the entry and is a no-op on an absent key.
  The model is an association list; the invariant \<open>cm_wf\<close> is distinctness of
  its keys, and the abstraction \<open>map_of\<close> relates every operation to the
  corresponding operation on a partial function.

  \<open>values()\<close>, which \<open>toConfig\<close> uses, does not iterate the store directly: it
  goes through \<open>order()\<close> (\<open>cm_order\<close>), which lists the keys as
  \<open>Object.keys\<close> does and then moves entries that carry \<open>.before\<close>/\<open>.after\<close>
  hints (the \<open>Orderable\<close> mixin, whose setters throw on a conflicting hint). The
  lemmas show that this order is a permutation of the keys (\<open>mset_cm_order\<close>), that
  without hints and index-like names it is insertion order
  (\<open>cm_ordered_values_plain\<close>), that its splices are the list operations
  \<open>insert_before\<close>/\<open>insert_after\<close>, and when deleting a key commutes with it
  (\<open>cm_order_cm_delete\<close>).
\<close>

type_synonym ('k, 'v) js_map = "('k \<times> 'v) list"

definition cm_empty :: "('k, 'v) js_map" where
  "cm_empty = []"

fun cm_get :: "'k \<Rightarrow> ('k, 'v) js_map \<Rightarrow> 'v option" where
  "cm_get k [] = None"
| "cm_get k ((k', v) # m) = (if k = k' then Some v else cm_get k m)"

definition cm_has :: "'k \<Rightarrow> ('k, 'v) js_map \<Rightarrow> bool" where
  "cm_has k m \<longleftrightarrow> cm_get k m \<noteq> None"

fun cm_set :: "'k \<Rightarrow> 'v \<Rightarrow> ('k, 'v) js_map \<Rightarrow> ('k, 'v) js_map" where
  "cm_set k v [] = [(k, v)]"
| "cm_set k v ((k', v') # m) = (if k = k' then (k, v) # m else (k', v') # cm_set k v m)"

fun cm_delete :: "'k \<Rightarrow> ('k, 'v) js_map \<Rightarrow> ('k, 'v) js_map" where
  "cm_delete k [] = []"
| "cm_delete k ((k', v) # m) = (if k = k' then m else (k', v) # cm_delete k m)"

definition cm_keys :: "('k, 'v) js_map \<Rightarrow> 'k list" where
  "cm_keys m = map fst m"

definition cm_values :: "('k, 'v) js_map \<Rightarrow> 'v list" where
  "cm_values m = map snd m"

text \<open>\<open>getOrCompute(key, fn)\<close>: the stored value, or the computed one, stored.\<close>

definition cm_get_or_compute :: "'k \<Rightarrow> 'v \<Rightarrow> ('k, 'v) js_map \<Rightarrow> 'v \<times> ('k, 'v) js_map" where
  "cm_get_or_compute k v m = (case cm_get k m of Some w \<Rightarrow> (w, m) | None \<Rightarrow> (v, cm_set k v m))"

definition cm_wf :: "('k, 'v) js_map \<Rightarrow> bool" where
  "cm_wf m \<longleftrightarrow> distinct (map fst m)"

section \<open>Ordering: \<open>order()\<close> and \<open>values()\<close>\<close>

text \<open>
  \<open>ChainedMap.order()\<close> copies the store into a plain object
  (\<open>entries[key] = value\<close>), takes \<open>Object.keys(entries)\<close> as the initial order,
  and then visits those names once each: an entry whose \<open>__before\<close> (set by the
  \<open>Orderable\<close> mixin's \<open>.before(name)\<close>) is truthy and names a key still in the
  order is spliced out and spliced in again at the index of that key; otherwise one whose
  \<open>__after\<close> is truthy and present is spliced in after it. \<open>values()\<close> maps
  the final order to the entries. The hints of a value are given by a function
  \<open>'v \<Rightarrow> string option \<times> string option\<close> (before, after).

  \<open>Object.keys\<close> lists the keys that are array indices (canonical decimal numerals
  below \<open>2^32 - 1\<close>) first, in ascending numeric order, then the other keys in
  insertion order.
\<close>

definition digit_value :: "char \<Rightarrow> nat" where
  "digit_value c = length (takeWhile (\<lambda>d. d \<noteq> c) ''0123456789'')"

definition digits_value :: "string \<Rightarrow> nat" where
  "digits_value s = foldl (\<lambda>n c. 10 * n + digit_value c) 0 s"

definition is_array_index :: "string \<Rightarrow> bool" where
  "is_array_index s \<longleftrightarrow>
     s \<noteq> [] \<and> list_all (\<lambda>c. c \<in> set ''0123456789'') s \<and> (s = ''0'' \<or> hd s \<noteq> CHR ''0'')
     \<and> digits_value s < 4294967295"

definition js_object_keys :: "string list \<Rightarrow> string list" where
  "js_object_keys ks = sort_key digits_value (filter is_array_index ks) @ filter (\<lambda>k. \<not> is_array_index k) ks"

text \<open>
  \<open>Array.prototype.indexOf\<close> (\<open>-1\<close> when absent) and \<open>splice\<close> with a delete
  count of 1 or 0: a negative start counts from the end, clamped at 0; a start past the
  end is clamped at the length.
\<close>

fun js_index_of :: "'a \<Rightarrow> 'a list \<Rightarrow> int" where
  "js_index_of x [] = -1"
| "js_index_of x (y # ys) = (if x = y then 0 else (let i = js_index_of x ys in if i < 0 then -1 else i + 1))"

definition js_splice_start :: "int \<Rightarrow> nat \<Rightarrow> nat" where
  "js_splice_start i len = (if i < 0 then nat (max (int len + i) 0) else min (nat i) len)"

definition js_splice_remove1 :: "int \<Rightarrow> 'a list \<Rightarrow> 'a list" where
  "js_splice_remove1 i xs = (let k = js_splice_start i (length xs) in take k xs @ drop (Suc k) xs)"

definition js_splice_insert :: "int \<Rightarrow> 'a \<Rightarrow> 'a list \<Rightarrow> 'a list" where
  "js_splice_insert i x xs = (let k = js_splice_start i (length xs) in take k xs @ x # drop k xs)"

type_synonym order_hints = "string option \<times> string option"

definition js_truthy_name :: "string option \<Rightarrow> bool" where
  "js_truthy_name h \<longleftrightarrow> (case h of None \<Rightarrow> False | Some s \<Rightarrow> s \<noteq> [])"

text \<open>One iteration of the \<open>forEach\<close> of \<open>order()\<close>, for the entry \<open>name\<close>.\<close>

definition order_step :: "(string \<Rightarrow> order_hints) \<Rightarrow> string list \<Rightarrow> string \<Rightarrow> string list" where
  "order_step hint order name =
     (case hint name of (before, after) \<Rightarrow>
        if js_truthy_name before \<and> the before \<in> set order then
          (let order' = js_splice_remove1 (js_index_of name order) order
           in js_splice_insert (js_index_of (the before) order') name order')
        else if js_truthy_name after \<and> the after \<in> set order then
          (let order' = js_splice_remove1 (js_index_of name order) order
           in js_splice_insert (js_index_of (the after) order' + 1) name order')
        else order)"

definition cm_order :: "('v \<Rightarrow> order_hints) \<Rightarrow> (string, 'v) js_map \<Rightarrow> string list" where
  "cm_order hints m =
     (let names = js_object_keys (cm_keys m)
      in foldl (order_step (\<lambda>n. hints (the (map_of m n)))) names names)"

definition cm_ordered_values :: "('v \<Rightarrow> order_hints) \<Rightarrow> (string, 'v) js_map \<Rightarrow> 'v list" where
  "cm_ordered_values hints m = map (\<lambda>n. the (map_of m n)) (cm_order hints m)"

text \<open>
  The list operations the splices perform when the names are present: reference
  definitions for the proofs.
\<close>

fun insert_before :: "'a \<Rightarrow> 'a \<Rightarrow> 'a list \<Rightarrow> 'a list" where
  "insert_before b x [] = []"
| "insert_before b x (y # ys) = (if y = b then x # y # ys else y # insert_before b x ys)"

fun insert_after :: "'a \<Rightarrow> 'a \<Rightarrow> 'a list \<Rightarrow> 'a list" where
  "insert_after a x [] = []"
| "insert_after a x (y # ys) = (if y = a then y # x # ys else y # insert_after a x ys)"

text \<open>
  The \<open>Orderable\<close> mixin (rules and uses are orderable): \<open>.before(name)\<close> throws
  when an after-hint is already set, \<open>.after(name)\<close> when a before-hint is.
\<close>

datatype chain_error = UnableToSetBefore string | UnableToSetAfter string

definition orderable_before :: "string \<Rightarrow> order_hints \<Rightarrow> chain_error + order_hints" where
  "orderable_before name h =
     (if js_truthy_name (snd h) then Inl (UnableToSetBefore name) else Inr (Some name, snd h))"

definition orderable_after :: "string \<Rightarrow> order_hints \<Rightarrow> chain_error + order_hints" where
  "orderable_after name h =
     (if js_truthy_name (fst h) then Inl (UnableToSetAfter name) else Inr (fst h, Some name))"

text \<open>Maps whose \<open>values()\<close> is plain insertion order: no hints, no index-like names.\<close>

definition cm_plain :: "('v \<Rightarrow> order_hints) \<Rightarrow> (string, 'v) js_map \<Rightarrow> bool" where
  "cm_plain hints m \<longleftrightarrow> cm_wf m \<and> list_all (\<lambda>k. \<not> is_array_index k) (cm_keys m)
     \<and> list_all (\<lambda>v. \<not> js_truthy_name (fst (hints v)) \<and> \<not> js_truthy_name (snd (hints v))) (cm_values m)"

section \<open>Lookup is \<open>map_of\<close>\<close>

lemma cm_get_map_of [simp]: "cm_get k m = map_of m k"
  by (induction m) auto

lemma cm_wf_Nil [simp]: "cm_wf []"
  by (simp add: cm_wf_def)

lemma cm_wf_Cons [simp]: "cm_wf ((k, v) # m) \<longleftrightarrow> k \<notin> fst ` set m \<and> cm_wf m"
  by (simp add: cm_wf_def)

lemma fst_set_cm_set: "fst ` set (cm_set k v m) = insert k (fst ` set m)"
  by (induction k v m rule: cm_set.induct) force+

lemma filter_fst_absent: "k \<notin> fst ` set m \<Longrightarrow> filter (\<lambda>p. fst p \<noteq> k) m = m"
  by (induction m) auto

lemma fst_set_cm_delete: "cm_wf m \<Longrightarrow> fst ` set (cm_delete k m) = fst ` set m - {k}"
proof (induction m)
  case Nil
  then show ?case by simp
next
  case (Cons p m)
  then show ?case by (cases p) auto
qed

section \<open>The invariant\<close>

lemma cm_set_wf: "cm_wf m \<Longrightarrow> cm_wf (cm_set k v m)"
proof (induction m)
  case Nil
  then show ?case by simp
next
  case (Cons p m)
  then show ?case by (cases p) (auto simp: fst_set_cm_set)
qed

lemma cm_delete_wf: "cm_wf m \<Longrightarrow> cm_wf (cm_delete k m)"
proof (induction m)
  case Nil
  then show ?case by simp
next
  case (Cons p m)
  then show ?case by (cases p) (auto simp: fst_set_cm_delete)
qed

section \<open>The operations against the abstract map\<close>

lemma map_of_cm_set: "map_of (cm_set k v m) = (map_of m)(k \<mapsto> v)"
  by (induction m) (auto simp: fun_eq_iff)

lemma map_of_cm_delete: "cm_wf m \<Longrightarrow> map_of (cm_delete k m) = (map_of m)(k := None)"
proof (induction m)
  case Nil
  then show ?case by simp
next
  case (Cons p m)
  then show ?case by (cases p) (auto simp: fun_eq_iff map_of_eq_None_iff)
qed

lemma cm_delete_filter: "cm_wf m \<Longrightarrow> cm_delete k m = filter (\<lambda>p. fst p \<noteq> k) m"
proof (induction m)
  case Nil
  then show ?case by simp
next
  case (Cons p m)
  then show ?case by (cases p) (auto simp: filter_fst_absent)
qed

lemma cm_delete_absent: "k \<notin> fst ` set m \<Longrightarrow> cm_delete k m = m"
  by (induction m) auto

lemma cm_keys_cm_set:
  "cm_keys (cm_set k v m) = (if k \<in> set (cm_keys m) then cm_keys m else cm_keys m @ [k])"
  by (induction k v m rule: cm_set.induct) (force simp: cm_keys_def)+

section \<open>The splices against the reference operations\<close>

lemma js_truthy_name_simps [simp]:
  "\<not> js_truthy_name None" "js_truthy_name (Some s) \<longleftrightarrow> s \<noteq> []"
  by (simp_all add: js_truthy_name_def)

lemma js_index_of_nonneg: "x \<in> set xs \<Longrightarrow> 0 \<le> js_index_of x xs"
  by (induction xs) (auto simp: Let_def)

lemma js_index_of_absent: "x \<notin> set xs \<Longrightarrow> js_index_of x xs = -1"
  by (induction xs) auto

lemma js_splice_start_Suc: "0 \<le> i \<Longrightarrow> js_splice_start (i + 1) (Suc n) = Suc (js_splice_start i n)"
  by (simp add: js_splice_start_def nat_add_distrib)

lemma js_splice_remove1_index: "x \<in> set xs \<Longrightarrow> js_splice_remove1 (js_index_of x xs) xs = remove1 x xs"
proof (induction xs)
  case Nil
  then show ?case by simp
next
  case (Cons y ys)
  show ?case
  proof (cases "x = y")
    case True
    then show ?thesis by (simp add: js_splice_remove1_def js_splice_start_def)
  next
    case False
    with Cons have "x \<in> set ys" by simp
    with Cons.IH js_index_of_nonneg [OF this] False show ?thesis
      by (simp add: js_splice_remove1_def js_splice_start_Suc Let_def)
  qed
qed

lemma js_splice_insert_index:
  "b \<in> set xs \<Longrightarrow> js_splice_insert (js_index_of b xs) x xs = insert_before b x xs"
proof (induction xs)
  case Nil
  then show ?case by simp
next
  case (Cons y ys)
  show ?case
  proof (cases "b = y")
    case True
    then show ?thesis by (simp add: js_splice_insert_def js_splice_start_def)
  next
    case False
    with Cons have "b \<in> set ys" by simp
    with Cons.IH js_index_of_nonneg [OF this] False show ?thesis
      by (simp add: js_splice_insert_def js_splice_start_Suc Let_def)
  qed
qed

lemma js_splice_insert_index_after:
  "a \<in> set xs \<Longrightarrow> js_splice_insert (js_index_of a xs + 1) x xs = insert_after a x xs"
proof (induction xs)
  case Nil
  then show ?case by simp
next
  case (Cons y ys)
  show ?case
  proof (cases "a = y")
    case True
    then show ?thesis by (simp add: js_splice_insert_def js_splice_start_def)
  next
    case False
    with Cons have "a \<in> set ys" by simp
    then have "js_splice_start (js_index_of a (y # ys) + 1) (length (y # ys)) =
        Suc (js_splice_start (js_index_of a ys + 1) (length ys))"
      using js_index_of_nonneg [OF \<open>a \<in> set ys\<close>] False by (simp add: js_splice_start_def nat_add_distrib)
    with Cons.IH \<open>a \<in> set ys\<close> False show ?thesis
      by (simp add: js_splice_insert_def Let_def)
  qed
qed

lemma mset_js_splice_insert: "mset (js_splice_insert i x xs) = add_mset x (mset xs)"
proof -
  have "mset (take k xs @ x # drop k xs) = add_mset x (mset xs)" for k
    by (metis append_take_drop_id mset.simps(2) mset_append union_mset_add_mset_right)
  then show ?thesis by (simp add: js_splice_insert_def Let_def)
qed

lemma filter_js_splice_insert:
  "\<not> P x \<Longrightarrow> filter P (js_splice_insert i x xs) = filter P xs"
proof -
  assume "\<not> P x"
  then have "filter P (take k xs @ x # drop k xs) = filter P xs" for k
    by (metis append_take_drop_id filter.simps(2) filter_append)
  then show ?thesis by (simp add: js_splice_insert_def Let_def)
qed

lemma filter_insert_before:
  "P x \<Longrightarrow> P b \<Longrightarrow> filter P (insert_before b x xs) = insert_before b x (filter P xs)"
  by (induction xs) auto

lemma filter_insert_after:
  "P x \<Longrightarrow> P a \<Longrightarrow> filter P (insert_after a x xs) = insert_after a x (filter P xs)"
  by (induction xs) auto

lemma mset_insert_before: "b \<in> set xs \<Longrightarrow> mset (insert_before b x xs) = add_mset x (mset xs)"
  by (induction xs) auto

lemma mset_insert_after: "a \<in> set xs \<Longrightarrow> mset (insert_after a x xs) = add_mset x (mset xs)"
  by (induction xs) auto

section \<open>What \<open>order()\<close> does\<close>

text \<open>
  The iteration for an entry: with a before-hint naming another present key the entry
  moves to just before it, with an after-hint naming another present key just after it;
  a before-hint naming the entry itself puts it before the last name left, an
  after-hint naming itself puts it first; otherwise nothing moves.
\<close>

lemma order_step_before:
  assumes h: "hint n = (b, a)" and c: "js_truthy_name b" "the b \<in> set order"
    and "the b \<noteq> n" "n \<in> set order"
  shows "order_step hint order n = insert_before (the b) n (remove1 n order)"
proof -
  have "the b \<in> set (remove1 n order)" using assms(4,5) c(2) by (simp add: in_set_remove1)
  then show ?thesis
    using c assms(5) by (simp add: order_step_def h Let_def js_splice_remove1_index js_splice_insert_index)
qed

lemma order_step_after:
  assumes h: "hint n = (b, a)" and nb: "\<not> (js_truthy_name b \<and> the b \<in> set order)"
    and c: "js_truthy_name a" "the a \<in> set order" and "the a \<noteq> n" "n \<in> set order"
  shows "order_step hint order n = insert_after (the a) n (remove1 n order)"
proof -
  have "the a \<in> set (remove1 n order)" using assms(5,6) c(2) by (simp add: in_set_remove1)
  then show ?thesis
    using c assms(6)
    by (simp only: order_step_def h prod.case if_not_P [OF nb] if_True Let_def
        js_splice_remove1_index js_splice_insert_index_after conj_absorb simp_thms)
qed

lemma order_step_after_self:
  assumes h: "hint n = (b, Some n)" and nb: "\<not> (js_truthy_name b \<and> the b \<in> set order)"
    and "n \<noteq> []" "n \<in> set order" "distinct order"
  shows "order_step hint order n = n # remove1 n order"
proof -
  have c: "js_truthy_name (Some n) \<and> n \<in> set order" using assms(3,4) by simp
  have "order_step hint order n =
      js_splice_insert (js_index_of n (remove1 n order) + 1) n (remove1 n order)"
    by (simp only: order_step_def h prod.case if_not_P [OF nb] if_P [OF c] Let_def option.sel
        js_splice_remove1_index [OF assms(4)])
  moreover have "js_index_of n (remove1 n order) = -1"
    using assms(5) by (simp add: js_index_of_absent)
  ultimately show ?thesis by (simp add: js_splice_insert_def js_splice_start_def)
qed

lemma order_step_none:
  assumes h: "hint n = (b, a)" and nb: "\<not> (js_truthy_name b \<and> the b \<in> set order)"
    and na: "\<not> (js_truthy_name a \<and> the a \<in> set order)"
  shows "order_step hint order n = order"
  by (simp only: order_step_def h prod.case if_not_P [OF nb] if_not_P [OF na])

lemma mset_order_step:
  assumes "n \<in> set order"
  shows "mset (order_step hint order n) = mset order"
proof -
  obtain b a where h: "hint n = (b, a)" by fastforce
  have r: "mset (js_splice_insert i n (remove1 n order)) = mset order" for i
    using assms by (simp add: mset_js_splice_insert)
  show ?thesis
    by (simp add: order_step_def h Let_def js_splice_remove1_index [OF assms] r)
qed

lemma mset_foldl_order_step:
  "mset order = mset ns \<Longrightarrow> set xs \<subseteq> set ns \<Longrightarrow> mset (foldl (order_step hint) order xs) = mset ns"
proof (induction xs arbitrary: order)
  case Nil
  then show ?case by simp
next
  case (Cons x xs)
  have "x \<in> set order" using Cons.prems mset_eq_setD by fastforce
  with Cons show ?case by (simp add: mset_order_step)
qed

lemma mset_js_object_keys: "mset (js_object_keys ks) = mset ks"
  by (simp add: js_object_keys_def flip: multiset_partition)

text \<open>\<open>order()\<close> lists every key exactly once.\<close>

lemma mset_cm_order: "mset (cm_order hints m) = mset (cm_keys m)"
  unfolding cm_order_def Let_def
  by (rule trans [OF mset_foldl_order_step [OF refl] mset_js_object_keys]) simp

lemma foldl_order_step_no_hints:
  "\<forall>n \<in> set xs. \<not> js_truthy_name (fst (hint n)) \<and> \<not> js_truthy_name (snd (hint n)) \<Longrightarrow>
   foldl (order_step hint) order xs = order"
  by (induction xs) (auto simp: order_step_def split: prod.splits)

lemma js_object_keys_plain:
  "\<forall>k \<in> set ks. \<not> is_array_index k \<Longrightarrow> js_object_keys ks = ks"
  by (simp add: js_object_keys_def filter_id_conv filter_empty_conv)

text \<open>
  Without hints and without array-index names, \<open>values()\<close> is insertion order, which
  is what \<open>cm_values\<close> says.
\<close>

lemma cm_lookup_value:
  assumes "k \<in> set (cm_keys m)"
  shows "the (map_of m k) \<in> set (cm_values m)"
proof -
  from assms have "map_of m k \<noteq> None" by (simp add: cm_keys_def map_of_eq_None_iff)
  then obtain v where "map_of m k = Some v" by blast
  then have "(k, v) \<in> set m" by (rule map_of_SomeD)
  with \<open>map_of m k = Some v\<close> show ?thesis by (simp add: cm_values_def rev_image_eqI)
qed

lemma cm_values_lookup: "cm_wf m \<Longrightarrow> map (\<lambda>n. the (map_of m n)) (cm_keys m) = cm_values m"
proof (induction m)
  case Nil
  then show ?case by (simp add: cm_keys_def cm_values_def)
next
  case (Cons p m)
  obtain k v where p: "p = (k, v)" by fastforce
  with Cons.prems have k: "k \<notin> set (cm_keys m)" and wf: "cm_wf m" by (simp_all add: cm_keys_def)
  have "map (\<lambda>n. the (map_of (p # m) n)) (cm_keys m) = map (\<lambda>n. the (map_of m n)) (cm_keys m)"
    using k by (intro map_cong) (auto simp: p)
  with Cons.IH [OF wf] p show ?case by (simp add: cm_keys_def cm_values_def)
qed

lemma cm_ordered_values_plain:
  assumes "cm_plain hints m"
  shows "cm_ordered_values hints m = cm_values m"
proof -
  have a1: "\<forall>k \<in> set (cm_keys m). \<not> is_array_index k"
    and a2: "\<forall>v \<in> set (cm_values m). \<not> js_truthy_name (fst (hints v)) \<and> \<not> js_truthy_name (snd (hints v))"
    and a3: "cm_wf m"
    using assms by (simp_all add: cm_plain_def list_all_iff)
  have "\<forall>n \<in> set (cm_keys m). \<not> js_truthy_name (fst (hints (the (map_of m n))))
          \<and> \<not> js_truthy_name (snd (hints (the (map_of m n))))"
  proof
    fix n
    assume "n \<in> set (cm_keys m)"
    then have "the (map_of m n) \<in> set (cm_values m)" by (rule cm_lookup_value)
    with a2 show "\<not> js_truthy_name (fst (hints (the (map_of m n))))
          \<and> \<not> js_truthy_name (snd (hints (the (map_of m n))))" by blast
  qed
  then have "cm_order hints m = cm_keys m"
    unfolding cm_order_def Let_def js_object_keys_plain [OF a1]
    by (rule foldl_order_step_no_hints)
  then show ?thesis by (simp add: cm_ordered_values_def cm_values_lookup [OF a3])
qed

lemma cm_plain_delete:
  assumes "cm_plain hints m"
  shows "cm_plain hints (cm_delete k m)"
proof -
  have wf: "cm_wf m" using assms by (simp add: cm_plain_def)
  have "cm_wf (cm_delete k m)" using wf by (rule cm_delete_wf)
  with assms show ?thesis
    by (auto simp: cm_plain_def cm_delete_filter [OF wf] cm_keys_def cm_values_def list_all_iff)
qed

section \<open>\<open>delete\<close> and \<open>order()\<close>\<close>

text \<open>
  Deleting a key and then ordering gives the old order without that key, as long as
  no other entry is ordered relative to the deleted key and no entry is ordered before
  itself (which \<open>order()\<close> resolves by the index \<open>-1\<close>, that is, relative to
  the last name, and so depends on which name is last).
\<close>

lemma distinct_order_step: "n \<in> set order \<Longrightarrow> distinct (order_step hint order n) = distinct order"
  by (rule mset_eq_imp_distinct_iff [OF mset_order_step])

lemma set_order_step: "n \<in> set order \<Longrightarrow> set (order_step hint order n) = set order"
  by (rule mset_eq_setD [OF mset_order_step])

lemma filter_remove1_self: "filter (\<lambda>k. k \<noteq> d) (remove1 d xs) = filter (\<lambda>k. k \<noteq> d) xs"
  by (induction xs) auto

lemma filter_order_step_deleted:
  "d \<in> set order \<Longrightarrow> filter (\<lambda>k. k \<noteq> d) (order_step hint order d) = filter (\<lambda>k. k \<noteq> d) order"
  by (auto simp: order_step_def Let_def filter_js_splice_insert js_splice_remove1_index filter_remove1_self
      split: prod.splits)

lemma filter_order_step:
  assumes dist: "distinct order" and n: "n \<in> set order" "n \<noteq> d"
    and h: "hint n = (b, a)" "hint' n = (b, a)"
    and bd: "b \<noteq> Some d" and ad: "a \<noteq> Some d" and self: "b \<noteq> Some n"
  shows "filter (\<lambda>k. k \<noteq> d) (order_step hint order n) = order_step hint' (filter (\<lambda>k. k \<noteq> d) order) n"
    (is "?F (order_step hint order n) = order_step hint' (?F order) n")
proof -
  have mem: "the x \<in> set (?F order) \<longleftrightarrow> the x \<in> set order" if "js_truthy_name x" "x \<noteq> Some d" for x
    using that by (cases x) auto
  have n': "n \<in> set (?F order)" using n by simp
  have dist': "distinct (?F order)" using dist by simp
  have rm: "?F (remove1 n order) = remove1 n (?F order)" by (rule filter_remove1)
  show ?thesis
  proof (cases "js_truthy_name b \<and> the b \<in> set order")
    case True
    then have c': "js_truthy_name b \<and> the b \<in> set (?F order)" using mem [OF _ bd] by blast
    have bn: "the b \<noteq> n" and bd': "the b \<noteq> d" using True self bd by (cases b; simp)+
    show ?thesis
      using order_step_before [of hint n b a order, OF h(1) conjunct1 [OF True] conjunct2 [OF True] bn n(1)]
        order_step_before [of hint' n b a "?F order", OF h(2) conjunct1 [OF c'] conjunct2 [OF c'] bn n']
      by (simp add: filter_insert_before n(2) bd' rm)
  next
    case nb: False
    then have nb': "\<not> (js_truthy_name b \<and> the b \<in> set (?F order))" using mem [OF _ bd] by blast
    show ?thesis
    proof (cases "js_truthy_name a \<and> the a \<in> set order")
      case True
      then have c': "js_truthy_name a \<and> the a \<in> set (?F order)" using mem [OF _ ad] by blast
      have ad': "the a \<noteq> d" using True ad by (cases a) simp_all
      show ?thesis
      proof (cases "the a = n")
        case an: False
        show ?thesis
          using order_step_after [of hint n b a order, OF h(1) nb conjunct1 [OF True] conjunct2 [OF True] an n(1)]
            order_step_after [of hint' n b a "?F order", OF h(2) nb' conjunct1 [OF c'] conjunct2 [OF c'] an n']
          by (simp add: filter_insert_after n(2) ad' rm)
      next
        case an: True
        then have a: "a = Some n" "n \<noteq> []" using True by (cases a; simp)+
        show ?thesis
          using order_step_after_self [of hint n b order, OF h(1) [unfolded a(1)] nb a(2) n(1) dist]
            order_step_after_self [of hint' n b "?F order", OF h(2) [unfolded a(1)] nb' a(2) n' dist']
          by (simp add: n(2) rm)
      qed
    next
      case na: False
      then have na': "\<not> (js_truthy_name a \<and> the a \<in> set (?F order))" using mem [OF _ ad] by blast
      show ?thesis
        using order_step_none [of hint n b a order, OF h(1) nb na] order_step_none [of hint' n b a "?F order", OF h(2) nb' na'] by simp
    qed
  qed
qed

lemma foldl_filter_order_step:
  assumes "distinct order" "set xs \<subseteq> set order"
    and "\<forall>n \<in> set xs. n \<noteq> d \<longrightarrow> hint' n = hint n \<and> fst (hint n) \<noteq> Some d \<and> snd (hint n) \<noteq> Some d
           \<and> fst (hint n) \<noteq> Some n"
  shows "filter (\<lambda>k. k \<noteq> d) (foldl (order_step hint) order xs) =
         foldl (order_step hint') (filter (\<lambda>k. k \<noteq> d) order) (filter (\<lambda>k. k \<noteq> d) xs)"
  using assms
proof (induction xs arbitrary: order)
  case Nil
  then show ?case by simp
next
  case (Cons x xs)
  have x: "x \<in> set order" using Cons.prems(2) by simp
  let ?o1 = "order_step hint order x"
  have IH: "filter (\<lambda>k. k \<noteq> d) (foldl (order_step hint) ?o1 xs) =
      foldl (order_step hint') (filter (\<lambda>k. k \<noteq> d) ?o1) (filter (\<lambda>k. k \<noteq> d) xs)"
    using Cons.prems by (intro Cons.IH) (simp_all add: distinct_order_step set_order_step x)
  show ?case
  proof (cases "x = d")
    case True
    then show ?thesis using IH filter_order_step_deleted [OF x [unfolded True]] by simp
  next
    case False
    obtain b a where h: "hint x = (b, a)" by fastforce
    have "filter (\<lambda>k. k \<noteq> d) ?o1 = order_step hint' (filter (\<lambda>k. k \<noteq> d) order) x"
      using Cons.prems(3) False h
      by (intro filter_order_step [of order x d hint b a hint', OF Cons.prems(1) x False h]) auto
    with IH False show ?thesis by simp
  qed
qed

lemma js_object_keys_filter: "js_object_keys (filter P ks) = filter P (js_object_keys ks)"
  by (simp add: js_object_keys_def filter_sort filter_filter conj_commute)

lemma distinct_js_object_keys: "distinct (js_object_keys ks) \<longleftrightarrow> distinct ks"
  by (rule mset_eq_imp_distinct_iff [OF mset_js_object_keys])

lemma set_js_object_keys: "set (js_object_keys ks) = set ks"
  by (rule mset_eq_setD [OF mset_js_object_keys])

lemma cm_keys_cm_delete: "cm_wf m \<Longrightarrow> cm_keys (cm_delete d m) = filter (\<lambda>k. k \<noteq> d) (cm_keys m)"
  by (simp add: cm_delete_filter cm_keys_def filter_map comp_def)

theorem cm_order_cm_delete:
  assumes wf: "cm_wf m"
    and hints: "\<forall>k \<in> set (cm_keys m). k \<noteq> d \<longrightarrow>
        fst (hints (the (map_of m k))) \<noteq> Some d \<and> snd (hints (the (map_of m k))) \<noteq> Some d
        \<and> fst (hints (the (map_of m k))) \<noteq> Some k"
  shows "cm_order hints (cm_delete d m) = filter (\<lambda>k. k \<noteq> d) (cm_order hints m)"
proof -
  let ?names = "js_object_keys (cm_keys m)"
  let ?h = "\<lambda>n. hints (the (map_of m n))"
  let ?h' = "\<lambda>n. hints (the (map_of (cm_delete d m) n))"
  have names': "js_object_keys (cm_keys (cm_delete d m)) = filter (\<lambda>k. k \<noteq> d) ?names"
    using wf by (simp add: cm_keys_cm_delete js_object_keys_filter)
  have dist: "distinct ?names" using wf by (simp add: distinct_js_object_keys cm_wf_def cm_keys_def)
  have "\<forall>n \<in> set ?names. n \<noteq> d \<longrightarrow> ?h' n = ?h n \<and> fst (?h n) \<noteq> Some d \<and> snd (?h n) \<noteq> Some d
          \<and> fst (?h n) \<noteq> Some n"
    using hints by (simp add: set_js_object_keys map_of_cm_delete [OF wf])
  from foldl_filter_order_step [OF dist order_refl this]
  show ?thesis by (simp only: cm_order_def Let_def names')
qed

section \<open>The \<open>Orderable\<close> mixin\<close>

lemma orderable_before_error:
  "orderable_before name h = Inl e \<longleftrightarrow> js_truthy_name (snd h) \<and> e = UnableToSetBefore name"
  by (auto simp: orderable_before_def)

lemma orderable_after_error:
  "orderable_after name h = Inl e \<longleftrightarrow> js_truthy_name (fst h) \<and> e = UnableToSetAfter name"
  by (auto simp: orderable_after_def)

text \<open>A successful call leaves at most one truthy hint, so the two branches of
  \<open>order()\<close> never compete for an entry built by these calls.\<close>

lemma orderable_before_ok:
  "orderable_before name h = Inr h' \<Longrightarrow> fst h' = Some name \<and> \<not> js_truthy_name (snd h')"
  by (auto simp: orderable_before_def split: if_splits)

lemma orderable_after_ok:
  "orderable_after name h = Inr h' \<Longrightarrow> snd h' = Some name \<and> \<not> js_truthy_name (fst h')"
  by (auto simp: orderable_after_def split: if_splits)

end
