(* ===== verification/JS_Regex.thy ===== *)
theory JS_Regex
  imports Prelude
begin

text \<open>
  The regular expressions that webpack rules use as their \<open>test\<close> condition
  (\<open>src/vue.config.js\<close>, line 8, and the rules of Vue CLI's base configuration)
  and the JavaScript engine's \<open>RegExp.prototype.test\<close> on them. The fragment
  modelled is the one these literals use: literal characters (escaped or not), the
  wildcard \<open>.\<close>, groups, alternation, the quantifiers \<open>?\<close> and \<open>*\<close>,
  the anchors \<open>^\<close> and \<open>$\<close> at the ends of the pattern, and the flag
  \<open>i\<close>.

  The meaning of a pattern is the set of strings it denotes (\<open>lang\<close>), and
  \<open>regex_search\<close> says what \<open>test\<close> promises: some substring, at the places
  the anchors allow, is in that set. The engine is modelled by an executable matcher
  built on Brzozowski derivatives (\<open>matcher\<close>) and by \<open>js_test\<close>, which
  tries every start index as \<open>RegExpBuiltinExec\<close> does; the lemmas prove both
  agree with the sets. The text syntax of the literals is in \<open>Regex_Syntax\<close>.
\<close>

section \<open>Patterns\<close>

text \<open>A character class: one literal character or the wildcard \<open>.\<close>.\<close>

datatype cls = CChar char | CDot

text \<open>
  The pattern syntax. \<open>Zero\<close> (no string) arises only in derivatives; \<open>Group\<close>
  is a capturing group \<open>(...)\<close>, which does not change what is matched.
\<close>

datatype rexp =
    Zero
  | One
  | Atom cls
  | Alt rexp rexp
  | Seq rexp rexp
  | Star rexp
  | Opt rexp
  | Group rexp

text \<open>A regular expression literal \<open>/^body$/i\<close>: its body, anchors and flag.\<close>

record js_regex =
  re_body :: rexp
  re_anchor_start :: bool
  re_anchor_end :: bool
  re_ignore_case :: bool

section \<open>Characters\<close>

text \<open>
  Line terminators, which \<open>.\<close> does not match (without the \<open>s\<close> flag).
  U+2028 and U+2029 are not single \<open>char\<close>s of the model.
\<close>

definition line_terminator :: "char \<Rightarrow> bool" where
  "line_terminator c \<longleftrightarrow> c = CHR 0x0A \<or> c = CHR 0x0D"

text \<open>
  The engine's \<open>Canonicalize\<close> under the \<open>i\<close> flag: a lower-case ASCII
  letter is compared as its upper-case form.
\<close>

definition js_canonicalize :: "char \<Rightarrow> char" where
  "js_canonicalize c =
     (case map_of (zip ''abcdefghijklmnopqrstuvwxyz'' ''ABCDEFGHIJKLMNOPQRSTUVWXYZ'') c of
        Some u \<Rightarrow> u
      | None \<Rightarrow> c)"

fun cls_match :: "bool \<Rightarrow> cls \<Rightarrow> char \<Rightarrow> bool" where
  "cls_match ic (CChar k) c = (if ic then js_canonicalize k = js_canonicalize c else k = c)"
| "cls_match ic CDot c = (\<not> line_terminator c)"

section \<open>The language of a pattern\<close>

definition conc :: "string set \<Rightarrow> string set \<Rightarrow> string set" where
  "conc A B = {u @ v | u v. u \<in> A \<and> v \<in> B}"

inductive_set kleene :: "string set \<Rightarrow> string set" for A :: "string set" where
  kleene_nil: "[] \<in> kleene A"
| kleene_app: "u \<in> A \<Longrightarrow> v \<in> kleene A \<Longrightarrow> u @ v \<in> kleene A"

primrec lang :: "bool \<Rightarrow> rexp \<Rightarrow> string set" where
  "lang ic Zero = {}"
| "lang ic One = {[]}"
| "lang ic (Atom k) = {[c] | c. cls_match ic k c}"
| "lang ic (Alt r s) = lang ic r \<union> lang ic s"
| "lang ic (Seq r s) = conc (lang ic r) (lang ic s)"
| "lang ic (Star r) = kleene (lang ic r)"
| "lang ic (Opt r) = insert [] (lang ic r)"
| "lang ic (Group r) = lang ic r"

text \<open>What \<open>test\<close> promises: a match of the body, placed where the anchors allow.\<close>

definition regex_search :: "js_regex \<Rightarrow> js_string \<Rightarrow> bool" where
  "regex_search re s \<longleftrightarrow>
     (\<exists>p t q. s = p @ t @ q \<and> t \<in> lang (re_ignore_case re) (re_body re)
        \<and> (if re_anchor_start re then p = [] else True)
        \<and> (if re_anchor_end re then q = [] else True))"

section \<open>The executable matcher\<close>

primrec nullable :: "rexp \<Rightarrow> bool" where
  "nullable Zero = False"
| "nullable One = True"
| "nullable (Atom k) = False"
| "nullable (Alt r s) = (nullable r \<or> nullable s)"
| "nullable (Seq r s) = (nullable r \<and> nullable s)"
| "nullable (Star r) = True"
| "nullable (Opt r) = True"
| "nullable (Group r) = nullable r"

primrec deriv :: "bool \<Rightarrow> char \<Rightarrow> rexp \<Rightarrow> rexp" where
  "deriv ic c Zero = Zero"
| "deriv ic c One = Zero"
| "deriv ic c (Atom k) = (if cls_match ic k c then One else Zero)"
| "deriv ic c (Alt r s) = Alt (deriv ic c r) (deriv ic c s)"
| "deriv ic c (Seq r s) =
     (if nullable r then Alt (Seq (deriv ic c r) s) (deriv ic c s) else Seq (deriv ic c r) s)"
| "deriv ic c (Star r) = Seq (deriv ic c r) (Star r)"
| "deriv ic c (Opt r) = deriv ic c r"
| "deriv ic c (Group r) = deriv ic c r"

fun derivs :: "bool \<Rightarrow> char list \<Rightarrow> rexp \<Rightarrow> rexp" where
  "derivs ic [] r = r"
| "derivs ic (c # cs) r = derivs ic cs (deriv ic c r)"

definition matcher :: "bool \<Rightarrow> rexp \<Rightarrow> js_string \<Rightarrow> bool" where
  "matcher ic r s = nullable (derivs ic s r)"

text \<open>
  \<open>RegExpBuiltinExec\<close> for a pattern without the \<open>g\<close> and \<open>y\<close> flags: try
  the start indices \<open>0 .. length s\<close> in turn (only \<open>0\<close> under \<open>^\<close>); at a
  start index the match must reach the end of the string under \<open>$\<close>, and may stop
  at any point otherwise.
\<close>

definition match_at :: "js_regex \<Rightarrow> js_string \<Rightarrow> bool" where
  "match_at re t =
     (if re_anchor_end re then matcher (re_ignore_case re) (re_body re) t
      else list_ex (\<lambda>k. matcher (re_ignore_case re) (re_body re) (take k t)) [0..<Suc (length t)])"

definition js_test :: "js_regex \<Rightarrow> js_string \<Rightarrow> bool" where
  "js_test re s =
     list_ex (\<lambda>i. match_at re (drop i s))
       (if re_anchor_start re then [0] else [0..<Suc (length s)])"

text \<open>A run of literal characters.\<close>

fun lits :: "string \<Rightarrow> rexp" where
  "lits [] = One"
| "lits [c] = Atom (CChar c)"
| "lits (c # cs) = Seq (Atom (CChar c)) (lits cs)"

text \<open>The character classes a pattern mentions.\<close>

primrec atoms :: "rexp \<Rightarrow> cls list" where
  "atoms Zero = []"
| "atoms One = []"
| "atoms (Atom k) = [k]"
| "atoms (Alt r s) = atoms r @ atoms s"
| "atoms (Seq r s) = atoms r @ atoms s"
| "atoms (Star r) = atoms r"
| "atoms (Opt r) = atoms r"
| "atoms (Group r) = atoms r"

section \<open>Lemmas on languages\<close>

lemmas js_test_unfold [regex_simps] = js_test_def match_at_def matcher_def


lemma conc_iff: "w \<in> conc A B \<longleftrightarrow> (\<exists>u v. w = u @ v \<and> u \<in> A \<and> v \<in> B)"
  by (simp add: conc_def)

lemma Nil_in_conc [simp]: "[] \<in> conc A B \<longleftrightarrow> [] \<in> A \<and> [] \<in> B"
  by (simp add: conc_iff)

lemma concI: "u \<in> A \<Longrightarrow> v \<in> B \<Longrightarrow> u @ v \<in> conc A B"
  by (auto simp: conc_iff)

lemma Cons_in_conc:
  "c # w \<in> conc A B \<longleftrightarrow>
     ([] \<in> A \<and> c # w \<in> B) \<or> (\<exists>u v. w = u @ v \<and> c # u \<in> A \<and> v \<in> B)"
proof
  assume "c # w \<in> conc A B"
  then obtain u v where uv: "c # w = u @ v" "u \<in> A" "v \<in> B" by (auto simp: conc_iff)
  show "([] \<in> A \<and> c # w \<in> B) \<or> (\<exists>u v. w = u @ v \<and> c # u \<in> A \<and> v \<in> B)"
  proof (cases u)
    case Nil
    with uv show ?thesis by simp
  next
    case (Cons a u')
    with uv have "w = u' @ v" "c # u' \<in> A" by simp_all
    with uv(3) show ?thesis by blast
  qed
next
  assume "([] \<in> A \<and> c # w \<in> B) \<or> (\<exists>u v. w = u @ v \<and> c # u \<in> A \<and> v \<in> B)"
  then show "c # w \<in> conc A B"
    by (metis append_Cons append_Nil concI)
qed

lemma kleene_Cons_dest:
  "x \<in> kleene A \<Longrightarrow> x = c # w \<Longrightarrow> \<exists>u v. w = u @ v \<and> c # u \<in> A \<and> v \<in> kleene A"
proof (induction arbitrary: w rule: kleene.induct)
  case kleene_nil
  then show ?case by simp
next
  case (kleene_app u v)
  show ?case
  proof (cases u)
    case Nil
    with kleene_app show ?thesis by simp
  next
    case (Cons a u')
    with kleene_app.prems have "w = u' @ v" "a = c" by simp_all
    with Cons kleene_app.hyps show ?thesis by blast
  qed
qed

lemma Cons_in_kleene:
  "c # w \<in> kleene A \<longleftrightarrow> (\<exists>u v. w = u @ v \<and> c # u \<in> A \<and> v \<in> kleene A)"
proof
  assume "c # w \<in> kleene A"
  then show "\<exists>u v. w = u @ v \<and> c # u \<in> A \<and> v \<in> kleene A"
    using kleene_Cons_dest by blast
next
  assume "\<exists>u v. w = u @ v \<and> c # u \<in> A \<and> v \<in> kleene A"
  then obtain u v where "w = u @ v" "c # u \<in> A" "v \<in> kleene A" by blast
  then show "c # w \<in> kleene A" using kleene_app [of "c # u" A v] by simp
qed


lemma Nil_in_lang [simp, regex_simps]: "[] \<in> lang ic r \<longleftrightarrow> nullable r"
  by (induction r) (simp_all add: kleene_nil)

lemma lang_deriv: "w \<in> lang ic (deriv ic c r) \<longleftrightarrow> c # w \<in> lang ic r"
proof (induction r arbitrary: w)
  case (Atom k)
  show ?case by simp
next
  case (Alt r s)
  then show ?case by simp
next
  case (Seq r s)
  have L: "c # w \<in> conc (lang ic r) (lang ic s) \<longleftrightarrow>
     ([] \<in> lang ic r \<and> c # w \<in> lang ic s) \<or>
     (\<exists>u v. w = u @ v \<and> c # u \<in> lang ic r \<and> v \<in> lang ic s)"
    by (rule Cons_in_conc)
  have R: "w \<in> conc (lang ic (deriv ic c r)) (lang ic s) \<longleftrightarrow>
     (\<exists>u v. w = u @ v \<and> c # u \<in> lang ic r \<and> v \<in> lang ic s)"
    using Seq.IH(1) by (simp add: conc_iff)
  show ?case
  proof (cases "nullable r")
    case True
    then have "[] \<in> lang ic r" by simp
    with True L R Seq.IH(2) show ?thesis by auto
  next
    case False
    then have "[] \<notin> lang ic r" by simp
    with False L R show ?thesis by simp
  qed
next
  case (Star r)
  have "w \<in> lang ic (Seq (deriv ic c r) (Star r)) \<longleftrightarrow>
     (\<exists>u v. w = u @ v \<and> c # u \<in> lang ic r \<and> v \<in> kleene (lang ic r))"
    using Star.IH by (simp add: conc_iff)
  then show ?case by (simp add: Cons_in_kleene)
next
  case (Opt r)
  then show ?case by simp
next
  case (Group r)
  then show ?case by simp
qed simp_all

lemma lang_derivs: "w \<in> lang ic (derivs ic s r) \<longleftrightarrow> s @ w \<in> lang ic r"
  by (induction s arbitrary: r) (simp_all add: lang_deriv)

lemma matcher_correct: "matcher ic r s \<longleftrightarrow> s \<in> lang ic r"
proof -
  have "[] \<in> lang ic (derivs ic s r) \<longleftrightarrow> s @ [] \<in> lang ic r" by (rule lang_derivs)
  then show ?thesis by (simp add: matcher_def)
qed

lemma match_at_iff:
  "match_at re t \<longleftrightarrow>
     (\<exists>u q. t = u @ q \<and> u \<in> lang (re_ignore_case re) (re_body re)
        \<and> (if re_anchor_end re then q = [] else True))"
proof (cases "re_anchor_end re")
  case True
  then show ?thesis by (simp add: match_at_def matcher_correct)
next
  case False
  have "match_at re t \<longleftrightarrow>
      (\<exists>k\<le>length t. take k t \<in> lang (re_ignore_case re) (re_body re))"
    using False by (simp add: match_at_def matcher_correct del: upt_Suc)
  also have "\<dots> \<longleftrightarrow> (\<exists>u q. t = u @ q \<and> u \<in> lang (re_ignore_case re) (re_body re))"
    by (rule ex_take_iff_split)
  finally show ?thesis using False by simp
qed

theorem js_test_correct: "js_test re s \<longleftrightarrow> regex_search re s"
proof (cases "re_anchor_start re")
  case True
  then show ?thesis by (simp add: js_test_def regex_search_def match_at_iff)
next
  case False
  have "js_test re s \<longleftrightarrow> (\<exists>i\<le>length s. match_at re (drop i s))"
    using False by (simp add: js_test_def del: upt_Suc)
  also have "\<dots> \<longleftrightarrow> (\<exists>p t. s = p @ t \<and> match_at re t)"
    by (rule ex_drop_iff_split)
  also have "\<dots> \<longleftrightarrow> regex_search re s"
  proof (cases "re_anchor_end re")
    case True
    with False show ?thesis by (simp add: regex_search_def match_at_iff)
  next
    case False
    with \<open>\<not> re_anchor_start re\<close> show ?thesis
      by (simp add: regex_search_def match_at_iff) blast
  qed
  finally show ?thesis .
qed

text \<open>The shape of every pattern of the configuration: \<open>$\<close> at the end, no \<open>^\<close>.\<close>

lemma js_test_end_anchored:
  assumes "re_anchor_end re" and "\<not> re_anchor_start re"
  shows "js_test re s \<longleftrightarrow> (\<exists>p t. s = p @ t \<and> t \<in> lang (re_ignore_case re) (re_body re))"
proof -
  have "js_test re s \<longleftrightarrow> (\<exists>i\<le>length s. match_at re (drop i s))"
    using assms(2) by (simp add: js_test_def del: upt_Suc)
  also have "\<dots> \<longleftrightarrow> (\<exists>p t. s = p @ t \<and> match_at re t)"
    by (rule ex_drop_iff_split)
  also have "\<dots> \<longleftrightarrow> (\<exists>p t. s = p @ t \<and> t \<in> lang (re_ignore_case re) (re_body re))"
    using assms(1) by (simp add: match_at_iff)
  finally show ?thesis .
qed

section \<open>Lemmas for computing languages\<close>

lemma lang_Atom_CChar [simp]: "lang False (Atom (CChar c)) = {[c]}"
  by auto

lemma conc_singletons [simp]: "conc {u} {v} = {u @ v}"
  by (auto simp: conc_iff)

lemma in_conc_singleton [simp]: "w \<in> conc {u} B \<longleftrightarrow> (\<exists>v. w = u @ v \<and> v \<in> B)"
  by (auto simp: conc_iff)

lemma in_kleene_chars: "w \<in> kleene {[c] | c. P c} \<longleftrightarrow> (\<forall>c\<in>set w. P c)"
proof
  assume "w \<in> kleene {[c] | c. P c}"
  then show "\<forall>c\<in>set w. P c"
    by (induction rule: kleene.induct) auto
next
  assume "\<forall>c\<in>set w. P c"
  then show "w \<in> kleene {[c] | c. P c}"
  proof (induction w)
    case Nil
    show ?case by (rule kleene_nil)
  next
    case (Cons c w)
    then have "[c] \<in> {[c] | c. P c}" and "w \<in> kleene {[c] | c. P c}" by auto
    then have "[c] @ w \<in> kleene {[c] | c. P c}" by (rule kleene_app)
    then show ?case by simp
  qed
qed

lemma kleene_chars_from: "u \<in> kleene A \<Longrightarrow> c \<in> set u \<Longrightarrow> \<exists>v\<in>A. c \<in> set v"
  by (induction rule: kleene.induct) auto

lemma lang_chars_atoms:
  "w \<in> lang ic r \<Longrightarrow> c \<in> set w \<Longrightarrow> \<exists>k\<in>set (atoms r). cls_match ic k c"
proof (induction r arbitrary: w)
  case (Seq r s)
  then show ?case by (fastforce simp: conc_iff)
next
  case (Star r)
  then obtain v where "v \<in> lang ic r" "c \<in> set v"
    using kleene_chars_from by fastforce
  then show ?case using Star.IH by simp
qed auto

lemma js_canonicalize_cases:
  "js_canonicalize c = c \<or> js_canonicalize c \<in> set ''ABCDEFGHIJKLMNOPQRSTUVWXYZ''"
proof (cases "map_of (zip ''abcdefghijklmnopqrstuvwxyz'' ''ABCDEFGHIJKLMNOPQRSTUVWXYZ'') c")
  case None
  then show ?thesis by (simp add: js_canonicalize_def)
next
  case (Some u)
  then have "(c, u) \<in> set (zip ''abcdefghijklmnopqrstuvwxyz'' ''ABCDEFGHIJKLMNOPQRSTUVWXYZ'')"
    by (rule map_of_SomeD)
  then have "u \<in> set ''ABCDEFGHIJKLMNOPQRSTUVWXYZ''"
    by (rule set_zip_rightD)
  with Some show ?thesis by (simp add: js_canonicalize_def)
qed

text \<open>A character that is not an upper-case letter is matched, under either flag, only by itself.\<close>

lemma cls_match_CChar_non_letter:
  assumes "k \<notin> set ''ABCDEFGHIJKLMNOPQRSTUVWXYZabcdefghijklmnopqrstuvwxyz''"
  shows "cls_match ic (CChar k) c \<longleftrightarrow> c = k"
proof -
  have "js_canonicalize k = k"
    using assms by (simp add: js_canonicalize_def)
  moreover have "js_canonicalize c = k \<longleftrightarrow> c = k"
    using js_canonicalize_cases [of c] assms \<open>js_canonicalize k = k\<close> by auto
  ultimately show ?thesis by auto
qed

lemma lang_lits: "lang False (lits s) = {s}"
  by (induction s rule: lits.induct) simp_all

lemma cls_match_dot: "cls_match ic (CChar CHR ''.'') c \<longleftrightarrow> c = CHR ''.''"
  by (rule cls_match_CChar_non_letter) simp

lemma cls_match_qmark: "cls_match ic (CChar CHR ''?'') c \<longleftrightarrow> c = CHR ''?''"
  by (rule cls_match_CChar_non_letter) simp

end
