(* ===== verification/Webpack_Rules.thy ===== *)
theory Webpack_Rules
  imports JS_Regex
begin

text \<open>
  What webpack (version 4, as used by Vue CLI 4) does with \<open>module.rules\<close>, the
  field that \<open>configureWebpack\<close> sets in \<open>src/vue.config.js\<close> (lines 6--19):
  \<^item> \<open>RuleSet.normalizeUseItem\<close> turns each entry of a rule's \<open>use\<close> list (a
    bare loader name, possibly with a \<open>?query\<close>, or an object with \<open>loader\<close>
    and \<open>options\<close>) into a loader entry, or fails at compiler start-up;
  \<^item> \<open>NormalModuleFactory\<close> splits a request into resource path and query, tests
    every rule's \<open>test\<close> against the path, and collects the loaders of the
    matching rules, in rule order, grouped as post, normal, pre;
  \<^item> \<open>loader-runner\<close> runs the loaders' normal phase from the last to the first;
  \<^item> \<open>webpack-merge\<close> (used by Vue CLI to merge \<open>configureWebpack\<close>)
    concatenates arrays, so merged rules are appended.
  Inline loaders (\<open>!\<close>-syntax in requests), \<open>oneOf\<close>, \<open>include\<close> and
  \<open>exclude\<close> conditions and the pitching phase are not modelled: neither the
  configuration nor the rules it interacts with use them.
\<close>

section \<open>Configuration values\<close>

text \<open>
  JavaScript values as a configuration holds them: booleans, (integral) numbers,
  strings, \<open>null\<close>, arrays, regular expression literals (their source text and
  flags) and plain objects. An object is the list of its own properties in insertion
  order, each key once (a literal that repeats a key denotes the object with the last
  value). A property that is absent is \<open>undefined\<close>.
\<close>

datatype js_value =
    JBool bool | JNum int | JStr string | JNull
  | JArr "js_value list" | JRegExp string string | JObj "(string \<times> js_value) list"

datatype enforce = EnforcePre | EnforcePost

text \<open>
  An entry of a rule's \<open>use\<close> list as written in a configuration: a string, or an
  object \<open>{loader, options, query}\<close> whose fields may be absent.
\<close>

datatype use_item =
    UseString string
  | UseObject "loader_name option" "js_value option" "js_value option"

record rule =
  rule_test :: "js_regex option"
  rule_enforce :: "enforce option"
  rule_use :: "use_item list"

text \<open>The part of a webpack configuration object that is modelled: \<open>module.rules\<close>.\<close>

record webpack_config =
  module_rules :: "rule list"

text \<open>
  The exceptions webpack throws while reading \<open>module.rules\<close> (\<open>RuleSet\<close>), named
  after their messages; \<open>RegExpSyntax\<close> is the early \<open>SyntaxError\<close> of a
  malformed regular expression literal, \<open>ReadPropertyOfNull\<close> the
  \<open>TypeError\<close> of reading a property of \<open>null\<close>, \<open>AndNotArray\<close> the
  \<open>TypeError\<close> of calling \<open>map\<close> on a non-array, \<open>LoaderNotString\<close> the failure
  to resolve a loader that is not named by a string.
\<close>

datatype webpack_error =
    OptionsAndQuery | NoLoaderSpecified
  | RuleFalsy | RuleNotObject | OneResourceSource | OneResultSource | LoaderAndLoaders
  | OptionsWithLoaders | OptionsWithoutLoader
  | ConditionFalsy | ConditionNotObject | ConditionProperty string | ConditionEmpty | AndNotArray
  | RegExpSyntax | ReadPropertyOfNull | LoaderNotString

record loader_entry =
  le_loader :: loader_name
  le_options :: "js_value option"

record nrule =
  nr_test :: "js_regex option"
  nr_enforce :: "enforce option"
  nr_use :: "loader_entry list"

section \<open>Truthiness\<close>

text \<open>JavaScript truthiness: \<open>false\<close>, \<open>0\<close>, \<open>""\<close> and \<open>null\<close> are falsy.\<close>

fun js_truthy :: "js_value \<Rightarrow> bool" where
  "js_truthy (JBool b) = b"
| "js_truthy (JNum n) = (n \<noteq> 0)"
| "js_truthy (JStr s) = (s \<noteq> [])"
| "js_truthy JNull = False"
| "js_truthy (JArr xs) = True"
| "js_truthy (JRegExp src fl) = True"
| "js_truthy (JObj kvs) = True"

definition opt_truthy :: "js_value option \<Rightarrow> bool" where
  "opt_truthy v = (case v of None \<Rightarrow> False | Some x \<Rightarrow> js_truthy x)"

text \<open>\<open>a || b\<close>.\<close>

definition js_or :: "js_value option \<Rightarrow> js_value option \<Rightarrow> js_value option" where
  "js_or a b = (if opt_truthy a then a else b)"

section \<open>Normalisation of rules\<close>

text \<open>
  \<open>normalizeUseItemString\<close>: \<open>"name?query"\<close> is the loader \<open>name\<close> with the
  string option \<open>query\<close>; without \<open>?\<close> the options are undefined.
\<close>

definition normalize_use_item_string :: "string \<Rightarrow> loader_entry" where
  "normalize_use_item_string s =
     (if CHR ''?'' \<in> set s
      then \<lparr>le_loader = takeWhile (\<lambda>c. c \<noteq> CHR ''?'') s,
            le_options = Some (JStr (tl (dropWhile (\<lambda>c. c \<noteq> CHR ''?'') s)))\<rparr>
      else \<lparr>le_loader = s, le_options = None\<rparr>)"

text \<open>
  \<open>normalizeUseItem\<close>: an object may not give truthy \<open>options\<close> and \<open>query\<close>,
  must name a (non-empty, i.e.\ truthy) loader, and takes \<open>options || query\<close>.
\<close>

fun normalize_use_item :: "use_item \<Rightarrow> webpack_error + loader_entry" where
  "normalize_use_item (UseString s) = Inr (normalize_use_item_string s)"
| "normalize_use_item (UseObject l opts q) =
     (if opt_truthy opts \<and> opt_truthy q then Inl OptionsAndQuery
      else case l of
        None \<Rightarrow> Inl NoLoaderSpecified
      | Some n \<Rightarrow> if n = [] then Inl NoLoaderSpecified
                  else Inr \<lparr>le_loader = n, le_options = js_or opts q\<rparr>)"

text \<open>Normalising a list stops at the first error, as the thrown exception does.\<close>

fun traverse_sum :: "('a \<Rightarrow> 'e + 'b) \<Rightarrow> 'a list \<Rightarrow> 'e + 'b list" where
  "traverse_sum f [] = Inr []"
| "traverse_sum f (x # xs) =
     (case f x of
        Inl e \<Rightarrow> Inl e
      | Inr y \<Rightarrow> (case traverse_sum f xs of Inl e \<Rightarrow> Inl e | Inr ys \<Rightarrow> Inr (y # ys)))"

definition normalize_rule :: "rule \<Rightarrow> webpack_error + nrule" where
  "normalize_rule r =
     (case traverse_sum normalize_use_item (rule_use r) of
        Inl e \<Rightarrow> Inl e
      | Inr us \<Rightarrow> Inr \<lparr>nr_test = rule_test r, nr_enforce = rule_enforce r, nr_use = us\<rparr>)"

definition normalize_rules :: "rule list \<Rightarrow> webpack_error + nrule list" where
  "normalize_rules rs = traverse_sum normalize_rule rs"

section \<open>Merging configurations\<close>

text \<open>\<open>webpack-merge\<close> on two configuration objects: the rule arrays are concatenated.\<close>

definition webpack_merge :: "webpack_config \<Rightarrow> webpack_config \<Rightarrow> webpack_config" where
  "webpack_merge a b = \<lparr>module_rules = module_rules a @ module_rules b\<rparr>"

section \<open>Matching a request\<close>

text \<open>
  A request is split at its first \<open>?\<close> into the resource path and the query
  (which keeps the \<open>?\<close>); a rule's \<open>test\<close> is matched against the path only.
  A rule without \<open>test\<close> has no resource condition and matches every path; a rule
  with one never matches the empty path (\<open>RuleSet._run\<close> checks
  \<open>data.resource\<close> first).
\<close>

definition split_resource :: "string \<Rightarrow> resource_path \<times> string" where
  "split_resource r = (takeWhile (\<lambda>c. c \<noteq> CHR ''?'') r, dropWhile (\<lambda>c. c \<noteq> CHR ''?'') r)"

definition rule_matches :: "nrule \<Rightarrow> resource_path \<Rightarrow> bool" where
  "rule_matches nr p = (case nr_test nr of None \<Rightarrow> True | Some re \<Rightarrow> p \<noteq> [] \<and> js_test re p)"

text \<open>The \<open>use\<close> effects of the matching rules, in rule order, with their \<open>enforce\<close>.\<close>

definition matched_uses :: "nrule list \<Rightarrow> resource_path \<Rightarrow> (enforce option \<times> loader_entry) list" where
  "matched_uses rs p =
     concat (map (\<lambda>nr. if rule_matches nr p then map (\<lambda>u. (nr_enforce nr, u)) (nr_use nr) else []) rs)"

definition uses_with :: "enforce option \<Rightarrow> (enforce option \<times> loader_entry) list \<Rightarrow> loader_entry list" where
  "uses_with e us = map snd (filter (\<lambda>u. fst u = e) us)"

text \<open>\<open>NormalModuleFactory\<close>: post loaders, then normal loaders, then pre loaders.\<close>

definition module_loaders :: "nrule list \<Rightarrow> resource_path \<Rightarrow> loader_entry list" where
  "module_loaders rs p =
     (let us = matched_uses rs p
      in uses_with (Some EnforcePost) us @ uses_with None us @ uses_with (Some EnforcePre) us)"

text \<open>The loaders webpack chooses for a request under a configuration, or its start-up error.\<close>

definition request_loaders :: "webpack_config \<Rightarrow> string \<Rightarrow> webpack_error + loader_entry list" where
  "request_loaders cfg req =
     (case normalize_rules (module_rules cfg) of
        Inl e \<Rightarrow> Inl e
      | Inr rs \<Rightarrow> Inr (module_loaders rs (fst (split_resource req))))"

section \<open>Running the loaders\<close>

text \<open>
  \<open>loader-runner\<close>'s \<open>iterateNormalLoaders\<close>: the loader index starts at the
  last loader and goes down to the first; each loader transforms the content the
  previous one produced. A loader's effect is a parameter \<open>run\<close>.
\<close>

fun iterate_normal_loaders ::
  "(loader_entry \<Rightarrow> 'c \<Rightarrow> 'c) \<Rightarrow> loader_entry list \<Rightarrow> nat \<Rightarrow> 'c \<Rightarrow> 'c" where
  "iterate_normal_loaders run ls 0 c = c"
| "iterate_normal_loaders run ls (Suc i) c = iterate_normal_loaders run ls i (run (ls ! i) c)"

definition run_loaders :: "(loader_entry \<Rightarrow> 'c \<Rightarrow> 'c) \<Rightarrow> loader_entry list \<Rightarrow> 'c \<Rightarrow> 'c" where
  "run_loaders run ls c = iterate_normal_loaders run ls (length ls) c"

text \<open>The order in which the loaders' normal phases execute, as a log of their names.\<close>

definition execution_order :: "loader_entry list \<Rightarrow> loader_name list" where
  "execution_order ls = run_loaders (\<lambda>l log. log @ [le_loader l]) ls []"

text \<open>Printing a loader entry back as a \<open>use\<close> string (the inverse of the normalisation).\<close>

definition print_use_item_string :: "loader_entry \<Rightarrow> string" where
  "print_use_item_string e =
     le_loader e @ (case le_options e of Some (JStr q) \<Rightarrow> CHR ''?'' # q | _ \<Rightarrow> [])"

section \<open>Lemmas: values\<close>

lemma opt_truthy_None [simp]: "opt_truthy None = False"
  by (simp add: opt_truthy_def)

lemma opt_truthy_Some [simp]: "opt_truthy (Some x) = js_truthy x"
  by (simp add: opt_truthy_def)

lemma js_or_None [simp]: "js_or None b = b"
  by (simp add: js_or_def)

lemma js_or_Some [simp]: "js_or (Some x) b = (if js_truthy x then Some x else b)"
  by (simp add: js_or_def)

text \<open>A property value of an object is smaller than the object (for recursion on values).\<close>

lemma size_map_of_less:
  assumes "map_of kvs k = Some x"
  shows "size x < size (JObj kvs)"
proof -
  from assms have "(k, x) \<in> set kvs" by (rule map_of_SomeD)
  then have "size x \<le> size_list (size_prod (\<lambda>_. 0) size) kvs"
    by (rule size_list_estimation') simp
  then show ?thesis by simp
qed

section \<open>Lemmas: requests\<close>

lemma split_resource_append: "fst (split_resource r) @ snd (split_resource r) = r"
  by (simp add: split_resource_def)

lemma split_resource_path: "CHR ''?'' \<notin> set (fst (split_resource r))"
  by (auto simp: split_resource_def dest: set_takeWhileD)

lemma split_resource_of_parts:
  assumes "CHR ''?'' \<notin> set p" and "q = [] \<or> hd q = CHR ''?''"
  shows "split_resource (p @ q) = (p, q)"
proof (cases q)
  case Nil
  with assms(1) show ?thesis
    by (auto simp: split_resource_def takeWhile_eq_all_conv dropWhile_eq_Nil_conv)
next
  case (Cons c q')
  with assms have "c = CHR ''?''" by simp
  with Cons assms(1) show ?thesis
    by (simp add: split_resource_def takeWhile_neq_append_Cons dropWhile_neq_append_Cons)
qed

section \<open>Lemmas: normalisation\<close>

lemma normalize_use_item_string_no_query:
  "CHR ''?'' \<notin> set s \<Longrightarrow> normalize_use_item_string s = \<lparr>le_loader = s, le_options = None\<rparr>"
  by (simp add: normalize_use_item_string_def)

lemma print_normalize_use_item_string:
  "print_use_item_string (normalize_use_item_string s) = s"
proof (cases "CHR ''?'' \<in> set s")
  case True
  then show ?thesis
    using takeWhile_neq_dropWhile_split [OF True]
    by (simp add: normalize_use_item_string_def print_use_item_string_def)
next
  case False
  then show ?thesis
    by (simp add: normalize_use_item_string_def print_use_item_string_def)
qed

lemma normalize_print_use_item_string:
  assumes "CHR ''?'' \<notin> set l"
  shows "normalize_use_item_string (print_use_item_string \<lparr>le_loader = l, le_options = Some (JStr q)\<rparr>)
           = \<lparr>le_loader = l, le_options = Some (JStr q)\<rparr>"
  using assms
  by (simp add: normalize_use_item_string_def print_use_item_string_def
      takeWhile_neq_append_Cons dropWhile_neq_append_Cons)

lemma normalize_use_item_Inl_iff:
  "normalize_use_item u = Inl e \<longleftrightarrow>
     (case u of
        UseString s \<Rightarrow> False
      | UseObject l opts q \<Rightarrow>
          (opt_truthy opts \<and> opt_truthy q \<and> e = OptionsAndQuery)
          \<or> (\<not> (opt_truthy opts \<and> opt_truthy q) \<and> (l = None \<or> l = Some []) \<and> e = NoLoaderSpecified))"
  by (cases u) (auto split: option.splits)

lemma traverse_sum_Inr_iff:
  "traverse_sum f xs = Inr ys \<longleftrightarrow> list_all2 (\<lambda>x y. f x = Inr y) xs ys"
proof (induction xs arbitrary: ys)
  case Nil
  then show ?case by auto
next
  case (Cons x xs)
  show ?case
  proof
    assume "traverse_sum f (x # xs) = Inr ys"
    then show "list_all2 (\<lambda>x y. f x = Inr y) (x # xs) ys"
      using Cons.IH by (auto split: sum.splits)
  next
    assume "list_all2 (\<lambda>x y. f x = Inr y) (x # xs) ys"
    then obtain y ys' where "ys = y # ys'" "f x = Inr y" "list_all2 (\<lambda>x y. f x = Inr y) xs ys'"
      by (cases ys) auto
    moreover from this(3) have "traverse_sum f xs = Inr ys'"
      using Cons.IH by blast
    ultimately show "traverse_sum f (x # xs) = Inr ys" by simp
  qed
qed

lemma traverse_sum_append:
  "traverse_sum f (xs @ ys) =
     (case traverse_sum f xs of
        Inl e \<Rightarrow> Inl e
      | Inr as \<Rightarrow> (case traverse_sum f ys of Inl e \<Rightarrow> Inl e | Inr bs \<Rightarrow> Inr (as @ bs)))"
  by (induction xs) (auto split: sum.splits)

section \<open>Lemmas: rule matching\<close>

lemma matched_uses_append:
  "matched_uses (rs1 @ rs2) p = matched_uses rs1 p @ matched_uses rs2 p"
  by (simp add: matched_uses_def)

lemma uses_with_append: "uses_with e (xs @ ys) = uses_with e xs @ uses_with e ys"
  by (simp add: uses_with_def)

lemma module_loaders_append:
  "module_loaders (rs1 @ rs2) p =
     (uses_with (Some EnforcePost) (matched_uses rs1 p) @ uses_with (Some EnforcePost) (matched_uses rs2 p))
     @ (uses_with None (matched_uses rs1 p) @ uses_with None (matched_uses rs2 p))
     @ (uses_with (Some EnforcePre) (matched_uses rs1 p) @ uses_with (Some EnforcePre) (matched_uses rs2 p))"
  by (simp add: module_loaders_def matched_uses_append uses_with_append)

lemma request_loaders_merge:
  "request_loaders (webpack_merge cfg raw) req =
     (case normalize_rules (module_rules cfg) of
        Inl e \<Rightarrow> Inl e
      | Inr rs \<Rightarrow>
          (case normalize_rules (module_rules raw) of
             Inl e \<Rightarrow> Inl e
           | Inr rs' \<Rightarrow> Inr (module_loaders (rs @ rs') (fst (split_resource req)))))"
  by (simp add: request_loaders_def webpack_merge_def normalize_rules_def traverse_sum_append
      split: sum.splits)

lemma matched_uses_all_normal:
  "list_all (\<lambda>nr. nr_enforce nr = None) rs \<Longrightarrow> list_all (\<lambda>u. fst u = None) (matched_uses rs p)"
  by (induction rs) (auto simp: matched_uses_def list_all_iff)

lemma module_loaders_all_normal:
  assumes "list_all (\<lambda>nr. nr_enforce nr = None) rs"
  shows "module_loaders rs p = map snd (matched_uses rs p)"
proof -
  have all: "list_all (\<lambda>u. fst u = None) (matched_uses rs p)"
    using assms by (rule matched_uses_all_normal)
  then have "filter (\<lambda>u. fst u = None) (matched_uses rs p) = matched_uses rs p"
    by (simp add: list_all_iff)
  moreover have "filter (\<lambda>u. fst u = Some e) (matched_uses rs p) = []" for e
    using all by (auto simp: list_all_iff filter_empty_conv)
  ultimately show ?thesis by (simp add: module_loaders_def uses_with_def)
qed

lemma matched_uses_Cons:
  "matched_uses (nr # rs) p =
     (if rule_matches nr p then map (\<lambda>u. (nr_enforce nr, u)) (nr_use nr) else []) @ matched_uses rs p"
  by (simp add: matched_uses_def)

lemma matched_uses_Nil [simp]: "matched_uses [] p = []"
  by (simp add: matched_uses_def)

lemma snd_set_matched_uses: "snd ` set (matched_uses rs p) \<subseteq> set (concat (map nr_use rs))"
  by (induction rs) (auto simp: matched_uses_Cons)

lemma set_module_loaders: "set (module_loaders rs p) \<subseteq> set (concat (map nr_use rs))"
  using snd_set_matched_uses [of rs p] by (auto simp: module_loaders_def uses_with_def Let_def)

section \<open>Lemmas: the loader runner\<close>

lemma iterate_normal_loaders_foldr:
  "i \<le> length ls \<Longrightarrow> iterate_normal_loaders run ls i c = foldr run (take i ls) c"
proof (induction i arbitrary: c)
  case 0
  then show ?case by simp
next
  case (Suc i)
  then have "take (Suc i) ls = take i ls @ [ls ! i]"
    by (simp add: take_Suc_conv_app_nth)
  with Suc show ?case by simp
qed

lemma run_loaders_foldr: "run_loaders run ls c = foldr run ls c"
  by (simp add: run_loaders_def iterate_normal_loaders_foldr)

lemma foldr_log: "foldr (\<lambda>l log. log @ [le_loader l]) ls acc = acc @ rev (map le_loader ls)"
  by (induction ls arbitrary: acc) auto

lemma execution_order_rev: "execution_order ls = rev (map le_loader ls)"
  by (simp add: execution_order_def run_loaders_def iterate_normal_loaders_foldr foldr_log)

end
