(* ===== verification/Regex_Syntax.thy ===== *)
theory Regex_Syntax
  imports JS_Regex
begin

text \<open>
  The syntax of the regular expression literals of the configuration: a parser of the
  pattern text between the slashes (\<open>parse_pattern\<close>), for the fragment of
  \<open>JS_Regex\<close>, and a printer back to text (\<open>print_pattern\<close>). The parser's
  mutual recursion runs on fuel; the lemmas prove that the fuel \<open>parse_pattern\<close>
  gives is enough (more fuel never changes the result) and that parsing a printed
  pattern of the parser's output forms gives the pattern back.
\<close>

section \<open>The parser\<close>

text \<open>
  A disjunction of alternatives, an alternative a sequence of terms, a term an atom
  with an optional \<open>*\<close> or \<open>?\<close>, an atom a pattern character, \<open>.\<close>, an identity
  escape of a syntax character or of \<open>/\<close>, or a group. Each call spends one unit of
  fuel; running out is \<open>None\<close>, as is a syntax error.
\<close>

definition syntax_char :: "char \<Rightarrow> bool" where
  "syntax_char c \<longleftrightarrow> c \<in> set ''^$.*+?()[]{}|'' \<or> c = CHR 0x5C"

definition parse_quantifier :: "rexp \<Rightarrow> string \<Rightarrow> rexp \<times> string" where
  "parse_quantifier a rest =
     (if rest \<noteq> [] \<and> hd rest = CHR ''*'' then (Star a, tl rest)
      else if rest \<noteq> [] \<and> hd rest = CHR ''?'' then (Opt a, tl rest)
      else (a, rest))"

fun parse_disj :: "nat \<Rightarrow> string \<Rightarrow> (rexp \<times> string) option"
and parse_alt :: "nat \<Rightarrow> string \<Rightarrow> (rexp \<times> string) option"
and parse_atom :: "nat \<Rightarrow> string \<Rightarrow> (rexp \<times> string) option" where
  "parse_disj 0 s = None"
| "parse_disj (Suc n) s =
     (case parse_alt n s of
        None \<Rightarrow> None
      | Some (r, rest) \<Rightarrow>
          if rest \<noteq> [] \<and> hd rest = CHR ''|'' then
            (case parse_disj n (tl rest) of None \<Rightarrow> None | Some (r', rest') \<Rightarrow> Some (Alt r r', rest'))
          else Some (r, rest))"
| "parse_alt 0 s = None"
| "parse_alt (Suc n) s =
     (if s = [] \<or> hd s = CHR ''|'' \<or> hd s = CHR '')'' then Some (One, s)
      else case parse_atom n s of
        None \<Rightarrow> None
      | Some (a, rest) \<Rightarrow>
          (let (t, rest') = parse_quantifier a rest
           in case parse_alt n rest' of
                None \<Rightarrow> None
              | Some (u, rest'') \<Rightarrow> Some (if u = One then t else Seq t u, rest'')))"
| "parse_atom 0 s = None"
| "parse_atom (Suc n) s =
     (case s of
        [] \<Rightarrow> None
      | c # rest \<Rightarrow>
          if c = CHR 0x5C then
            (case rest of d # rest' \<Rightarrow> if syntax_char d \<or> d = CHR ''/'' then Some (Atom (CChar d), rest') else None
                        | [] \<Rightarrow> None)
          else if c = CHR ''.'' then Some (Atom CDot, rest)
          else if c = CHR ''('' then
            (case parse_disj n rest of
               Some (r, rest') \<Rightarrow> if rest' \<noteq> [] \<and> hd rest' = CHR '')'' then Some (Group r, tl rest') else None
             | None \<Rightarrow> None)
          else if syntax_char c then None
          else Some (Atom (CChar c), rest))"

text \<open>
  A literal's pattern text and flags: a leading \<open>^\<close> and a trailing \<open>$\<close> that is
  not escaped (\<open>backslash_run\<close>, the backslashes before it, is even) are the anchors; the rest must
  parse completely; the flag \<open>i\<close> ignores case. The parser gets three units of fuel
  per character plus three, which \<open>parse_fuel_enough\<close> proves is enough.
\<close>

definition backslash_run :: "string \<Rightarrow> nat" where
  "backslash_run s = length (takeWhile (\<lambda>c. c = CHR 0x5C) (rev s))"

definition parse_pattern :: "string \<Rightarrow> string \<Rightarrow> js_regex option" where
  "parse_pattern src flags =
     (let (st, s1) = (if src \<noteq> [] \<and> hd src = CHR ''^'' then (True, tl src) else (False, src));
          (en, s2) = (if s1 \<noteq> [] \<and> last s1 = CHR ''$''
                         \<and> even (backslash_run (butlast s1))
                      then (True, butlast s1) else (False, s1))
      in case parse_disj (3 * length s2 + 3) s2 of
           Some (r, []) \<Rightarrow> Some \<lparr>re_body = r, re_anchor_start = st, re_anchor_end = en,
                                  re_ignore_case = (CHR ''i'' \<in> set flags)\<rparr>
         | _ \<Rightarrow> None)"

section \<open>The printer\<close>

text \<open>
  The inverse direction: a pattern printed as the text of a literal, escaping the syntax
  characters and the slash, with \<open>|\<close>, the quantifier suffixes and parentheses for
  groups. \<open>Zero\<close> has no syntax in the fragment and prints as the empty text.
\<close>

fun print_rexp :: "rexp \<Rightarrow> string" where
  "print_rexp Zero = []"
| "print_rexp One = []"
| "print_rexp (Atom (CChar c)) = (if syntax_char c \<or> c = CHR ''/'' then [CHR 0x5C, c] else [c])"
| "print_rexp (Atom CDot) = ''.''"
| "print_rexp (Alt r s) = print_rexp r @ CHR ''|'' # print_rexp s"
| "print_rexp (Seq r s) = print_rexp r @ print_rexp s"
| "print_rexp (Star r) = print_rexp r @ ''*''"
| "print_rexp (Opt r) = print_rexp r @ ''?''"
| "print_rexp (Group r) = CHR ''('' # print_rexp r @ '')''"

definition print_pattern :: "js_regex \<Rightarrow> string" where
  "print_pattern re =
     (if re_anchor_start re then ''^'' else []) @ print_rexp (re_body re)
     @ (if re_anchor_end re then ''$'' else [])"

definition print_flags :: "js_regex \<Rightarrow> string" where
  "print_flags re = (if re_ignore_case re then ''i'' else [])"

text \<open>
  The forms the parser produces: a disjunction of alternatives; an alternative that is
  empty, a term, or a term followed by a non-empty alternative; a term that is an atom
  with at most one quantifier; an atom that is a character class or a group.
\<close>

fun is_disj :: "rexp \<Rightarrow> bool"
and is_alt :: "rexp \<Rightarrow> bool"
and is_term :: "rexp \<Rightarrow> bool"
and is_atom :: "rexp \<Rightarrow> bool" where
  "is_disj (Alt r s) = (is_alt r \<and> is_disj s)"
| "is_disj r = is_alt r"
| "is_alt One = True"
| "is_alt (Seq t u) = (is_term t \<and> is_alt u \<and> u \<noteq> One)"
| "is_alt t = is_term t"
| "is_term (Star a) = is_atom a"
| "is_term (Opt a) = is_atom a"
| "is_term a = is_atom a"
| "is_atom (Atom k) = True"
| "is_atom (Group r) = is_disj r"
| "is_atom r = False"

section \<open>Fuel\<close>

text \<open>
  Every call consumes input or descends one level, so the input left is never longer than
  the input given, and an atom consumes at least one character. From this, fuel beyond
  three units per character plus three never changes the result: the fuel of
  \<open>parse_pattern\<close> is the parser's total result.
\<close>

lemma parse_quantifier_length:
  "parse_quantifier a rest = (t, rest') \<Longrightarrow> length rest' \<le> length rest"
  by (auto simp: parse_quantifier_def split: if_splits)

lemma parse_rest_length:
  "(parse_disj n s = Some (r, rest) \<longrightarrow> length rest \<le> length s) \<and>
   (parse_alt n s = Some (r, rest) \<longrightarrow> length rest \<le> length s) \<and>
   (parse_atom n s = Some (r, rest) \<longrightarrow> length rest < length s)"
proof (induction n arbitrary: s r rest)
  case 0
  then show ?case by simp
next
  case (Suc n)
  show ?case
  proof (intro conjI impI)
    assume a: "parse_atom (Suc n) s = Some (r, rest)"
    have d: "parse_disj n t = Some (x, y) \<Longrightarrow> length y \<le> length t" for t x y
      using Suc.IH by blast
    show "length rest < length s"
    proof (cases s)
      case Nil
      with a show ?thesis by simp
    next
      case (Cons c s0)
      with a d [of s0] show ?thesis
        by (auto split: if_splits list.splits option.splits prod.splits)
    qed
  next
    assume a: "parse_alt (Suc n) s = Some (r, rest)"
    have at: "parse_atom n t = Some (x, y) \<Longrightarrow> length y < length t" for t x y
      using Suc.IH by blast
    have al: "parse_alt n t = Some (x, y) \<Longrightarrow> length y \<le> length t" for t x y
      using Suc.IH by blast
    show "length rest \<le> length s"
    proof (cases "s = [] \<or> hd s = CHR ''|'' \<or> hd s = CHR '')''")
      case True
      with a show ?thesis by auto
    next
      case False
      with a obtain x rest1 where atom: "parse_atom n s = Some (x, rest1)"
        by (auto split: option.splits)
      obtain t rest' where q: "parse_quantifier x rest1 = (t, rest')" by fastforce
      have r': "length rest' \<le> length rest1" using q by (rule parse_quantifier_length)
      from a False atom q obtain u where "parse_alt n rest' = Some (u, rest)"
        by (auto split: if_splits option.splits)
      with al have "length rest \<le> length rest'" by blast
      with r' at [OF atom] show ?thesis by simp
    qed
  next
    assume a: "parse_disj (Suc n) s = Some (r, rest)"
    have al: "parse_alt n t = Some (x, y) \<Longrightarrow> length y \<le> length t" for t x y
      using Suc.IH by blast
    have di: "parse_disj n t = Some (x, y) \<Longrightarrow> length y \<le> length t" for t x y
      using Suc.IH by blast
    from a obtain x rest1 where alt: "parse_alt n s = Some (x, rest1)"
      by (auto split: option.splits)
    show "length rest \<le> length s"
    proof (cases "rest1 \<noteq> [] \<and> hd rest1 = CHR ''|''")
      case True
      with a alt obtain y where "parse_disj n (tl rest1) = Some (y, rest)"
        by (auto split: option.splits)
      with di al [OF alt] show ?thesis by fastforce
    next
      case False
      with a alt al [OF alt] show ?thesis by auto
    qed
  qed
qed

lemma parse_fuel_stable:
  "(3 * length s + 3 \<le> n \<longrightarrow> parse_disj (Suc n) s = parse_disj n s) \<and>
   (3 * length s + 2 \<le> n \<longrightarrow> parse_alt (Suc n) s = parse_alt n s) \<and>
   (3 * length s + 1 \<le> n \<longrightarrow> parse_atom (Suc n) s = parse_atom n s)"
proof (induction n arbitrary: s)
  case 0
  then show ?case by simp
next
  case (Suc n)
  have di: "3 * length t + 3 \<le> n \<Longrightarrow> parse_disj (Suc n) t = parse_disj n t" for t
    using Suc.IH by blast
  have al: "3 * length t + 2 \<le> n \<Longrightarrow> parse_alt (Suc n) t = parse_alt n t" for t
    using Suc.IH by blast
  have at: "3 * length t + 1 \<le> n \<Longrightarrow> parse_atom (Suc n) t = parse_atom n t" for t
    using Suc.IH by blast
  show ?case
  proof (intro conjI impI)
    assume b: "3 * length s + 3 \<le> Suc n"
    have alt: "parse_alt (Suc n) s = parse_alt n s" using b by (intro al) simp
    have tl: "parse_disj (Suc n) (tl rest) = parse_disj n (tl rest)"
      if "parse_alt n s = Some (r, rest)" "rest \<noteq> []" for r rest
    proof (rule di)
      have "length rest \<le> length s" using that(1) parse_rest_length by blast
      with that(2) b show "3 * length (tl rest) + 3 \<le> n" by (cases rest) simp_all
    qed
    show "parse_disj (Suc (Suc n)) s = parse_disj (Suc n) s"
      using alt tl by (auto split: option.splits)
  next
    assume b: "3 * length s + 2 \<le> Suc n"
    show "parse_alt (Suc (Suc n)) s = parse_alt (Suc n) s"
    proof (cases "s = [] \<or> hd s = CHR ''|'' \<or> hd s = CHR '')''")
      case True
      then show ?thesis by simp
    next
      case False
      have atom: "parse_atom (Suc n) s = parse_atom n s" using b by (intro at) simp
      have rest: "parse_alt (Suc n) t = parse_alt n t" if "length t < length s" for t
        using that b by (intro al) simp
      show ?thesis
      proof (cases "parse_atom n s")
        case None
        with False atom show ?thesis by simp
      next
        case (Some ar)
        then obtain a r where ar: "parse_atom n s = Some (a, r)" by (cases ar) blast
        then have len: "length r < length s" using parse_rest_length by blast
        have r1: "parse_alt (Suc n) r = parse_alt n r" using len by (rule rest)
        have r2: "parse_alt (Suc n) (tl r) = parse_alt n (tl r)" if "r \<noteq> []"
          using len that by (intro rest) (cases r, simp_all)
        show ?thesis
          using False atom ar r1 r2
          by (cases "r \<noteq> [] \<and> hd r = CHR ''*''"; cases "r \<noteq> [] \<and> hd r = CHR ''?''")
            (simp_all add: parse_quantifier_def)
      qed
    qed
  next
    assume b: "3 * length s + 1 \<le> Suc n"
    show "parse_atom (Suc (Suc n)) s = parse_atom (Suc n) s"
    proof (cases s)
      case Nil
      then show ?thesis by simp
    next
      case (Cons c s0)
      have "parse_disj (Suc n) s0 = parse_disj n s0" using b Cons by (intro di) simp
      with Cons show ?thesis by simp
    qed
  qed
qed

lemma parse_disj_fuel:
  assumes "3 * length s + 3 \<le> n"
  shows "parse_disj (n + k) s = parse_disj n s"
proof (induction k)
  case 0
  then show ?case by simp
next
  case (Suc k)
  have "parse_disj (Suc (n + k)) s = parse_disj (n + k) s"
    using parse_fuel_stable [of s "n + k"] assms by simp
  with Suc show ?case by simp
qed

lemma parse_fuel_enough:
  "3 * length s + 3 \<le> n \<Longrightarrow> parse_disj n s = parse_disj (3 * length s + 3) s"
  using parse_disj_fuel [of s "3 * length s + 3" "n - (3 * length s + 3)"] by simp

section \<open>Escapes in printed patterns\<close>

text \<open>
  A printed pattern ends in an even run of backslashes, a final \<open>$\<close> of it is
  escaped (an odd run before it), and it never starts with \<open>^\<close>: so the anchors
  \<open>parse_pattern\<close> finds in \<open>print_pattern\<close> are exactly the printed ones.
\<close>

lemma backslash_run_append:
  "backslash_run (a @ b) = (if backslash_run b = length b then length b + backslash_run a else backslash_run b)"
  by (induction b rule: rev_induct) (auto simp: backslash_run_def)

lemma backslash_run_le: "backslash_run s \<le> length s"
  by (metis backslash_run_def length_rev length_takeWhile_le)

lemma backslash_run_Cons:
  "backslash_run (c # s) = (if backslash_run s = length s \<and> c = CHR 0x5C then Suc (length s) else backslash_run s)"
  using backslash_run_append [of "[c]" s] by (auto simp: backslash_run_def)

lemma backslash_run_Nil [simp]: "backslash_run [] = 0"
  by (simp add: backslash_run_def)

lemma backslash_run_sep:
  "c \<noteq> CHR 0x5C \<Longrightarrow> backslash_run (a @ c # b) = backslash_run b"
  using backslash_run_le [of b] by (auto simp: backslash_run_append backslash_run_Cons)

lemma print_rexp_escapes:
  "even (backslash_run (print_rexp r)) \<and>
   (print_rexp r \<noteq> [] \<longrightarrow> last (print_rexp r) = CHR ''$'' \<longrightarrow> odd (backslash_run (butlast (print_rexp r)))) \<and>
   (print_rexp r \<noteq> [] \<longrightarrow> hd (print_rexp r) \<noteq> CHR ''^'')"
proof (induction r)
  case (Atom k)
  then show ?case by (cases k) (auto simp: backslash_run_def syntax_char_def)
next
  case (Alt r s)
  then show ?case
    by (cases "print_rexp s = []")
      (simp_all add: backslash_run_sep butlast_append hd_append)
next
  case (Seq r s)
  then show ?case
    by (cases "print_rexp s = []") (auto simp: backslash_run_append butlast_append hd_append)
next
  case (Group r)
  then show ?case by (simp add: backslash_run_Cons backslash_run_sep)
qed (simp_all add: backslash_run_sep hd_append)


section \<open>Round trip\<close>

text \<open>
  Parsing the printed text of a pattern in the parser's forms, followed by a text that
  the enclosing level stops at, gives the pattern and that text back, at every level of
  the grammar and with the fuel that \<open>parse_pattern\<close> gives.
\<close>

lemma print_starts_term:
  "(is_alt r \<longrightarrow> r \<noteq> One \<longrightarrow> print_rexp r \<noteq> [] \<and> hd (print_rexp r) \<notin> set ''|)*?'') \<and>
   (is_term r \<longrightarrow> print_rexp r \<noteq> [] \<and> hd (print_rexp r) \<notin> set ''|)*?'') \<and>
   (is_atom r \<longrightarrow> print_rexp r \<noteq> [] \<and> hd (print_rexp r) \<notin> set ''|)*?'')"
proof (induction r)
  case (Atom k)
  then show ?case by (cases k) (auto simp: syntax_char_def)
qed auto

lemma parse_alt_empty:
  "rest = [] \<or> hd rest = CHR ''|'' \<or> hd rest = CHR '')'' \<Longrightarrow> parse_alt (Suc m) rest = Some (One, rest)"
  by auto

lemma parse_alt_term:
  assumes "parse_atom m s = Some (a, q)" "parse_quantifier a q = (t, rest)"
    and "s \<noteq> []" "hd s \<notin> set ''|)''" "parse_alt m rest = Some (u, rest')"
  shows "parse_alt (Suc m) s = Some (if u = One then t else Seq t u, rest')"
  using assms by auto

lemma parse_disj_single:
  "parse_alt m s = Some (r, rest) \<Longrightarrow> (rest = [] \<or> hd rest = CHR '')'') \<Longrightarrow>
   parse_disj (Suc m) s = Some (r, rest)"
  by auto

lemma parse_single_term:
  assumes tm: "\<And>n rest. rest = [] \<or> hd rest \<notin> set ''*?'' \<Longrightarrow> 3 * length p + 1 \<le> n \<Longrightarrow>
      \<exists>a q. parse_atom n (p @ rest) = Some (a, q) \<and> parse_quantifier a q = (t, rest)"
    and p: "p \<noteq> []" "hd p \<notin> set ''|)''" and t: "t \<noteq> One"
  shows "(rest = [] \<or> hd rest = CHR ''|'' \<or> hd rest = CHR '')'') \<longrightarrow> 3 * length p + 2 \<le> n \<longrightarrow>
         parse_alt n (p @ rest) = Some (t, rest)"
    and "(rest = [] \<or> hd rest = CHR '')'') \<longrightarrow> 3 * length p + 3 \<le> n \<longrightarrow>
         parse_disj n (p @ rest) = Some (t, rest)"
proof -
  have alt: "parse_alt (Suc m) (p @ rest) = Some (t, rest)"
    if m: "3 * length p + 1 \<le> m" and rest: "rest = [] \<or> hd rest = CHR ''|'' \<or> hd rest = CHR '')''" for m rest
  proof -
    from rest have "rest = [] \<or> hd rest \<notin> set ''*?''" by auto
    from tm [OF this m] obtain a q where "parse_atom m (p @ rest) = Some (a, q)"
      "parse_quantifier a q = (t, rest)" by blast
    moreover obtain k where "m = Suc k" using m p(1) by (cases m) auto
    ultimately show ?thesis
      using parse_alt_term [where u = One] parse_alt_empty [OF rest] p by simp
  qed
  show "(rest = [] \<or> hd rest = CHR ''|'' \<or> hd rest = CHR '')'') \<longrightarrow> 3 * length p + 2 \<le> n \<longrightarrow>
        parse_alt n (p @ rest) = Some (t, rest)"
    using alt [of "n - 1" rest] by (cases n) simp_all
  show "(rest = [] \<or> hd rest = CHR '')'') \<longrightarrow> 3 * length p + 3 \<le> n \<longrightarrow>
        parse_disj n (p @ rest) = Some (t, rest)"
    using alt [of "n - 2" rest] parse_disj_single [of "n - 2" "p @ rest" t rest] by (cases n) auto
qed

lemma parse_quantifier_none:
  "rest = [] \<or> hd rest \<notin> set ''*?'' \<Longrightarrow> parse_quantifier a rest = (a, rest)"
  by (auto simp: parse_quantifier_def)

lemma parse_disj_alt:
  "parse_alt m s = Some (r, CHR ''|'' # rest) \<Longrightarrow> parse_disj m rest = Some (r', rest') \<Longrightarrow>
   parse_disj (Suc m) s = Some (Alt r r', rest')"
  by simp

lemma parse_single_atom:
  assumes at: "\<And>n rest. 3 * length p + 1 \<le> n \<Longrightarrow> parse_atom n (p @ rest) = Some (t, rest)"
    and p: "p \<noteq> []" "hd p \<notin> set ''|)''" and t: "t \<noteq> One"
  shows "(rest = [] \<or> hd rest = CHR ''|'' \<or> hd rest = CHR '')'') \<longrightarrow> 3 * length p + 2 \<le> n \<longrightarrow>
         parse_alt n (p @ rest) = Some (t, rest)"
    and "(rest = [] \<or> hd rest = CHR '')'') \<longrightarrow> 3 * length p + 3 \<le> n \<longrightarrow>
         parse_disj n (p @ rest) = Some (t, rest)"
    and "(rest = [] \<or> hd rest \<notin> set ''*?'') \<longrightarrow> 3 * length p + 1 \<le> n \<longrightarrow>
         (\<exists>a q. parse_atom n (p @ rest) = Some (a, q) \<and> parse_quantifier a q = (t, rest))"
proof -
  have tm: "\<exists>a q. parse_atom n (p @ rest) = Some (a, q) \<and> parse_quantifier a q = (t, rest)"
    if "rest = [] \<or> hd rest \<notin> set ''*?''" "3 * length p + 1 \<le> n" for n rest
    using at [OF that(2)] parse_quantifier_none [OF that(1)] by simp
  show "(rest = [] \<or> hd rest = CHR ''|'' \<or> hd rest = CHR '')'') \<longrightarrow> 3 * length p + 2 \<le> n \<longrightarrow>
        parse_alt n (p @ rest) = Some (t, rest)"
    by (rule parse_single_term(1) [OF tm p t])
  show "(rest = [] \<or> hd rest = CHR '')'') \<longrightarrow> 3 * length p + 3 \<le> n \<longrightarrow>
        parse_disj n (p @ rest) = Some (t, rest)"
    by (rule parse_single_term(2) [OF tm p t])
  show "(rest = [] \<or> hd rest \<notin> set ''*?'') \<longrightarrow> 3 * length p + 1 \<le> n \<longrightarrow>
        (\<exists>a q. parse_atom n (p @ rest) = Some (a, q) \<and> parse_quantifier a q = (t, rest))"
    using tm by blast
qed

lemma parse_print_rexp:
  "(is_disj r \<longrightarrow> (rest = [] \<or> hd rest = CHR '')'') \<longrightarrow> 3 * length (print_rexp r) + 3 \<le> n \<longrightarrow>
      parse_disj n (print_rexp r @ rest) = Some (r, rest)) \<and>
   (is_alt r \<longrightarrow> (rest = [] \<or> hd rest = CHR ''|'' \<or> hd rest = CHR '')'') \<longrightarrow> 3 * length (print_rexp r) + 2 \<le> n \<longrightarrow>
      parse_alt n (print_rexp r @ rest) = Some (r, rest)) \<and>
   (is_term r \<longrightarrow> (rest = [] \<or> hd rest \<notin> set ''*?'') \<longrightarrow> 3 * length (print_rexp r) + 1 \<le> n \<longrightarrow>
      (\<exists>a q. parse_atom n (print_rexp r @ rest) = Some (a, q) \<and> parse_quantifier a q = (r, rest))) \<and>
   (is_atom r \<longrightarrow> 3 * length (print_rexp r) + 1 \<le> n \<longrightarrow> parse_atom n (print_rexp r @ rest) = Some (r, rest))"
  (is "?D r n rest \<and> ?A r n rest \<and> ?T r n rest \<and> ?At r n rest")
proof (induction r arbitrary: n rest)
  case Zero
  then show ?case by simp
next
  case One
  have "parse_alt (Suc m) rest = Some (One, rest)"
    if "rest = [] \<or> hd rest = CHR ''|'' \<or> hd rest = CHR '')''" for m rest
    using that by (rule parse_alt_empty)
  then show ?case using parse_disj_single by (cases n; cases "n - 1") auto
next
  case (Atom k)
  have at: "parse_atom n (print_rexp (Atom k) @ rest) = Some (Atom k, rest)"
    if "3 * length (print_rexp (Atom k)) + 1 \<le> n" for n rest
    using that by (cases n; cases k) (auto simp: syntax_char_def)
  have p: "print_rexp (Atom k) \<noteq> [] \<and> hd (print_rexp (Atom k)) \<notin> set ''|)*?''"
    using print_starts_term [of "Atom k"] by simp
  show ?case
    using parse_single_atom [OF at, of rest n] p at by simp
next
  case (Alt r s)
  have "parse_disj (Suc m) (print_rexp (Alt r s) @ rest) = Some (Alt r s, rest)"
    if "is_alt r" "is_disj s" "rest = [] \<or> hd rest = CHR '')''"
       "3 * length (print_rexp (Alt r s)) + 3 \<le> Suc m" for m
  proof (rule parse_disj_alt)
    show "parse_alt m (print_rexp (Alt r s) @ rest) = Some (r, CHR ''|'' # print_rexp s @ rest)"
      using Alt.IH(1) [of "CHR ''|'' # print_rexp s @ rest" m] that by simp
    show "parse_disj m (print_rexp s @ rest) = Some (s, rest)"
      using Alt.IH(2) [of rest m] that by simp
  qed
  then show ?case by (cases n) auto
next
  case (Seq t u)
  have pu: "print_rexp u \<noteq> [] \<and> hd (print_rexp u) \<notin> set ''|)*?''" if "is_alt u" "u \<noteq> One"
    using print_starts_term [of u] that by simp
  have pt: "print_rexp t \<noteq> [] \<and> hd (print_rexp t) \<notin> set ''|)*?''" if "is_term t"
    using print_starts_term [of t] that by simp
  have alt: "parse_alt (Suc m) (print_rexp (Seq t u) @ rest) = Some (Seq t u, rest)"
    if wf: "is_term t" "is_alt u" "u \<noteq> One" and rest: "rest = [] \<or> hd rest = CHR ''|'' \<or> hd rest = CHR '')''"
       and fuel: "3 * length (print_rexp (Seq t u)) + 1 \<le> m" for m
  proof -
    have "1 \<le> length (print_rexp t)" "1 \<le> length (print_rexp u)"
      using pu [OF wf(2,3)] pt [OF wf(1)] by (simp_all add: Suc_le_eq)
    with fuel have l: "3 * length (print_rexp t) + 1 \<le> m" "3 * length (print_rexp u) + 2 \<le> m" by simp_all
    from Seq.IH(1) [of "print_rexp u @ rest" m] wf l pu [OF wf(2,3)] obtain a q where
      "parse_atom m (print_rexp t @ print_rexp u @ rest) = Some (a, q)" "parse_quantifier a q = (t, print_rexp u @ rest)"
      by auto
    moreover have "parse_alt m (print_rexp u @ rest) = Some (u, rest)"
      using Seq.IH(2) [of rest m] wf rest l by simp
    ultimately show ?thesis
      using parse_alt_term [of m "print_rexp t @ print_rexp u @ rest"] pt [OF wf(1)] wf(3) by simp
  qed
  show ?case
    using alt [of "n - 1"] alt [of "n - 2"] parse_disj_single [of "n - 2"] by (cases n) auto
next
  case (Star a)
  show ?case
  proof (cases "is_atom a")
    case False
    then show ?thesis by simp
  next
    case True
    have tm: "\<exists>a' q. parse_atom n (print_rexp (Star a) @ rest) = Some (a', q) \<and> parse_quantifier a' q = (Star a, rest)"
      if "rest = [] \<or> hd rest \<notin> set ''*?''" "3 * length (print_rexp (Star a)) + 1 \<le> n" for n rest
      using Star.IH [of "CHR ''*'' # rest" n] True that(2) by (simp add: parse_quantifier_def)
    have p: "print_rexp (Star a) \<noteq> [] \<and> hd (print_rexp (Star a)) \<notin> set ''|)*?''"
      using print_starts_term [of "Star a"] True by simp
    show ?thesis
      using parse_single_term [OF tm, of rest n] p tm True by simp
  qed
next
  case (Opt a)
  show ?case
  proof (cases "is_atom a")
    case False
    then show ?thesis by simp
  next
    case True
    have tm: "\<exists>a' q. parse_atom n (print_rexp (Opt a) @ rest) = Some (a', q) \<and> parse_quantifier a' q = (Opt a, rest)"
      if "rest = [] \<or> hd rest \<notin> set ''*?''" "3 * length (print_rexp (Opt a)) + 1 \<le> n" for n rest
      using Opt.IH [of "CHR ''?'' # rest" n] True that(2) by (simp add: parse_quantifier_def)
    have p: "print_rexp (Opt a) \<noteq> [] \<and> hd (print_rexp (Opt a)) \<notin> set ''|)*?''"
      using print_starts_term [of "Opt a"] True by simp
    show ?thesis
      using parse_single_term [OF tm, of rest n] p tm True by simp
  qed
next
  case (Group r)
  show ?case
  proof (cases "is_disj r")
    case False
    then show ?thesis by simp
  next
    case True
    have at: "parse_atom n (print_rexp (Group r) @ rest) = Some (Group r, rest)"
      if "3 * length (print_rexp (Group r)) + 1 \<le> n" for n rest
    proof (cases n)
      case 0
      with that show ?thesis by simp
    next
      case (Suc m)
      have "parse_disj m (print_rexp r @ CHR '')'' # rest) = Some (r, CHR '')'' # rest)"
        using Group.IH [of "CHR '')'' # rest" m] True that Suc by simp
      with Suc show ?thesis by simp
    qed
    have p: "print_rexp (Group r) \<noteq> [] \<and> hd (print_rexp (Group r)) \<notin> set ''|)*?''"
      using print_starts_term [of "Group r"] True by simp
    show ?thesis
      using parse_single_atom [OF at, of rest n] p at True by simp
  qed
qed


lemma parse_pattern_eqI:
  assumes "(if src \<noteq> [] \<and> hd src = CHR ''^'' then (True, tl src) else (False, src)) = (st, s1)"
    and "(if s1 \<noteq> [] \<and> last s1 = CHR ''$'' \<and> even (backslash_run (butlast s1))
          then (True, butlast s1) else (False, s1)) = (en, s2)"
    and "parse_disj (3 * length s2 + 3) s2 = Some (r, [])"
  shows "parse_pattern src flags =
    Some \<lparr>re_body = r, re_anchor_start = st, re_anchor_end = en, re_ignore_case = (CHR ''i'' \<in> set flags)\<rparr>"
  unfolding parse_pattern_def Let_def assms(1) prod.case assms(2) assms(3) by simp

lemma parse_print_pattern:
  assumes "is_disj (re_body re)"
  shows "parse_pattern (print_pattern re) (print_flags re) = Some re"
proof -
  obtain b st en ic where re: "re = \<lparr>re_body = b, re_anchor_start = st, re_anchor_end = en, re_ignore_case = ic\<rparr>"
    by (cases re) simp
  let ?p = "print_rexp b"
  let ?s1 = "?p @ (if en then ''$'' else [])"
  have esc: "even (backslash_run ?p)" "?p \<noteq> [] \<Longrightarrow> last ?p = CHR ''$'' \<Longrightarrow> odd (backslash_run (butlast ?p))"
    "?p \<noteq> [] \<Longrightarrow> hd ?p \<noteq> CHR ''^''"
    using print_rexp_escapes [of b] by simp_all
  have src: "print_pattern re = (if st then ''^'' else []) @ ?s1"
    by (simp add: print_pattern_def re)
  have start: "(if print_pattern re \<noteq> [] \<and> hd (print_pattern re) = CHR ''^'' then (True, tl (print_pattern re))
                else (False, print_pattern re)) = (st, ?s1)"
    using esc(3) by (cases "?p = []") (auto simp: src hd_append)
  have end_: "(if ?s1 \<noteq> [] \<and> last ?s1 = CHR ''$'' \<and> even (backslash_run (butlast ?s1))
               then (True, butlast ?s1) else (False, ?s1)) = (en, ?p)"
    using esc(1,2) by auto
  have body: "parse_disj (3 * length ?p + 3) ?p = Some (b, [])"
    using parse_print_rexp [of b "[]" "3 * length ?p + 3"] assms re by simp
  show ?thesis
    using parse_pattern_eqI [OF start end_ body, of "print_flags re"] by (simp add: print_flags_def re)
qed

text \<open>
  Conversely everything the parser returns is in these forms, so printing a parsed
  literal and parsing the text again gives the same regular expression.
\<close>

lemma is_term_alt: "is_term t \<Longrightarrow> is_alt t"
  by (cases t) simp_all

lemma is_alt_disj: "is_alt r \<Longrightarrow> is_disj r"
  by (cases r) simp_all

lemma parse_quantifier_term: "is_atom a \<Longrightarrow> parse_quantifier a q = (t, rest) \<Longrightarrow> is_term t"
  by (cases a) (auto simp: parse_quantifier_def split: if_splits)

lemma parse_forms:
  "(parse_disj n s = Some (r, rest) \<longrightarrow> is_disj r) \<and>
   (parse_alt n s = Some (r, rest) \<longrightarrow> is_alt r) \<and>
   (parse_atom n s = Some (r, rest) \<longrightarrow> is_atom r)"
proof (induction n arbitrary: s r rest)
  case 0
  then show ?case by simp
next
  case (Suc n)
  have di: "parse_disj n t = Some (x, y) \<Longrightarrow> is_disj x" for t x y using Suc.IH by blast
  have al: "parse_alt n t = Some (x, y) \<Longrightarrow> is_alt x" for t x y using Suc.IH by blast
  have at: "parse_atom n t = Some (x, y) \<Longrightarrow> is_atom x" for t x y using Suc.IH by blast
  show ?case
  proof (intro conjI impI)
    assume a: "parse_disj (Suc n) s = Some (r, rest)"
    then obtain x rest1 where alt: "parse_alt n s = Some (x, rest1)" by (auto split: option.splits)
    show "is_disj r"
    proof (cases "rest1 \<noteq> [] \<and> hd rest1 = CHR ''|''")
      case True
      with a alt obtain y where "parse_disj n (tl rest1) = Some (y, rest)" "r = Alt x y"
        by (auto split: option.splits)
      with al [OF alt] di show ?thesis by auto
    next
      case False
      with a alt have "r = x" by auto
      with al [OF alt] show ?thesis by (simp add: is_alt_disj)
    qed
  next
    assume a: "parse_alt (Suc n) s = Some (r, rest)"
    show "is_alt r"
    proof (cases "s = [] \<or> hd s = CHR ''|'' \<or> hd s = CHR '')''")
      case True
      with a show ?thesis by auto
    next
      case False
      with a obtain x q where atom: "parse_atom n s = Some (x, q)" by (auto split: option.splits)
      obtain t rest' where qt: "parse_quantifier x q = (t, rest')" by fastforce
      from a False atom qt obtain u where u: "parse_alt n rest' = Some (u, rest)"
        and r: "r = (if u = One then t else Seq t u)"
        by (auto split: option.splits)
      have "is_term t" using parse_quantifier_term [OF at [OF atom] qt] .
      with al [OF u] r show ?thesis by (auto intro: is_term_alt)
    qed
  next
    assume a: "parse_atom (Suc n) s = Some (r, rest)"
    then obtain c s0 where s: "s = c # s0" by (cases s) auto
    show "is_atom r"
    proof (cases "c = CHR ''(''")
      case True
      with a s obtain r' y where "parse_disj n s0 = Some (r', y)" "r = Group r'"
        by (auto split: option.splits if_splits)
      with di show ?thesis by auto
    next
      case False
      with a s show ?thesis by (auto split: list.splits if_splits)
    qed
  qed
qed

lemma parse_pattern_forms: "parse_pattern src flags = Some re \<Longrightarrow> is_disj (re_body re)"
  unfolding parse_pattern_def Let_def
  by (auto split: prod.splits option.splits list.splits if_splits dest: conjunct1 [OF parse_forms, rule_format])

lemma reparse_print_pattern:
  "parse_pattern src flags = Some re \<Longrightarrow> parse_pattern (print_pattern re) (print_flags re) = Some re"
  by (rule parse_print_pattern [OF parse_pattern_forms])

end
