(* ===== verification/Vue_Cli.thy ===== *)
theory Vue_Cli
  imports Chain_Map Webpack_Rules Regex_Syntax
begin

text \<open>
  The host of \<open>src/vue.config.js\<close>: Vue CLI 4's service (\<open>@vue/cli-service\<close>).
  It builds a chainable configuration (webpack-chain) by running every
  \<open>chainWebpack\<close> function in registration order -- its own base configuration
  first, the project's \<open>chainWebpack\<close> option last -- converts it with
  \<open>toConfig()\<close>, and applies every \<open>configureWebpack\<close> entry to the result:
  an object is merged in with webpack-merge, a function is called on the
  configuration and its truthy result merged in
  (\<open>Service.resolveChainableWebpackConfig\<close>, \<open>Service.resolveWebpackConfig\<close>).

  The chainable configuration is modelled by its \<open>module.rules\<close>: a
  \<open>ChainedMap\<close> from rule names to rules, each with its \<open>test\<close>,
  \<open>enforce\<close>, its \<open>.before\<close>/\<open>.after\<close> hints and a \<open>ChainedMap\<close> of
  named uses (which carry hints too); \<open>toConfig()\<close> emits both maps in the order
  of \<open>ChainedMap.values()\<close>. The base configuration is
  modelled by its asset rules (\<open>lib/config/base.js\<close>: \<open>vue\<close>, \<open>images\<close>,
  \<open>svg\<close>, \<open>media\<close>, \<open>fonts\<close>); the service's own \<open>pug\<close> rule of
  \<open>base.js\<close> and style rules of \<open>lib/config/css.js\<close> are not (they are
  \<open>oneOf\<close> rules), nor are the rules of plugins (babel, eslint), and options are
  recorded only by their \<open>name\<close> and \<open>limit\<close> fields.
\<close>

section \<open>The chainable configuration\<close>

record chain_use =
  cu_loader :: loader_name
  cu_options :: "js_value option"
  cu_before :: "string option"
  cu_after :: "string option"

record chain_rule =
  cr_test :: "js_regex option"
  cr_enforce :: "enforce option"
  cr_uses :: "(string, chain_use) js_map"
  cr_before :: "string option"
  cr_after :: "string option"

record chain_config =
  cc_rules :: "(rule_name, chain_rule) js_map"

definition empty_chain :: chain_config where
  "empty_chain = \<lparr>cc_rules = cm_empty\<rparr>"

definition new_rule :: chain_rule where
  "new_rule = \<lparr>cr_test = None, cr_enforce = None, cr_uses = cm_empty, cr_before = None, cr_after = None\<rparr>"

text \<open>The ordering hints of rules and uses (both are \<open>Orderable\<close>).\<close>

definition rule_hints :: "chain_rule \<Rightarrow> order_hints" where
  "rule_hints r = (cr_before r, cr_after r)"

definition use_hints :: "chain_use \<Rightarrow> order_hints" where
  "use_hints u = (cu_before u, cu_after u)"

text \<open>\<open>config.module.rule(name)\<close>: the rule of that name, created empty if absent.\<close>

definition module_rule :: "rule_name \<Rightarrow> chain_config \<Rightarrow> chain_rule \<times> chain_config" where
  "module_rule n c =
     (let (r, m) = cm_get_or_compute n new_rule (cc_rules c) in (r, c\<lparr>cc_rules := m\<rparr>))"

text \<open>
  \<open>.test(re)\<close> and \<open>.use(name).loader(l).options(o)\<close> on a rule:
  \<open>.use(name)\<close> gets or creates the use of that name, the calls set its loader
  and, when given, its options, and leave its ordering hints.
\<close>

definition rule_set_test :: "js_regex \<Rightarrow> chain_rule \<Rightarrow> chain_rule" where
  "rule_set_test re r = r\<lparr>cr_test := Some re\<rparr>"

definition rule_use_loader :: "string \<Rightarrow> loader_name \<Rightarrow> js_value option \<Rightarrow> chain_rule \<Rightarrow> chain_rule" where
  "rule_use_loader n l opts r =
     (let (u, m) = cm_get_or_compute n \<lparr>cu_loader = l, cu_options = opts, cu_before = None, cu_after = None\<rparr>
                     (cr_uses r)
      in r\<lparr>cr_uses := cm_set n (u\<lparr>cu_loader := l, cu_options := (case opts of None \<Rightarrow> cu_options u | Some v \<Rightarrow> Some v)\<rparr>) m\<rparr>)"

text \<open>\<open>rule.before(name)\<close> and \<open>rule.after(name)\<close>, which throw on a conflicting hint.\<close>

definition rule_before :: "string \<Rightarrow> chain_rule \<Rightarrow> chain_error + chain_rule" where
  "rule_before name r =
     sum_bind (orderable_before name (rule_hints r)) (\<lambda>(b, a). Inr (r\<lparr>cr_before := b, cr_after := a\<rparr>))"

definition rule_after :: "string \<Rightarrow> chain_rule \<Rightarrow> chain_error + chain_rule" where
  "rule_after name r =
     sum_bind (orderable_after name (rule_hints r)) (\<lambda>(b, a). Inr (r\<lparr>cr_before := b, cr_after := a\<rparr>))"

text \<open>
  \<open>config.module.rule(name)\<close> followed by builder calls on the rule: the rule object
  is shared with the map, so the built rule is what the map holds afterwards.
\<close>

definition define_rule :: "rule_name \<Rightarrow> (chain_rule \<Rightarrow> chain_rule) \<Rightarrow> chain_config \<Rightarrow> chain_config" where
  "define_rule n build c =
     (let (r, c') = module_rule n c in c'\<lparr>cc_rules := cm_set n (build r) (cc_rules c')\<rparr>)"

section \<open>toConfig\<close>

definition use_to_config :: "chain_use \<Rightarrow> use_item" where
  "use_to_config u = UseObject (Some (cu_loader u)) (cu_options u) None"

definition rule_to_config :: "chain_rule \<Rightarrow> rule" where
  "rule_to_config r =
     \<lparr>rule_test = cr_test r, rule_enforce = cr_enforce r,
      rule_use = map use_to_config (cm_ordered_values use_hints (cr_uses r))\<rparr>"

definition chain_to_config :: "chain_config \<Rightarrow> webpack_config" where
  "chain_to_config c = \<lparr>module_rules = map rule_to_config (cm_ordered_values rule_hints (cc_rules c))\<rparr>"

section \<open>The asset rules of the base configuration\<close>

text \<open>The suffix \<open>(\?.*)?\<close> the asset patterns share.\<close>

definition query_suffix :: rexp where
  "query_suffix = Opt (Group (Seq (Atom (CChar CHR ''?'')) (Star (Atom CDot))))"

text \<open>\<open>/\.(exts)(\?.*)?$/\<close>, with the \<open>i\<close> flag when \<open>ic\<close>.\<close>

definition asset_test :: "rexp \<Rightarrow> bool \<Rightarrow> js_regex" where
  "asset_test exts ic =
     \<lparr>re_body = Seq (Atom (CChar CHR ''.'')) (Seq (Group exts) query_suffix),
      re_anchor_start = False, re_anchor_end = True, re_ignore_case = ic\<rparr>"

fun alts :: "rexp list \<Rightarrow> rexp" where
  "alts [] = Zero"
| "alts [r] = r"
| "alts (r # rs) = Alt r (alts rs)"

definition vue_test :: js_regex where
  "vue_test = \<lparr>re_body = lits ''.vue'', re_anchor_start = False, re_anchor_end = True,
                re_ignore_case = False\<rparr>"

definition images_test :: js_regex where
  "images_test = asset_test
     (alts [lits ''png'',
            Seq (Atom (CChar CHR ''j'')) (Seq (Atom (CChar CHR ''p'')) (Seq (Opt (Atom (CChar CHR ''e''))) (Atom (CChar CHR ''g'')))),
            lits ''gif'', lits ''webp''])
     False"

definition base_svg_test :: js_regex where
  "base_svg_test = asset_test (lits ''svg'') False"

definition media_test :: js_regex where
  "media_test = asset_test
     (alts [lits ''mp4'', lits ''webm'', lits ''ogg'', lits ''mp3'', lits ''wav'', lits ''flac'',
            lits ''aac''])
     False"

definition fonts_test :: js_regex where
  "fonts_test = asset_test
     (alts [Seq (Atom (CChar CHR ''w'')) (Seq (Atom (CChar CHR ''o'')) (Seq (Atom (CChar CHR ''f''))
              (Seq (Atom (CChar CHR ''f'')) (Opt (Atom (CChar CHR ''2'')))))),
            lits ''eot'', lits ''ttf'', lits ''otf''])
     True"

definition asset_name :: "string \<Rightarrow> js_value" where
  "asset_name dir = JStr (dir @ ''/[name].[hash:8].[ext]'')"

definition url_loader_options :: "string \<Rightarrow> js_value" where
  "url_loader_options dir =
     JObj [(''limit'', JNum 4096),
           (''fallback'', JObj [(''loader'', JStr ''file-loader''),
                                (''options'', JObj [(''name'', asset_name dir)])])]"

definition vue_base_chain :: "chain_config \<Rightarrow> chain_config" where
  "vue_base_chain c =
     define_rule ''fonts''
       (rule_use_loader ''url-loader'' ''url-loader'' (Some (url_loader_options ''fonts''))
         \<circ> rule_set_test fonts_test)
     (define_rule ''media''
       (rule_use_loader ''url-loader'' ''url-loader'' (Some (url_loader_options ''media''))
         \<circ> rule_set_test media_test)
     (define_rule ''svg''
       (rule_use_loader ''file-loader'' ''file-loader'' (Some (JObj [(''name'', asset_name ''img'')]))
         \<circ> rule_set_test base_svg_test)
     (define_rule ''images''
       (rule_use_loader ''url-loader'' ''url-loader'' (Some (url_loader_options ''img''))
         \<circ> rule_set_test images_test)
     (define_rule ''vue''
       (rule_use_loader ''vue-loader'' ''vue-loader'' None
         \<circ> rule_use_loader ''cache-loader'' ''cache-loader'' None
         \<circ> rule_set_test vue_test)
     c))))"

section \<open>The service\<close>

text \<open>The options of \<open>vue.config.js\<close> the model reads.\<close>

text \<open>
  An entry of \<open>Service.webpackRawConfigFns\<close>: \<open>configureWebpack\<close> is either an
  object, merged into the configuration, or a function. A function receives the
  configuration, may mutate it in place, and may return an object to be merged
  in as well; \<open>RawFunction f\<close> models it by \<open>f cfg = (cfg', res)\<close>, with
  \<open>cfg'\<close> the configuration after the call and \<open>res = None\<close> for a falsy
  return value (\<open>undefined\<close> when the function only mutates).
\<close>

datatype raw_config =
  RawObject webpack_config
| RawFunction "webpack_config \<Rightarrow> webpack_config \<times> webpack_config option"

record vue_project_options =
  opt_chainWebpack :: "(chain_config \<Rightarrow> chain_config) option"
  opt_configureWebpack :: "raw_config option"

definition resolve_chainable_config :: "(chain_config \<Rightarrow> chain_config) list \<Rightarrow> chain_config" where
  "resolve_chainable_config fns = fold (\<lambda>f c. f c) fns empty_chain"

definition resolve_webpack_config ::
  "(chain_config \<Rightarrow> chain_config) list \<Rightarrow> raw_config list \<Rightarrow> webpack_config" where
  "resolve_webpack_config fns raws =
     fold (\<lambda>raw cfg. case raw of
              RawFunction f \<Rightarrow> (case f cfg of (cfg', res) \<Rightarrow>
                 (case res of None \<Rightarrow> cfg' | Some obj \<Rightarrow> webpack_merge cfg' obj))
            | RawObject obj \<Rightarrow> webpack_merge cfg obj)
       raws (chain_to_config (resolve_chainable_config fns))"

text \<open>
  \<open>Service.init\<close>: the base configuration's chain function is registered by the
  built-in plugin, then the project's \<open>chainWebpack\<close> and \<open>configureWebpack\<close>.
\<close>

definition service_chain_fns :: "vue_project_options \<Rightarrow> (chain_config \<Rightarrow> chain_config) list" where
  "service_chain_fns opts =
     vue_base_chain # (case opt_chainWebpack opts of None \<Rightarrow> [] | Some f \<Rightarrow> [f])"

definition service_raw_configs :: "vue_project_options \<Rightarrow> raw_config list" where
  "service_raw_configs opts = (case opt_configureWebpack opts of None \<Rightarrow> [] | Some cfg \<Rightarrow> [cfg])"

definition service_webpack_config :: "vue_project_options \<Rightarrow> webpack_config" where
  "service_webpack_config opts =
     resolve_webpack_config (service_chain_fns opts) (service_raw_configs opts)"

text \<open>A project without \<open>vue.config.js\<close> options: the base configuration alone.\<close>

definition no_project_options :: vue_project_options where
  "no_project_options = \<lparr>opt_chainWebpack = None, opt_configureWebpack = None\<rparr>"

section \<open>The base rules as webpack sees them\<close>

text \<open>The asset rules of the base configuration after \<open>toConfig()\<close> and normalisation.\<close>

definition vue_nrule :: nrule where
  "vue_nrule =
     \<lparr>nr_test = Some vue_test, nr_enforce = None,
      nr_use = [\<lparr>le_loader = ''cache-loader'', le_options = None\<rparr>,
                \<lparr>le_loader = ''vue-loader'', le_options = None\<rparr>]\<rparr>"

definition images_nrule :: nrule where
  "images_nrule =
     \<lparr>nr_test = Some images_test, nr_enforce = None,
      nr_use = [\<lparr>le_loader = ''url-loader'', le_options = Some (url_loader_options ''img'')\<rparr>]\<rparr>"

definition base_svg_nrule :: nrule where
  "base_svg_nrule =
     \<lparr>nr_test = Some base_svg_test, nr_enforce = None,
      nr_use = [\<lparr>le_loader = ''file-loader'', le_options = Some (JObj [(''name'', asset_name ''img'')])\<rparr>]\<rparr>"

definition media_nrule :: nrule where
  "media_nrule =
     \<lparr>nr_test = Some media_test, nr_enforce = None,
      nr_use = [\<lparr>le_loader = ''url-loader'', le_options = Some (url_loader_options ''media'')\<rparr>]\<rparr>"

definition fonts_nrule :: nrule where
  "fonts_nrule =
     \<lparr>nr_test = Some fonts_test, nr_enforce = None,
      nr_use = [\<lparr>le_loader = ''url-loader'', le_options = Some (url_loader_options ''fonts'')\<rparr>]\<rparr>"

lemmas base_nrule_defs = vue_nrule_def images_nrule_def base_svg_nrule_def media_nrule_def fonts_nrule_def

section \<open>Lemmas: the service's composition\<close>

lemma js_truthy_url_loader_options [simp]: "js_truthy (url_loader_options dir)"
  by (simp add: url_loader_options_def)

lemma resolve_chainable_config_snoc:
  "resolve_chainable_config (fns @ [f]) = f (resolve_chainable_config fns)"
  by (simp add: resolve_chainable_config_def)

lemma resolve_webpack_config_single:
  "resolve_webpack_config fns [RawObject raw] = webpack_merge (chain_to_config (resolve_chainable_config fns)) raw"
  by (simp add: resolve_webpack_config_def)

text \<open>One step of the \<open>webpackRawConfigFns\<close> loop, on each branch.\<close>

lemma resolve_webpack_config_snoc:
  "resolve_webpack_config fns (raws @ [raw]) =
     (case raw of
        RawFunction f \<Rightarrow> (case f (resolve_webpack_config fns raws) of (cfg', res) \<Rightarrow>
           (case res of None \<Rightarrow> cfg' | Some obj \<Rightarrow> webpack_merge cfg' obj))
      | RawObject obj \<Rightarrow> webpack_merge (resolve_webpack_config fns raws) obj)"
  unfolding resolve_webpack_config_def by simp

text \<open>The \<open>configureWebpack\<close> objects are applied in registration order.\<close>

lemma resolve_webpack_config_objects:
  "module_rules (resolve_webpack_config fns (map RawObject objs)) =
     module_rules (chain_to_config (resolve_chainable_config fns)) @ concat (map module_rules objs)"
proof (induction objs rule: rev_induct)
  case (snoc obj objs)
  then show ?case
    by (simp only: map_append list.map resolve_webpack_config_snoc raw_config.case)
       (simp add: webpack_merge_def)
qed (simp add: resolve_webpack_config_def)

lemma service_webpack_config_both:
  "service_webpack_config \<lparr>opt_chainWebpack = Some f, opt_configureWebpack = Some (RawObject raw)\<rparr>
     = webpack_merge (chain_to_config (f (vue_base_chain empty_chain))) raw"
  by (simp add: service_webpack_config_def service_chain_fns_def service_raw_configs_def
      resolve_webpack_config_def resolve_chainable_config_def)

lemma chain_to_config_rules:
  "cm_plain rule_hints (cc_rules c) \<Longrightarrow> module_rules (chain_to_config c) = map (rule_to_config \<circ> snd) (cc_rules c)"
  by (simp add: chain_to_config_def cm_ordered_values_plain cm_values_def)

lemma rule_to_config_plain:
  "cm_plain use_hints (cr_uses r) \<Longrightarrow>
   rule_to_config r = \<lparr>rule_test = cr_test r, rule_enforce = cr_enforce r,
                        rule_use = map (use_to_config \<circ> snd) (cr_uses r)\<rparr>"
  by (simp add: rule_to_config_def cm_ordered_values_plain cm_values_def)

lemmas cm_plain_simps [config_simps] =
  cm_plain_def cm_keys_def cm_values_def is_array_index_def rule_hints_def use_hints_def

lemmas chain_builder_defs [config_simps] =
  define_rule_def module_rule_def cm_get_or_compute_def empty_chain_def cm_empty_def
  rule_use_loader_def rule_set_test_def new_rule_def

text \<open>The rules the base configuration defines, in the order it defines them.\<close>

lemma vue_base_chain_rules:
  "cc_rules (vue_base_chain empty_chain) =
     [(''vue'', \<lparr>cr_test = Some vue_test, cr_enforce = None,
                 cr_uses = [(''cache-loader'', \<lparr>cu_loader = ''cache-loader'', cu_options = None,
                   cu_before = None, cu_after = None\<rparr>),
                            (''vue-loader'', \<lparr>cu_loader = ''vue-loader'', cu_options = None,
                   cu_before = None, cu_after = None\<rparr>)],
                 cr_before = None, cr_after = None\<rparr>),
      (''images'', \<lparr>cr_test = Some images_test, cr_enforce = None,
                    cr_uses = [(''url-loader'', \<lparr>cu_loader = ''url-loader'',
                                                  cu_options = Some (url_loader_options ''img''),
                   cu_before = None, cu_after = None\<rparr>)],
                 cr_before = None, cr_after = None\<rparr>),
      (''svg'', \<lparr>cr_test = Some base_svg_test, cr_enforce = None,
                 cr_uses = [(''file-loader'', \<lparr>cu_loader = ''file-loader'',
                                                cu_options = Some (JObj [(''name'', asset_name ''img'')]),
                   cu_before = None, cu_after = None\<rparr>)],
                 cr_before = None, cr_after = None\<rparr>),
      (''media'', \<lparr>cr_test = Some media_test, cr_enforce = None,
                   cr_uses = [(''url-loader'', \<lparr>cu_loader = ''url-loader'',
                                                 cu_options = Some (url_loader_options ''media''),
                   cu_before = None, cu_after = None\<rparr>)],
                 cr_before = None, cr_after = None\<rparr>),
      (''fonts'', \<lparr>cr_test = Some fonts_test, cr_enforce = None,
                   cr_uses = [(''url-loader'', \<lparr>cu_loader = ''url-loader'',
                                                 cu_options = Some (url_loader_options ''fonts''),
                   cu_before = None, cu_after = None\<rparr>)],
                 cr_before = None, cr_after = None\<rparr>)]"
  by (simp add: vue_base_chain_def chain_builder_defs)

lemma vue_base_chain_wf: "cm_wf (cc_rules (vue_base_chain empty_chain))"
  by (simp add: vue_base_chain_rules)

lemma vue_base_chain_plain: "cm_plain rule_hints (cc_rules (vue_base_chain empty_chain))"
  by (simp add: vue_base_chain_rules cm_plain_simps)

section \<open>Lemmas: the asset rules against other extensions\<close>

text \<open>
  An asset pattern \<open>/\.(E)(\?.*)?$/\<close> rejects a path without \<open>?\<close> that ends in
  \<open>.ext\<close>, for a dot-free \<open>ext\<close> that \<open>E\<close> does not match and an \<open>E\<close>
  that matches no dot: it needs its own extension after the last dot.
\<close>

lemma asset_test_ext:
  assumes noq: "CHR ''?'' \<notin> set s" and m: "js_test (asset_test E ic) s"
    and nodot: "\<not> list_ex (\<lambda>k. cls_match ic k CHR ''.'') (atoms E)"
  obtains a e where "s = a @ CHR ''.'' # e" "CHR ''.'' \<notin> set e" "e \<in> lang ic E"
proof -
  from m obtain a w where s: "s = a @ w" and w: "w \<in> lang ic (re_body (asset_test E ic))"
    by (auto simp: js_test_end_anchored asset_test_def)
  from w obtain e q where w_eq: "w = CHR ''.'' # e @ q" and e: "e \<in> lang ic E"
      and q: "q \<in> lang ic query_suffix"
    by (auto simp: asset_test_def conc_iff cls_match_dot simp del: cls_match.simps)
  have "q = []"
  proof (rule ccontr)
    assume "q \<noteq> []"
    with q have "CHR ''?'' \<in> set q"
      by (auto simp: query_suffix_def conc_iff cls_match_qmark simp del: cls_match.simps)
    with s w_eq noq show False by simp
  qed
  with s w_eq have "s = a @ CHR ''.'' # e" by simp
  moreover have "CHR ''.'' \<notin> set e"
    using lang_chars_atoms [OF e] nodot by (auto simp: list_ex_iff)
  ultimately show thesis using e by (rule that)
qed

lemma asset_test_rejects_ext:
  assumes noq: "CHR ''?'' \<notin> set p" "CHR ''?'' \<notin> set ext"
    and dot: "CHR ''.'' \<notin> set ext"
    and nomatch: "\<not> matcher ic E ext"
    and nodot: "\<not> list_ex (\<lambda>k. cls_match ic k CHR ''.'') (atoms E)"
  shows "\<not> js_test (asset_test E ic) (p @ CHR ''.'' # ext)"
proof
  assume m: "js_test (asset_test E ic) (p @ CHR ''.'' # ext)"
  have "CHR ''?'' \<notin> set (p @ CHR ''.'' # ext)" using noq by simp
  then obtain a e where s: "p @ CHR ''.'' # ext = a @ CHR ''.'' # e" and d: "CHR ''.'' \<notin> set e"
      and e: "e \<in> lang ic E"
    using asset_test_ext [OF _ m nodot] by blast
  from s [symmetric] d dot have "e = ext" by (rule dot_suffix_ext)
  with e nomatch show False by (simp add: matcher_correct)
qed

lemma vue_test_rejects_ext:
  assumes "CHR ''.'' \<notin> set ext" and "ext \<noteq> ''vue''"
  shows "\<not> js_test vue_test (p @ CHR ''.'' # ext)"
proof
  assume "js_test vue_test (p @ CHR ''.'' # ext)"
  then obtain a where "a @ CHR ''.'' # ''vue'' = p @ CHR ''.'' # ext"
    by (auto simp: js_test_end_anchored vue_test_def lang_lits)
  then have "''vue'' = ext"
    using dot_suffix_ext [of a "''vue''" p ext] assms(1) by simp
  with assms(2) show False by simp
qed

text \<open>The extensions \<open>svg\<close> and \<open>SVG\<close> in particular.\<close>

lemma base_tests_reject_svg:
  assumes "CHR ''?'' \<notin> set p" and "ext = ''svg'' \<or> ext = ''SVG''"
  shows "\<not> js_test vue_test (p @ CHR ''.'' # ext) \<and> \<not> js_test images_test (p @ CHR ''.'' # ext)
         \<and> \<not> js_test media_test (p @ CHR ''.'' # ext) \<and> \<not> js_test fonts_test (p @ CHR ''.'' # ext)"
proof -
  from assms(2) have q: "CHR ''?'' \<notin> set ext" and d: "CHR ''.'' \<notin> set ext" and v: "ext \<noteq> ''vue''"
    by auto
  have "\<not> js_test vue_test (p @ CHR ''.'' # ext)"
    using d v by (rule vue_test_rejects_ext)
  moreover have "\<not> js_test images_test (p @ CHR ''.'' # ext)"
    unfolding images_test_def
    using assms(2) by (intro asset_test_rejects_ext [OF assms(1) q d]) (auto simp: matcher_def)
  moreover have "\<not> js_test media_test (p @ CHR ''.'' # ext)"
    unfolding media_test_def
    using assms(2) by (intro asset_test_rejects_ext [OF assms(1) q d]) (auto simp: matcher_def)
  moreover have "\<not> js_test fonts_test (p @ CHR ''.'' # ext)"
    unfolding fonts_test_def
    using assms(2)
    by (intro asset_test_rejects_ext [OF assms(1) q d]) (auto simp: matcher_def js_canonicalize_def)
  ultimately show ?thesis by blast
qed

text \<open>
  On a path without \<open>?\<close>, each asset pattern fixes the path's extension, the part
  after its last dot; the extensions of different patterns are different.
\<close>

lemma vue_test_last_ext: "js_test vue_test s \<Longrightarrow> last_ext s = ''vue''"
proof -
  assume "js_test vue_test s"
  then obtain a where "s = a @ CHR ''.'' # ''vue''"
    by (auto simp: js_test_end_anchored vue_test_def lang_lits)
  then show ?thesis by (rule last_ext_eq) simp
qed

lemma asset_test_last_ext:
  assumes "CHR ''?'' \<notin> set s" and "js_test (asset_test E ic) s"
    and "\<not> list_ex (\<lambda>k. cls_match ic k CHR ''.'') (atoms E)"
  shows "last_ext s \<in> lang ic E"
proof -
  obtain a e where s: "s = a @ CHR ''.'' # e" and d: "CHR ''.'' \<notin> set e" and e: "e \<in> lang ic E"
    using assms by (rule asset_test_ext)
  from s d have "last_ext s = e" by (rule last_ext_eq)
  with e show ?thesis by simp
qed

lemma images_test_last_ext:
  assumes "CHR ''?'' \<notin> set s" and "js_test images_test s"
  shows "last_ext s \<in> {''png'', ''jpg'', ''jpeg'', ''gif'', ''webp''}"
  using asset_test_last_ext [OF assms(1) assms(2) [unfolded images_test_def]]
  by (auto simp: lang_lits conc_iff)

lemma media_test_last_ext:
  assumes "CHR ''?'' \<notin> set s" and "js_test media_test s"
  shows "last_ext s \<in> {''mp4'', ''webm'', ''ogg'', ''mp3'', ''wav'', ''flac'', ''aac''}"
  using asset_test_last_ext [OF assms(1) assms(2) [unfolded media_test_def]]
  by (auto simp: lang_lits)

lemma base_svg_test_last_ext:
  assumes "CHR ''?'' \<notin> set s" and "js_test base_svg_test s"
  shows "last_ext s = ''svg''"
  using asset_test_last_ext [OF assms(1) assms(2) [unfolded base_svg_test_def]]
  by (simp add: lang_lits)

lemma fonts_test_last_ext:
  assumes "CHR ''?'' \<notin> set s" and "js_test fonts_test s"
  shows "last_ext s \<notin> {''vue'', ''png'', ''jpg'', ''jpeg'', ''gif'', ''webp'', ''svg'',
                            ''mp4'', ''webm'', ''ogg'', ''mp3'', ''wav'', ''flac'', ''aac''}"
proof -
  have "last_ext s \<in> lang True (alts [Seq (Atom (CChar CHR ''w'')) (Seq (Atom (CChar CHR ''o''))
      (Seq (Atom (CChar CHR ''f'')) (Seq (Atom (CChar CHR ''f'')) (Opt (Atom (CChar CHR ''2'')))))),
      lits ''eot'', lits ''ttf'', lits ''otf''])" (is "_ \<in> lang True ?E")
    using assms(1) assms(2) [unfolded fonts_test_def]
    by (rule asset_test_last_ext) (simp add: js_canonicalize_def)
  then have "matcher True ?E (last_ext s)" by (simp add: matcher_correct)
  then show ?thesis by (auto simp: matcher_def js_canonicalize_def)
qed

section \<open>Lemmas: the base configuration as webpack sees it\<close>

lemmas to_config_defs [config_simps] =
  normalize_rules_def normalize_rule_def rule_to_config_plain use_to_config_def cm_plain_simps

lemma normalize_base_rules:
  "normalize_rules (module_rules (chain_to_config (vue_base_chain empty_chain))) =
     Inr [vue_nrule, images_nrule, base_svg_nrule, media_nrule, fonts_nrule]"
  by (simp add: chain_to_config_rules vue_base_chain_rules to_config_defs base_nrule_defs)

lemma default_request_loaders:
  "request_loaders (service_webpack_config no_project_options) req =
     Inr (module_loaders [vue_nrule, images_nrule, base_svg_nrule, media_nrule, fonts_nrule]
            (fst (split_resource req)))"
  by (simp add: no_project_options_def service_webpack_config_def service_chain_fns_def
      service_raw_configs_def resolve_webpack_config_def resolve_chainable_config_def
      request_loaders_def normalize_base_rules)

section \<open>Lemmas: the patterns are those of the source text\<close>

text \<open>
  Each pattern of the base configuration is what the parser makes of its source text in
  \<open>lib/config/base.js\<close> (\<open>CHR 0x5C\<close> is the backslash).
\<close>

lemma vue_test_source: "parse_pattern (CHR 0x5C # ''.vue$'') [] = Some vue_test"
  by (simp add: vue_test_def) code_simp

lemma images_test_source:
  "parse_pattern (CHR 0x5C # ''.(png|jpe?g|gif|webp)('' @ CHR 0x5C # ''?.*)?$'') [] = Some images_test"
  by (simp add: images_test_def asset_test_def query_suffix_def) code_simp

lemma base_svg_test_source:
  "parse_pattern (CHR 0x5C # ''.(svg)('' @ CHR 0x5C # ''?.*)?$'') [] = Some base_svg_test"
  by (simp add: base_svg_test_def asset_test_def query_suffix_def) code_simp

lemma media_test_source:
  "parse_pattern (CHR 0x5C # ''.(mp4|webm|ogg|mp3|wav|flac|aac)('' @ CHR 0x5C # ''?.*)?$'') [] =
     Some media_test"
  by (simp add: media_test_def asset_test_def query_suffix_def) code_simp

lemma fonts_test_source:
  "parse_pattern (CHR 0x5C # ''.(woff2?|eot|ttf|otf)('' @ CHR 0x5C # ''?.*)?$'') ''i'' = Some fonts_test"
  by (simp add: fonts_test_def asset_test_def query_suffix_def) code_simp

end
