(* ===== verification/Vue_Options.thy ===== *)
theory Vue_Options
  imports Vue_Cli
begin

text \<open>
  How Vue CLI 4 reads \<open>vue.config.js\<close> (\<open>Service.loadUserOptions\<close>): the module's
  export is taken if it is an object, called if it is a function; anything else is
  reported (\<open>should export an object or a function that returns object\<close>) and the
  service goes on without file options. The options are then validated against the
  schema of \<open>lib/options.js\<close> (joi); a failure is printed and ends the process.
  joi checks the schema's keys in schema order, then rejects any key the schema does
  not name (\<open>"..." is not allowed\<close>).

  An option value is a JavaScript value or a function; a function is represented by
  what it does when the service calls it with the chainable configuration, the only
  call of an option function the model makes.
\<close>

datatype opt_value = OFunction "chain_config \<Rightarrow> chain_config" | OValue js_value

datatype option_error = NotAnObject | InvalidType string | NotAllowed string

text \<open>The types the schema uses: \<open>joi.string()\<close> rejects the empty string unless it is allowed.\<close>

datatype opt_type =
    TString | TStringOrEmpty | TBool | TArray | TObject | TFunction | TObjectOrFunction
  | TBoolOrInt | TOneOf "js_value list"

fun type_ok :: "opt_type \<Rightarrow> opt_value \<Rightarrow> bool" where
  "type_ok TString (OValue (JStr s)) = (s \<noteq> [])"
| "type_ok TStringOrEmpty (OValue (JStr s)) = True"
| "type_ok TBool (OValue (JBool b)) = True"
| "type_ok TArray (OValue (JArr xs)) = True"
| "type_ok TObject (OValue (JObj ps)) = True"
| "type_ok TObject (OValue (JRegExp src fl)) = True"
| "type_ok TFunction (OFunction f) = True"
| "type_ok TObjectOrFunction (OFunction f) = True"
| "type_ok TObjectOrFunction (OValue (JObj ps)) = True"
| "type_ok TObjectOrFunction (OValue (JRegExp src fl)) = True"
| "type_ok TBoolOrInt (OValue (JBool b)) = True"
| "type_ok TBoolOrInt (OValue (JNum n)) = True"
| "type_ok (TOneOf vs) (OValue v) = (v \<in> set vs)"
| "type_ok t v = False"

definition vue_options_schema :: "(string \<times> opt_type) list" where
  "vue_options_schema =
     [(''publicPath'', TStringOrEmpty), (''outputDir'', TString), (''assetsDir'', TStringOrEmpty),
      (''indexPath'', TString), (''filenameHashing'', TBool), (''runtimeCompiler'', TBool),
      (''transpileDependencies'', TArray), (''productionSourceMap'', TBool), (''parallel'', TBoolOrInt),
      (''devServer'', TObject), (''pages'', TObject),
      (''crossorigin'', TOneOf [JStr [], JStr ''anonymous'', JStr ''use-credentials'']),
      (''integrity'', TBool), (''css'', TObject), (''chainWebpack'', TFunction),
      (''configureWebpack'', TObjectOrFunction),
      (''lintOnSave'', TOneOf [JBool True, JBool False, JStr ''error'', JStr ''warning'', JStr ''default'']),
      (''pwa'', TObject), (''pluginOptions'', TObject)]"

definition validate_options :: "(string \<times> opt_value) list \<Rightarrow> option_error + unit" where
  "validate_options opts =
     (case find (\<lambda>kt. case map_of opts (fst kt) of None \<Rightarrow> False | Some v \<Rightarrow> \<not> type_ok (snd kt) v)
                vue_options_schema of
        Some kt \<Rightarrow> Inl (InvalidType (fst kt))
      | None \<Rightarrow>
          (case find (\<lambda>kv. fst kv \<notin> set (map fst vue_options_schema)) opts of
             Some kv \<Rightarrow> Inl (NotAllowed (fst kv))
           | None \<Rightarrow> Inr ()))"

text \<open>
  The export of the configuration file: an object, a function (with the object it
  returns, if it returns one), or some other value.
\<close>

datatype file_export =
    ExportObject "(string \<times> opt_value) list"
  | ExportFunction "(string \<times> opt_value) list option"
  | ExportOther

text \<open>
  \<open>loadUserOptions\<close>: \<open>Inl\<close> is a validation failure, which ends the process;
  \<open>Inr\<close> carries the reported load error, if any, and the options the service uses.
\<close>

definition load_user_options :: "file_export \<Rightarrow> option_error + option_error option \<times> (string \<times> opt_value) list" where
  "load_user_options e =
     (let (warn, resolved) =
        (case e of
           ExportObject opts \<Rightarrow> (None, opts)
         | ExportFunction (Some opts) \<Rightarrow> (None, opts)
         | ExportFunction None \<Rightarrow> (Some NotAnObject, [])
         | ExportOther \<Rightarrow> (Some NotAnObject, []))
      in sum_bind (validate_options resolved) (\<lambda>_. Inr (warn, resolved)))"

text \<open>
  The two options the service then takes into its webpack pipeline
  (\<open>Service.init\<close>: a truthy \<open>chainWebpack\<close> is registered as a chain function, a
  truthy \<open>configureWebpack\<close> as a raw configuration).
\<close>

definition project_hooks :: "(string \<times> opt_value) list \<Rightarrow> (chain_config \<Rightarrow> chain_config) option \<times> js_value option" where
  "project_hooks opts =
     ((case map_of opts ''chainWebpack'' of Some (OFunction f) \<Rightarrow> Some f | _ \<Rightarrow> None),
      (case map_of opts ''configureWebpack'' of Some (OValue v) \<Rightarrow> Some v | _ \<Rightarrow> None))"

section \<open>Lemmas\<close>

lemma validate_unknown_key:
  assumes "\<forall>(k, t) \<in> set vue_options_schema. \<forall>v. map_of opts k = Some v \<longrightarrow> type_ok t v"
    and "find (\<lambda>kv. fst kv \<notin> set (map fst vue_options_schema)) opts = Some (k, v)"
  shows "validate_options opts = Inl (NotAllowed k)"
proof -
  have "find (\<lambda>kt. case map_of opts (fst kt) of None \<Rightarrow> False | Some v \<Rightarrow> \<not> type_ok (snd kt) v)
          vue_options_schema = None"
    using assms(1) by (auto simp: find_None_iff split: option.splits)
  with assms(2) show ?thesis by (simp add: validate_options_def)
qed

lemma load_user_options_object:
  "load_user_options (ExportObject opts) = sum_bind (validate_options opts) (\<lambda>_. Inr (None, opts))"
  by (simp add: load_user_options_def)

end
