(* ===== verification/Loader_Runner.thy ===== *)
theory Loader_Runner
  imports Webpack_Rules
begin

text \<open>
  loader-runner (version 2, used by webpack 4): \<open>runLoaders\<close> runs the loaders of a
  module in two phases. The pitching phase visits the loaders from the first to the
  last and calls each one's \<open>pitch\<close> function if it has one; a pitch that returns a
  value ends the phase early. Otherwise the resource is read, and the normal phase
  runs each loader's \<open>normal\<close> function from the last to the first, each on the
  previous one's result. Every loader object carries the flags \<open>pitchExecuted\<close>
  and \<open>normalExecuted\<close>, and the loop is driven by \<open>loaderContext.loaderIndex\<close>.
  \<open>lr_step\<close> is one turn of \<open>iteratePitchingLoaders\<close>,
  \<open>processResource\<close> or \<open>iterateNormalLoaders\<close>, on a state holding exactly that
  data. \<open>pitch_phase\<close> and \<open>normal_phase\<close> are the reference: the result of the
  run as a recursive function.
\<close>

section \<open>Loaders and the runner's state\<close>

text \<open>
  What a loader module exports: an optional \<open>normal\<close> function (the module's
  default export) from content to content or error, and an optional \<open>pitch\<close>
  function that sees the loaders after it and returns an error, nothing
  (\<open>undefined\<close>) or a content.
\<close>

record ('e, 'c) loader_impl =
  li_normal :: "('c \<Rightarrow> 'e + 'c) option"
  li_pitch :: "(loader_entry list \<Rightarrow> 'e + 'c option) option"

datatype ('e, 'c) lr_phase = Pitching | Normal 'c | Finished "'e + 'c"

record ('e, 'c) lr_state =
  lr_index :: int
  lr_pitch_executed :: "bool list"
  lr_normal_executed :: "bool list"
  lr_phase :: "('e, 'c) lr_phase"

text \<open>\<open>runLoaders\<close>: loader index 0, no flag set, pitching.\<close>

definition lr_init :: "loader_entry list \<Rightarrow> ('e, 'c) lr_state" where
  "lr_init ls =
     \<lparr>lr_index = 0, lr_pitch_executed = replicate (length ls) False,
      lr_normal_executed = replicate (length ls) False, lr_phase = Pitching\<rparr>"

section \<open>One turn of the runner\<close>

text \<open>
  \<open>impl\<close> gives each loader's module, \<open>read\<close> the result of
  \<open>options.readResource\<close>. The rules follow the branches of the three functions in
  the order of the code. \<open>iteratePitchingLoaders\<close>: past the last loader, process the
  resource; on a loader whose pitch has run, move to the next; otherwise set the flag
  and run the pitch if there is one: an error ends the run, a value switches to the
  normal phase at the previous loader, \<open>undefined\<close> re-enters the loop at the same
  index. \<open>processResource\<close>: set the index to the last loader and read.
  \<open>iterateNormalLoaders\<close>: below the first loader, finish; on a loader whose normal
  function has run, move to the previous one; otherwise set the flag and run it.
\<close>

inductive lr_step ::
  "(loader_entry \<Rightarrow> ('e, 'c) loader_impl) \<Rightarrow> loader_entry list \<Rightarrow> 'e + 'c \<Rightarrow>
   ('e, 'c) lr_state \<Rightarrow> ('e, 'c) lr_state \<Rightarrow> bool"
  for impl ls read where
  process_resource:
    "lr_phase s = Pitching \<Longrightarrow> int (length ls) \<le> lr_index s \<Longrightarrow>
     lr_step impl ls read s
       (s\<lparr>lr_index := int (length ls) - 1,
          lr_phase := (case read of Inl e \<Rightarrow> Finished (Inl e) | Inr c \<Rightarrow> Normal c)\<rparr>)"
| pitch_skip:
    "lr_phase s = Pitching \<Longrightarrow> 0 \<le> lr_index s \<Longrightarrow> lr_index s < int (length ls) \<Longrightarrow>
     lr_pitch_executed s ! nat (lr_index s) \<Longrightarrow>
     lr_step impl ls read s (s\<lparr>lr_index := lr_index s + 1\<rparr>)"
| pitch_absent:
    "lr_phase s = Pitching \<Longrightarrow> 0 \<le> lr_index s \<Longrightarrow> lr_index s < int (length ls) \<Longrightarrow>
     \<not> lr_pitch_executed s ! nat (lr_index s) \<Longrightarrow>
     li_pitch (impl (ls ! nat (lr_index s))) = None \<Longrightarrow>
     lr_step impl ls read s
       (s\<lparr>lr_pitch_executed := (lr_pitch_executed s)[nat (lr_index s) := True]\<rparr>)"
| pitch_error:
    "lr_phase s = Pitching \<Longrightarrow> 0 \<le> lr_index s \<Longrightarrow> lr_index s < int (length ls) \<Longrightarrow>
     \<not> lr_pitch_executed s ! nat (lr_index s) \<Longrightarrow>
     li_pitch (impl (ls ! nat (lr_index s))) = Some p \<Longrightarrow>
     p (drop (Suc (nat (lr_index s))) ls) = Inl e \<Longrightarrow>
     lr_step impl ls read s
       (s\<lparr>lr_pitch_executed := (lr_pitch_executed s)[nat (lr_index s) := True],
          lr_phase := Finished (Inl e)\<rparr>)"
| pitch_undefined:
    "lr_phase s = Pitching \<Longrightarrow> 0 \<le> lr_index s \<Longrightarrow> lr_index s < int (length ls) \<Longrightarrow>
     \<not> lr_pitch_executed s ! nat (lr_index s) \<Longrightarrow>
     li_pitch (impl (ls ! nat (lr_index s))) = Some p \<Longrightarrow>
     p (drop (Suc (nat (lr_index s))) ls) = Inr None \<Longrightarrow>
     lr_step impl ls read s
       (s\<lparr>lr_pitch_executed := (lr_pitch_executed s)[nat (lr_index s) := True]\<rparr>)"
| pitch_value:
    "lr_phase s = Pitching \<Longrightarrow> 0 \<le> lr_index s \<Longrightarrow> lr_index s < int (length ls) \<Longrightarrow>
     \<not> lr_pitch_executed s ! nat (lr_index s) \<Longrightarrow>
     li_pitch (impl (ls ! nat (lr_index s))) = Some p \<Longrightarrow>
     p (drop (Suc (nat (lr_index s))) ls) = Inr (Some c) \<Longrightarrow>
     lr_step impl ls read s
       (s\<lparr>lr_pitch_executed := (lr_pitch_executed s)[nat (lr_index s) := True],
          lr_index := lr_index s - 1, lr_phase := Normal c\<rparr>)"
| normal_finish:
    "lr_phase s = Normal c \<Longrightarrow> lr_index s < 0 \<Longrightarrow>
     lr_step impl ls read s (s\<lparr>lr_phase := Finished (Inr c)\<rparr>)"
| normal_skip:
    "lr_phase s = Normal c \<Longrightarrow> 0 \<le> lr_index s \<Longrightarrow> lr_index s < int (length ls) \<Longrightarrow>
     lr_normal_executed s ! nat (lr_index s) \<Longrightarrow>
     lr_step impl ls read s (s\<lparr>lr_index := lr_index s - 1\<rparr>)"
| normal_absent:
    "lr_phase s = Normal c \<Longrightarrow> 0 \<le> lr_index s \<Longrightarrow> lr_index s < int (length ls) \<Longrightarrow>
     \<not> lr_normal_executed s ! nat (lr_index s) \<Longrightarrow>
     li_normal (impl (ls ! nat (lr_index s))) = None \<Longrightarrow>
     lr_step impl ls read s
       (s\<lparr>lr_normal_executed := (lr_normal_executed s)[nat (lr_index s) := True]\<rparr>)"
| normal_error:
    "lr_phase s = Normal c \<Longrightarrow> 0 \<le> lr_index s \<Longrightarrow> lr_index s < int (length ls) \<Longrightarrow>
     \<not> lr_normal_executed s ! nat (lr_index s) \<Longrightarrow>
     li_normal (impl (ls ! nat (lr_index s))) = Some f \<Longrightarrow> f c = Inl e \<Longrightarrow>
     lr_step impl ls read s
       (s\<lparr>lr_normal_executed := (lr_normal_executed s)[nat (lr_index s) := True],
          lr_phase := Finished (Inl e)\<rparr>)"
| normal_run:
    "lr_phase s = Normal c \<Longrightarrow> 0 \<le> lr_index s \<Longrightarrow> lr_index s < int (length ls) \<Longrightarrow>
     \<not> lr_normal_executed s ! nat (lr_index s) \<Longrightarrow>
     li_normal (impl (ls ! nat (lr_index s))) = Some f \<Longrightarrow> f c = Inr c' \<Longrightarrow>
     lr_step impl ls read s
       (s\<lparr>lr_normal_executed := (lr_normal_executed s)[nat (lr_index s) := True],
          lr_phase := Normal c'\<rparr>)"

text \<open>The runner's invariant: one flag of each kind per loader, the index in range.\<close>

definition lr_inv :: "loader_entry list \<Rightarrow> ('e, 'c) lr_state \<Rightarrow> bool" where
  "lr_inv ls s \<longleftrightarrow>
     length (lr_pitch_executed s) = length ls \<and> length (lr_normal_executed s) = length ls \<and>
     (case lr_phase s of
        Pitching \<Rightarrow> 0 \<le> lr_index s \<and> lr_index s \<le> int (length ls)
      | Normal c \<Rightarrow> -1 \<le> lr_index s \<and> lr_index s < int (length ls)
      | Finished r \<Rightarrow> True)"

section \<open>The reference: the run as a recursive function\<close>

text \<open>
  \<open>normal_phase impl ls k c\<close> runs the normal functions of the loaders
  \<open>k - 1\<close> down to \<open>0\<close> on \<open>c\<close>, skipping loaders without one and stopping at
  the first error.
\<close>

fun normal_phase ::
  "(loader_entry \<Rightarrow> ('e, 'c) loader_impl) \<Rightarrow> loader_entry list \<Rightarrow> nat \<Rightarrow> 'c \<Rightarrow> 'e + 'c" where
  "normal_phase impl ls 0 c = Inr c"
| "normal_phase impl ls (Suc k) c =
     (case li_normal (impl (ls ! k)) of
        None \<Rightarrow> normal_phase impl ls k c
      | Some f \<Rightarrow> (case f c of Inl e \<Rightarrow> Inl e | Inr c' \<Rightarrow> normal_phase impl ls k c'))"

text \<open>
  \<open>pitch_phase impl ls read i\<close> runs the pitches from loader \<open>i\<close> on; its
  recursion goes up to the number of loaders.
\<close>

function pitch_phase ::
  "(loader_entry \<Rightarrow> ('e, 'c) loader_impl) \<Rightarrow> loader_entry list \<Rightarrow> 'e + 'c \<Rightarrow> nat \<Rightarrow> 'e + 'c" where
  "pitch_phase impl ls read i =
     (if i < length ls then
        (case li_pitch (impl (ls ! i)) of
           None \<Rightarrow> pitch_phase impl ls read (Suc i)
         | Some p \<Rightarrow>
             (case p (drop (Suc i) ls) of
                Inl e \<Rightarrow> Inl e
              | Inr None \<Rightarrow> pitch_phase impl ls read (Suc i)
              | Inr (Some c) \<Rightarrow> normal_phase impl ls i c))
      else (case read of Inl e \<Rightarrow> Inl e | Inr c \<Rightarrow> normal_phase impl ls (length ls) c))"
  by pat_completeness auto
termination
  by (relation "measure (\<lambda>(impl, ls, read, i). length ls - i)") auto

declare pitch_phase.simps [simp del]

definition run_loaders_full ::
  "(loader_entry \<Rightarrow> ('e, 'c) loader_impl) \<Rightarrow> loader_entry list \<Rightarrow> 'e + 'c \<Rightarrow> 'e + 'c" where
  "run_loaders_full impl ls read = pitch_phase impl ls read 0"

text \<open>A loader whose module has a total \<open>normal\<close> function and no \<open>pitch\<close>.\<close>

definition plain_loader :: "('c \<Rightarrow> 'c) \<Rightarrow> ('e, 'c) loader_impl" where
  "plain_loader f = \<lparr>li_normal = Some (\<lambda>c. Inr (f c)), li_pitch = None\<rparr>"

section \<open>Lemmas: single turns\<close>

lemma lr_step_from_Finished:
  "lr_phase s = Finished r \<Longrightarrow> \<not> lr_step impl ls read s s'"
  by (auto elim: lr_step.cases)

lemma lr_step_deterministic:
  "lr_step impl ls read s s1 \<Longrightarrow> lr_step impl ls read s s2 \<Longrightarrow> s1 = s2"
  by (induction rule: lr_step.induct) (auto elim!: lr_step.cases)

text \<open>After a loader's normal function has run, the next turn moves to the previous loader.\<close>

lemma normal_skip_set:
  assumes "lr_phase t = Normal c" "lr_index t = int k" "k < length ls"
    "lr_normal_executed t = xs[k := True]" "k < length xs"
  shows "lr_step impl ls read t (t\<lparr>lr_index := int k - 1\<rparr>)"
  using normal_skip [of t c ls impl read] assms by simp

lemma reach_Finished_step:
  "lr_step impl ls read s t \<Longrightarrow> lr_phase t = Finished r \<Longrightarrow>
   \<exists>s'. (lr_step impl ls read)\<^sup>*\<^sup>* s s' \<and> lr_phase s' = Finished r"
  by (blast intro: r_into_rtranclp)

section \<open>Lemmas: the runner reaches the reference's result\<close>

lemma normal_phase_reach:
  assumes "lr_phase s = Normal c" "lr_index s = int k - 1" "k \<le> length ls"
    "\<forall>j<k. \<not> lr_normal_executed s ! j" "length (lr_normal_executed s) = length ls"
  shows "\<exists>s'. (lr_step impl ls read)\<^sup>*\<^sup>* s s' \<and> lr_phase s' = Finished (normal_phase impl ls k c)"
  using assms
proof (induction k arbitrary: s c)
  case 0
  then have "lr_step impl ls read s (s\<lparr>lr_phase := Finished (Inr c)\<rparr>)"
    by (intro normal_finish) simp_all
  from reach_Finished_step [OF this] show ?case by simp
next
  case (Suc k)
  let ?xs = "lr_normal_executed s"
  have at: "0 \<le> lr_index s" "lr_index s < int (length ls)" "nat (lr_index s) = k"
    "\<not> ?xs ! nat (lr_index s)" "k < length ?xs"
    using Suc.prems by simp_all
  have rest: "\<exists>s'. (lr_step impl ls read)\<^sup>*\<^sup>* s s' \<and> lr_phase s' = Finished (normal_phase impl ls k c')"
    if step: "lr_step impl ls read s t" and t: "lr_phase t = Normal c'" "lr_index t = int k"
      "lr_normal_executed t = ?xs[k := True]" for t c'
  proof -
    have "lr_step impl ls read t (t\<lparr>lr_index := int k - 1\<rparr>)"
      using t at Suc.prems(3) by (intro normal_skip_set [where xs = ?xs]) simp_all
    moreover obtain s' where "(lr_step impl ls read)\<^sup>*\<^sup>* (t\<lparr>lr_index := int k - 1\<rparr>) s'"
      and "lr_phase s' = Finished (normal_phase impl ls k c')"
      using Suc.IH [of "t\<lparr>lr_index := int k - 1\<rparr>" c'] t Suc.prems by auto
    ultimately show ?thesis
      using step by (meson converse_rtranclp_into_rtranclp)
  qed
  show ?case
  proof (cases "li_normal (impl (ls ! k))")
    case None
    then have "lr_step impl ls read s (s\<lparr>lr_normal_executed := ?xs[k := True]\<rparr>)"
      using normal_absent [of s c ls impl read] Suc.prems at by simp
    from rest [OF this] None Suc.prems(1,2) show ?thesis by simp
  next
    case (Some f)
    show ?thesis
    proof (cases "f c")
      case (Inl e)
      then have "lr_step impl ls read s
          (s\<lparr>lr_normal_executed := ?xs[k := True], lr_phase := Finished (Inl e)\<rparr>)"
        using normal_error [of s c ls impl f e read] Some Suc.prems at by simp
      from reach_Finished_step [OF this] Some Inl show ?thesis by simp
    next
      case (Inr c')
      then have "lr_step impl ls read s
          (s\<lparr>lr_normal_executed := ?xs[k := True], lr_phase := Normal c'\<rparr>)"
        using normal_run [of s c ls impl f c' read] Some Suc.prems at by simp
      from rest [OF this] Some Inr Suc.prems(2) show ?thesis by simp
    qed
  qed
qed

lemma pitch_skip_set:
  assumes "lr_phase t = Pitching" "lr_index t = int i" "i < length ls"
    "lr_pitch_executed t = xs[i := True]" "i < length xs"
  shows "lr_step impl ls read t (t\<lparr>lr_index := int (Suc i)\<rparr>)"
proof -
  have "lr_step impl ls read t (t\<lparr>lr_index := lr_index t + 1\<rparr>)"
    using assms by (intro pitch_skip) simp_all
  with assms(2) show ?thesis by (simp add: add.commute)
qed

text \<open>The two branches of \<open>pitch_phase\<close>, for rewriting one call at a time.\<close>

lemma pitch_phase_past:
  "\<not> i < length ls \<Longrightarrow>
   pitch_phase impl ls read i = (case read of Inl e \<Rightarrow> Inl e | Inr c \<Rightarrow> normal_phase impl ls (length ls) c)"
  by (subst pitch_phase.simps) simp

lemma pitch_phase_at:
  "i < length ls \<Longrightarrow>
   pitch_phase impl ls read i =
     (case li_pitch (impl (ls ! i)) of
        None \<Rightarrow> pitch_phase impl ls read (Suc i)
      | Some p \<Rightarrow>
          (case p (drop (Suc i) ls) of
             Inl e \<Rightarrow> Inl e
           | Inr None \<Rightarrow> pitch_phase impl ls read (Suc i)
           | Inr (Some c) \<Rightarrow> normal_phase impl ls i c))"
  by (subst pitch_phase.simps) simp

lemma pitch_phase_reach:
  assumes "lr_phase s = Pitching" "lr_index s = int i" "i \<le> length ls"
    "\<forall>j. i \<le> j \<longrightarrow> j < length ls \<longrightarrow> \<not> lr_pitch_executed s ! j"
    "\<forall>j<length ls. \<not> lr_normal_executed s ! j"
    "length (lr_pitch_executed s) = length ls" "length (lr_normal_executed s) = length ls"
  shows "\<exists>s'. (lr_step impl ls read)\<^sup>*\<^sup>* s s' \<and> lr_phase s' = Finished (pitch_phase impl ls read i)"
  using assms
proof (induction impl ls read i arbitrary: s rule: pitch_phase.induct)
  case (1 impl ls read i)
  let ?xs = "lr_pitch_executed s"
  let ?R = "lr_step impl ls read"
  show ?case
  proof (cases "i < length ls")
    case False
    with "1.prems" have n: "i = length ls" by simp
    let ?t = "s\<lparr>lr_index := int (length ls) - 1,
                 lr_phase := (case read of Inl e \<Rightarrow> Finished (Inl e) | Inr c \<Rightarrow> Normal c)\<rparr>"
    have step: "?R s ?t"
      using "1.prems" n by (intro process_resource) simp_all
    show ?thesis
    proof (cases read)
      case (Inl e)
      with reach_Finished_step [OF step] n show ?thesis by (simp add: pitch_phase_past)
    next
      case (Inr c)
      then obtain s' where "?R\<^sup>*\<^sup>* ?t s'" "lr_phase s' = Finished (normal_phase impl ls (length ls) c)"
        using normal_phase_reach [of ?t c "length ls" ls impl read] "1.prems" by auto
      with step Inr n show ?thesis
        by (auto simp: pitch_phase_past intro: converse_rtranclp_into_rtranclp)
    qed
  next
    case True
    have at: "0 \<le> lr_index s" "lr_index s < int (length ls)" "nat (lr_index s) = i"
      "\<not> ?xs ! nat (lr_index s)" "i < length ?xs"
      using "1.prems" True by simp_all
    note at_eq = pitch_phase_at [OF True, of impl read]
    let ?u = "s\<lparr>lr_pitch_executed := ?xs[i := True], lr_index := int (Suc i)\<rparr>"
    have u: "lr_phase ?u = Pitching" "lr_index ?u = int (Suc i)" "Suc i \<le> length ls"
      "\<forall>j. Suc i \<le> j \<longrightarrow> j < length ls \<longrightarrow> \<not> lr_pitch_executed ?u ! j"
      "\<forall>j<length ls. \<not> lr_normal_executed ?u ! j"
      "length (lr_pitch_executed ?u) = length ls" "length (lr_normal_executed ?u) = length ls"
      using "1.prems" True by auto
    have via: "?R\<^sup>*\<^sup>* s ?u" if step: "?R s (s\<lparr>lr_pitch_executed := ?xs[i := True]\<rparr>)"
    proof -
      have "?R (s\<lparr>lr_pitch_executed := ?xs[i := True]\<rparr>) ?u"
        using "1.prems" True at by (intro pitch_skip_set [where xs = ?xs]) simp_all
      with step show ?thesis by (meson converse_rtranclp_into_rtranclp r_into_rtranclp)
    qed
    show ?thesis
    proof (cases "li_pitch (impl (ls ! i))")
      case None
      have "?R s (s\<lparr>lr_pitch_executed := ?xs[nat (lr_index s) := True]\<rparr>)"
        by (rule pitch_absent) (use "1.prems"(1) at None in simp_all)
      then have "?R s (s\<lparr>lr_pitch_executed := ?xs[i := True]\<rparr>)"
        by (simp only: at(3))
      then have to_u: "?R\<^sup>*\<^sup>* s ?u" by (rule via)
      obtain s' where s': "?R\<^sup>*\<^sup>* ?u s'" "lr_phase s' = Finished (pitch_phase impl ls read (Suc i))"
        using "1.IH"(1) [OF True None u] by blast
      from to_u s'(1) have "?R\<^sup>*\<^sup>* s s'" by (rule rtranclp_trans)
      with s'(2) None show ?thesis by (auto simp: at_eq)
    next
      case (Some p)
      show ?thesis
      proof (cases "p (drop (Suc i) ls)")
        case (Inl e)
        have "?R s (s\<lparr>lr_pitch_executed := ?xs[i := True], lr_phase := Finished (Inl e)\<rparr>)"
          using pitch_error [where s = s and p = p and e = e] "1.prems"(1) at Some Inl by (simp only: at(3)) simp
        from reach_Finished_step [OF this] True Some Inl show ?thesis
          by (simp add: at_eq)
      next
        case (Inr r)
        show ?thesis
        proof (cases r)
          case None
          have "?R s (s\<lparr>lr_pitch_executed := ?xs[i := True]\<rparr>)"
            using pitch_undefined [where s = s and p = p] "1.prems"(1) at Some Inr None by (simp only: at(3)) simp
          then have to_u: "?R\<^sup>*\<^sup>* s ?u" by (rule via)
          obtain s' where s': "?R\<^sup>*\<^sup>* ?u s'" "lr_phase s' = Finished (pitch_phase impl ls read (Suc i))"
            using "1.IH"(2) [OF True \<open>li_pitch (impl (ls ! i)) = Some p\<close> Inr None u] by blast
          from to_u s'(1) have "?R\<^sup>*\<^sup>* s s'" by (rule rtranclp_trans)
          with s'(2) \<open>li_pitch (impl (ls ! i)) = Some p\<close> Inr None show ?thesis by (auto simp: at_eq)
        next
          case (Some c)
          let ?t = "s\<lparr>lr_pitch_executed := ?xs[i := True], lr_index := lr_index s - 1, lr_phase := Normal c\<rparr>"
          have step: "?R s ?t"
            using pitch_value [where s = s and p = p and c = c] "1.prems"(1) at \<open>li_pitch (impl (ls ! i)) = Some p\<close> Inr Some
            by (simp only: at(3)) simp
          obtain s' where "?R\<^sup>*\<^sup>* ?t s'" "lr_phase s' = Finished (normal_phase impl ls i c)"
            using normal_phase_reach [of ?t c i ls impl read] "1.prems" True by auto
          with step True \<open>li_pitch (impl (ls ! i)) = Some p\<close> Inr Some show ?thesis
            by (auto simp: at_eq intro: converse_rtranclp_into_rtranclp)
        qed
      qed
    qed
  qed
qed

text \<open>From its initial state the runner reaches the reference's result.\<close>

lemma lr_init_reach:
  "\<exists>s'. (lr_step impl ls read)\<^sup>*\<^sup>* (lr_init ls) s' \<and> lr_phase s' = Finished (run_loaders_full impl ls read)"
  unfolding run_loaders_full_def
  by (rule pitch_phase_reach) (simp_all add: lr_init_def)

lemma lr_Finished_final: "lr_phase s = Finished r \<Longrightarrow> \<not> (\<exists>w. lr_step impl ls read s w)"
  using lr_step_from_Finished by blast

text \<open>Every finished state reachable from the initial state holds the reference's result.\<close>

lemma lr_init_result:
  assumes "(lr_step impl ls read)\<^sup>*\<^sup>* (lr_init ls) s" and "lr_phase s = Finished r"
  shows "r = run_loaders_full impl ls read"
proof -
  obtain s' where s': "(lr_step impl ls read)\<^sup>*\<^sup>* (lr_init ls) s'"
    "lr_phase s' = Finished (run_loaders_full impl ls read)"
    using lr_init_reach by blast
  have "s = s'"
    using lr_step_deterministic assms(1) lr_Finished_final [OF assms(2)] s'(1) lr_Finished_final [OF s'(2)]
    by (rule deterministic_final_unique)
  with assms(2) s'(2) show ?thesis by simp
qed

section \<open>Lemmas: the invariant\<close>

lemma lr_init_inv: "lr_inv ls (lr_init ls)"
  by (simp add: lr_inv_def lr_init_def)

lemma lr_step_inv: "lr_step impl ls read s s' \<Longrightarrow> lr_inv ls s \<Longrightarrow> lr_inv ls s'"
  by (induction rule: lr_step.induct) (auto simp: lr_inv_def split: sum.splits)

lemma lr_reachable_inv:
  "(lr_step impl ls read)\<^sup>*\<^sup>* (lr_init ls) s \<Longrightarrow> lr_inv ls s"
  by (induction rule: rtranclp_induct) (auto simp: lr_init_inv intro: lr_step_inv)

text \<open>
  Progress: a state of the invariant that is not finished has a next turn. No turn of
  the runner reads a loader outside the list.
\<close>

lemma lr_progress:
  assumes "lr_inv ls s" and "\<forall>r. lr_phase s \<noteq> Finished r"
  shows "\<exists>s'. lr_step impl ls read s s'"
proof (cases "lr_phase s")
  case Pitching
  show ?thesis
  proof (cases "int (length ls) \<le> lr_index s")
    case True
    with Pitching show ?thesis by (blast intro: process_resource)
  next
    case False
    with Pitching assms(1) have at: "0 \<le> lr_index s" "lr_index s < int (length ls)"
      by (simp_all add: lr_inv_def)
    show ?thesis
    proof (cases "lr_pitch_executed s ! nat (lr_index s)")
      case True
      with Pitching at show ?thesis by (blast intro: pitch_skip)
    next
      case False
      show ?thesis
      proof (cases "li_pitch (impl (ls ! nat (lr_index s)))")
        case None
        with Pitching at False show ?thesis by (blast intro: pitch_absent)
      next
        case (Some p)
        show ?thesis
        proof (cases "p (drop (Suc (nat (lr_index s))) ls)")
          case (Inl e)
          with Some Pitching at False show ?thesis by (blast intro: pitch_error)
        next
          case (Inr b)
          with Some Pitching at False show ?thesis
            by (cases b) (blast intro: pitch_undefined pitch_value)+
        qed
      qed
    qed
  qed
next
  case (Normal c)
  show ?thesis
  proof (cases "lr_index s < 0")
    case True
    with Normal show ?thesis by (blast intro: normal_finish)
  next
    case False
    with Normal assms(1) have at: "0 \<le> lr_index s" "lr_index s < int (length ls)"
      by (simp_all add: lr_inv_def)
    show ?thesis
    proof (cases "lr_normal_executed s ! nat (lr_index s)")
      case True
      with Normal at show ?thesis by (blast intro: normal_skip)
    next
      case False
      show ?thesis
      proof (cases "li_normal (impl (ls ! nat (lr_index s)))")
        case None
        with Normal at False show ?thesis by (blast intro: normal_absent)
      next
        case (Some f)
        with Normal at False show ?thesis
          by (cases "f c") (auto intro: normal_error normal_run)
      qed
    qed
  qed
next
  case (Finished r)
  with assms(2) show ?thesis by simp
qed

section \<open>Lemmas: loaders without pitch\<close>

lemma normal_phase_plain:
  assumes "\<forall>l\<in>set ls. impl l = plain_loader (run l)" and "k \<le> length ls"
  shows "normal_phase impl ls k c = Inr (iterate_normal_loaders run ls k c)"
  using assms(2)
proof (induction k arbitrary: c)
  case 0
  then show ?case by simp
next
  case (Suc k)
  then have "impl (ls ! k) = plain_loader (run (ls ! k))"
    using assms(1) by simp
  with Suc show ?case by (simp add: plain_loader_def)
qed

lemma pitch_phase_plain:
  "\<forall>l\<in>set ls. impl l = plain_loader (run l) \<Longrightarrow>
   pitch_phase impl ls read i =
     (case read of Inl e \<Rightarrow> Inl e | Inr c \<Rightarrow> Inr (run_loaders run ls c))"
proof (induction impl ls read i rule: pitch_phase.induct)
  case (1 impl ls read i)
  show ?case
  proof (cases "i < length ls")
    case True
    with "1.prems" have "li_pitch (impl (ls ! i)) = None"
      by (simp add: plain_loader_def)
    with True "1.IH"(1) [OF True this "1.prems"] show ?thesis
      by (simp add: pitch_phase_at)
  next
    case False
    with normal_phase_plain [OF "1.prems"] show ?thesis
      by (simp add: pitch_phase_past run_loaders_def split: sum.split)
  qed
qed

text \<open>loader-runner's loop has no infinite run: every run finishes.\<close>

lemma lr_no_infinite_run:
  "\<not> (\<exists>f. f 0 = lr_init ls \<and> (\<forall>i. lr_step impl ls read (f i) (f (Suc i))))"
proof -
  obtain s where s: "(lr_step impl ls read)\<^sup>*\<^sup>* (lr_init ls) s"
    "lr_phase s = Finished (run_loaders_full impl ls read)"
    using lr_init_reach by blast
  show ?thesis
    using lr_step_deterministic s(1) lr_Finished_final [OF s(2)]
    by (rule deterministic_no_infinite_run)
qed

end
