(* ===== verification/Webpack_RuleSet.thy ===== *)
theory Webpack_RuleSet
  imports Webpack_Rules Regex_Syntax
begin

text \<open>
  webpack 4's \<open>lib/RuleSet.js\<close> on the raw configuration values: how
  \<open>module.rules\<close>, as the JavaScript objects a configuration file writes, becomes the
  rule set that \<open>NormalModuleFactory\<close> queries for every module.
  \<^item> \<open>normalizeCondition\<close> (\<open>normalize_condition\<close>): strings are path prefixes,
    regular expressions are tested, arrays are alternatives, objects combine
    \<open>test\<close>/\<open>include\<close>/\<open>or\<close>, \<open>and\<close>, \<open>exclude\<close>/\<open>not\<close>;
  \<^item> \<open>normalizeUse\<close> and \<open>normalizeUseItem\<close> (\<open>normalize_use_js\<close>,
    \<open>normalize_use_item_js\<close>): arrays are flattened, strings split at \<open>?\<close>,
    objects checked for \<open>options\<close> with \<open>query\<close> and for a loader;
  \<^item> \<open>normalizeRule\<close>/\<open>normalizeRules\<close> (\<open>normalize_rule_js\<close>,
    \<open>normalize_rules_js\<close>): one resource source and one result source per rule,
    the \<open>loader\<close>/\<open>loaders\<close>/\<open>options\<close> shorthands, nested \<open>rules\<close> and
    \<open>oneOf\<close>, with every exception as an \<open>Inl\<close> value;
  \<^item> \<open>exec\<close>/\<open>_run\<close> (\<open>rs_exec\<close>, \<open>rs_run\<close>): the uses of the matching rules
    in order, nested rules after the rule's own use, the first matching \<open>oneOf\<close>
    branch only.
  Not modelled: function-valued conditions and uses, the \<open>issuer\<close>,
  \<open>resourceQuery\<close>, \<open>realResource\<close> and \<open>compiler\<close> conditions (no rule here has
  them), and the \<open>ident\<close> under which object options are also filed in the rule set's
  reference table (it only names the options inside request strings; the loader gets
  the same object).
\<close>

section \<open>Reading JavaScript values\<close>

text \<open>Reading a property: \<open>None\<close> is \<open>undefined\<close>.\<close>

definition js_get :: "js_value \<Rightarrow> string \<Rightarrow> js_value option" where
  "js_get v k = (case v of JObj kvs \<Rightarrow> map_of kvs k | _ \<Rightarrow> None)"

text \<open>An object literal whose fields may be \<open>undefined\<close>: those fields are left out.\<close>

definition js_object :: "(string \<times> js_value option) list \<Rightarrow> js_value" where
  "js_object fs = JObj (concat (map (\<lambda>(k, v). case v of None \<Rightarrow> [] | Some x \<Rightarrow> [(k, x)]) fs))"

text \<open>\<open>String.prototype.split\<close> at a character.\<close>

function js_split :: "char \<Rightarrow> string \<Rightarrow> string list" where
  "js_split c s =
     (if c \<in> set s then takeWhile (\<lambda>x. x \<noteq> c) s # js_split c (tl (dropWhile (\<lambda>x. x \<noteq> c) s))
      else [s])"
  by pat_completeness auto
termination
proof (relation "measure (\<lambda>(c, s). length s)")
  fix c :: char and s :: string
  assume "c \<in> set s"
  then have "dropWhile (\<lambda>x. x \<noteq> c) s \<noteq> []" by (simp add: dropWhile_eq_Nil_conv)
  then have "length (tl (dropWhile (\<lambda>x. x \<noteq> c) s)) < length (dropWhile (\<lambda>x. x \<noteq> c) s)"
    by (cases "dropWhile (\<lambda>x. x \<noteq> c) s") simp_all
  also have "\<dots> \<le> length s" by (rule length_dropWhile_le)
  finally show "((c, tl (dropWhile (\<lambda>x. x \<noteq> c) s)), (c, s)) \<in> measure (\<lambda>(c, s). length s)"
    by simp
qed simp

text \<open>Collects a value or the first exception, in evaluation order.\<close>

definition cons_result :: "'e + 'a \<Rightarrow> 'e + 'a list \<Rightarrow> 'e + 'a list" where
  "cons_result x xs = sum_bind x (\<lambda>a. sum_bind xs (\<lambda>as. Inr (a # as)))"

section \<open>Conditions\<close>

datatype condition =
    CPrefix string | CRegExp js_regex | COr "condition list" | CAnd "condition list" | CNot condition

text \<open>
  The matchers: \<open>str.indexOf(condition) === 0\<close>, \<open>regExp.test\<close>,
  \<open>orMatcher\<close>, \<open>andMatcher\<close>, \<open>notMatcher\<close>.
\<close>

fun cond_matches :: "condition \<Rightarrow> string \<Rightarrow> bool" where
  "cond_matches (CPrefix c) s = (take (length c) s = c)"
| "cond_matches (CRegExp r) s = js_test r s"
| "cond_matches (COr cs) s = list_ex (\<lambda>c. cond_matches c s) cs"
| "cond_matches (CAnd cs) s = list_all (\<lambda>c. cond_matches c s) cs"
| "cond_matches (CNot c) s = (\<not> cond_matches c s)"

text \<open>No matcher is an error, one is itself, several are combined with \<open>andMatcher\<close>.\<close>

definition combine_matchers :: "condition list \<Rightarrow> webpack_error + condition" where
  "combine_matchers ms = (case ms of [] \<Rightarrow> Inl ConditionEmpty | [m] \<Rightarrow> Inr m | _ \<Rightarrow> Inr (CAnd ms))"

text \<open>
  \<open>normalizeCondition\<close>, one equation per kind of value in the order of its tests:
  falsy, string, regular expression (whose literal is compiled by
  \<open>parse_pattern\<close>), array, non-object, object. For an object,
  \<open>condition_keys\<close> is the \<open>forEach\<close> over its keys; \<open>normalize_and\<close> is
  \<open>value.map(normalizeCondition)\<close> under \<open>and\<close>.
\<close>

fun normalize_condition :: "js_value \<Rightarrow> webpack_error + condition"
  and normalize_condition_list :: "js_value list \<Rightarrow> webpack_error + condition list"
  and normalize_and :: "js_value \<Rightarrow> webpack_error + condition"
  and condition_keys :: "(string \<times> js_value) list \<Rightarrow> webpack_error + condition list" where
  "normalize_condition (JBool b) = (if b then Inl ConditionNotObject else Inl ConditionFalsy)"
| "normalize_condition (JNum n) = (if n \<noteq> 0 then Inl ConditionNotObject else Inl ConditionFalsy)"
| "normalize_condition JNull = Inl ConditionFalsy"
| "normalize_condition (JStr s) = (if s = [] then Inl ConditionFalsy else Inr (CPrefix s))"
| "normalize_condition (JRegExp src fl) =
     (case parse_pattern src fl of None \<Rightarrow> Inl RegExpSyntax | Some r \<Rightarrow> Inr (CRegExp r))"
| "normalize_condition (JArr xs) = sum_bind (normalize_condition_list xs) (\<lambda>cs. Inr (COr cs))"
| "normalize_condition (JObj kvs) = sum_bind (condition_keys kvs) combine_matchers"
| "normalize_condition_list [] = Inr []"
| "normalize_condition_list (x # xs) = cons_result (normalize_condition x) (normalize_condition_list xs)"
| "normalize_and (JArr xs) = sum_bind (normalize_condition_list xs) (\<lambda>cs. Inr (CAnd cs))"
| "normalize_and (JBool b) = Inl AndNotArray"
| "normalize_and (JNum n) = Inl AndNotArray"
| "normalize_and (JStr s) = Inl AndNotArray"
| "normalize_and JNull = Inl AndNotArray"
| "normalize_and (JRegExp src fl) = Inl AndNotArray"
| "normalize_and (JObj kvs) = Inl AndNotArray"
| "condition_keys [] = Inr []"
| "condition_keys ((k, v) # kvs) =
     (if k = ''or'' \<or> k = ''include'' \<or> k = ''test'' then
        (if js_truthy v then cons_result (normalize_condition v) (condition_keys kvs)
         else condition_keys kvs)
      else if k = ''and'' then
        (if js_truthy v then cons_result (normalize_and v) (condition_keys kvs)
         else condition_keys kvs)
      else if k = ''not'' \<or> k = ''exclude'' then
        (if js_truthy v then cons_result (sum_bind (normalize_condition v) (\<lambda>c. Inr (CNot c))) (condition_keys kvs)
         else condition_keys kvs)
      else Inl (ConditionProperty k))"

section \<open>Uses\<close>

text \<open>
  \<open>normalizeUseItem\<close>: a string is split at \<open>?\<close>; reading a property of
  \<open>null\<close> throws; an object may not have truthy \<open>options\<close> and \<open>query\<close>, needs
  a truthy \<open>loader\<close>, and gets \<open>options || query\<close> as its options.
\<close>

fun normalize_use_item_js :: "js_value \<Rightarrow> webpack_error + loader_entry" where
  "normalize_use_item_js (JStr s) = Inr (normalize_use_item_string s)"
| "normalize_use_item_js JNull = Inl ReadPropertyOfNull"
| "normalize_use_item_js v =
     (let opts = js_get v ''options''; q = js_get v ''query''; l = js_get v ''loader''
      in if opt_truthy opts \<and> opt_truthy q then Inl OptionsAndQuery
         else if \<not> opt_truthy l then Inl NoLoaderSpecified
         else case l of
                Some (JStr n) \<Rightarrow> Inr \<lparr>le_loader = n, le_options = js_or opts q\<rparr>
              | _ \<Rightarrow> Inl LoaderNotString)"

text \<open>\<open>normalizeUse\<close>: an array is the concatenation of its items' uses.\<close>

fun normalize_use_js :: "js_value \<Rightarrow> webpack_error + loader_entry list"
  and normalize_use_list :: "js_value list \<Rightarrow> webpack_error + loader_entry list" where
  "normalize_use_js (JArr xs) = normalize_use_list xs"
| "normalize_use_js (JBool b) = sum_bind (normalize_use_item_js (JBool b)) (\<lambda>u. Inr [u])"
| "normalize_use_js (JNum n) = sum_bind (normalize_use_item_js (JNum n)) (\<lambda>u. Inr [u])"
| "normalize_use_js (JStr s) = sum_bind (normalize_use_item_js (JStr s)) (\<lambda>u. Inr [u])"
| "normalize_use_js JNull = sum_bind (normalize_use_item_js JNull) (\<lambda>u. Inr [u])"
| "normalize_use_js (JRegExp src fl) = sum_bind (normalize_use_item_js (JRegExp src fl)) (\<lambda>u. Inr [u])"
| "normalize_use_js (JObj kvs) = sum_bind (normalize_use_item_js (JObj kvs)) (\<lambda>u. Inr [u])"
| "normalize_use_list [] = Inr []"
| "normalize_use_list (x # xs) =
     sum_bind (normalize_use_js x) (\<lambda>us. sum_bind (normalize_use_list xs) (\<lambda>vs. Inr (us @ vs)))"

section \<open>Rules\<close>

text \<open>
  A normalised rule: its resource condition, its \<open>enforce\<close>, its uses, its nested
  \<open>rules\<close> and its \<open>oneOf\<close> branches (absent ones empty).
\<close>

datatype rs_rule =
  RsRule (rs_resource: "condition option") (rs_enforce: "enforce option") (rs_use: "loader_entry list")
    (rs_rules: "rs_rule list") (rs_oneOf: "rs_rule list")

text \<open>\<open>rule.enforce\<close>, compared with \<open>"pre"\<close> and \<open>"post"\<close> by \<open>NormalModuleFactory\<close>.\<close>

definition enforce_of :: "js_value option \<Rightarrow> enforce option" where
  "enforce_of v =
     (case v of
        Some (JStr s) \<Rightarrow> (if s = ''pre'' then Some EnforcePre else if s = ''post'' then Some EnforcePost else None)
      | _ \<Rightarrow> None)"

text \<open>
  The resource source \<open>test + include + exclude\<close>: the condition object
  \<open>{test: rule.test, include: rule.include, exclude: rule.exclude}\<close>, then the
  \<open>resource\<close> source, which may not come in addition.
\<close>

definition rule_resource :: "js_value \<Rightarrow> webpack_error + condition option" where
  "rule_resource v =
     sum_bind
       (if opt_truthy (js_get v ''test'') \<or> opt_truthy (js_get v ''include'') \<or> opt_truthy (js_get v ''exclude'')
        then sum_bind (normalize_condition
                 (js_object [(''test'', js_get v ''test''), (''include'', js_get v ''include''),
                             (''exclude'', js_get v ''exclude'')])) (\<lambda>c. Inr (Some c))
        else Inr None)
       (\<lambda>res.
          if opt_truthy (js_get v ''resource'') then
            (if res \<noteq> None then Inl OneResourceSource
             else sum_bind (normalize_condition (the (js_get v ''resource''))) (\<lambda>c. Inr (Some c)))
          else Inr res)"

text \<open>
  The result sources other than \<open>use\<close>: \<open>loader\<close> and \<open>loaders\<close> exclude each
  other; \<open>loaders || loader\<close> as a string is split at \<open>!\<close> or, with options,
  becomes one use object; otherwise it may not come with options. The flag says
  whether a result source was set.
\<close>

definition rule_loader_use :: "js_value \<Rightarrow> webpack_error + bool \<times> loader_entry list" where
  "rule_loader_use v =
     (let ld = js_or (js_get v ''loaders'') (js_get v ''loader'');
          opts = opt_truthy (js_get v ''options'') \<or> opt_truthy (js_get v ''query'')
      in if opt_truthy (js_get v ''loader'') \<and> opt_truthy (js_get v ''loaders'') then Inl LoaderAndLoaders
         else case ld of
           Some (JStr s) \<Rightarrow>
             (if \<not> opts then sum_bind (normalize_use_list (map JStr (js_split CHR ''!'' s))) (\<lambda>us. Inr (True, us))
              else sum_bind (normalize_use_js (js_object [(''loader'', Some (JStr s)),
                       (''options'', js_get v ''options''), (''query'', js_get v ''query'')]))
                     (\<lambda>us. Inr (True, us)))
         | _ \<Rightarrow>
             (if opt_truthy ld \<and> opts then Inl OptionsWithLoaders
              else if opt_truthy ld then sum_bind (normalize_use_js (the ld)) (\<lambda>us. Inr (True, us))
              else if opts then Inl OptionsWithoutLoader
              else Inr (False, [])))"

text \<open>
  \<open>normalizeRule\<close> and \<open>normalizeRules\<close>. A string is a rule using that loader;
  a falsy value or a non-object throws; an object is read in the order of the code:
  resource, loader shorthands, \<open>use\<close>, nested \<open>rules\<close>, \<open>oneOf\<close>, \<open>enforce\<close>.
  Arrays and regular expressions have none of these properties.
\<close>

function normalize_rule_js :: "js_value \<Rightarrow> webpack_error + rs_rule"
  and normalize_rules_js :: "js_value \<Rightarrow> webpack_error + rs_rule list"
  and normalize_rule_list :: "js_value list \<Rightarrow> webpack_error + rs_rule list" where
  "normalize_rule_js (JStr s) = Inr (RsRule None None [\<lparr>le_loader = s, le_options = None\<rparr>] [] [])"
| "normalize_rule_js JNull = Inl RuleFalsy"
| "normalize_rule_js (JBool b) = (if b then Inl RuleNotObject else Inl RuleFalsy)"
| "normalize_rule_js (JNum n) = (if n \<noteq> 0 then Inl RuleNotObject else Inl RuleFalsy)"
| "normalize_rule_js (JArr xs) = Inr (RsRule None None [] [] [])"
| "normalize_rule_js (JRegExp src fl) = Inr (RsRule None None [] [] [])"
| "normalize_rule_js (JObj kvs) =
     sum_bind (rule_resource (JObj kvs)) (\<lambda>res.
     sum_bind (rule_loader_use (JObj kvs)) (\<lambda>(src, us).
     sum_bind (if opt_truthy (map_of kvs ''use'')
               then (if src then Inl OneResultSource else normalize_use_js (the (map_of kvs ''use'')))
               else Inr us) (\<lambda>use.
     sum_bind (if opt_truthy (map_of kvs ''rules'') then normalize_rules_js (the (map_of kvs ''rules''))
               else Inr []) (\<lambda>rules.
     sum_bind (if opt_truthy (map_of kvs ''oneOf'') then normalize_rules_js (the (map_of kvs ''oneOf''))
               else Inr []) (\<lambda>oneOf.
     Inr (RsRule res (enforce_of (map_of kvs ''enforce'')) use rules oneOf))))))"
| "normalize_rules_js (JArr xs) = normalize_rule_list xs"
| "normalize_rules_js (JBool b) = (if b then sum_bind (normalize_rule_js (JBool b)) (\<lambda>r. Inr [r]) else Inr [])"
| "normalize_rules_js (JNum n) = (if n \<noteq> 0 then sum_bind (normalize_rule_js (JNum n)) (\<lambda>r. Inr [r]) else Inr [])"
| "normalize_rules_js (JStr s) = (if s \<noteq> [] then sum_bind (normalize_rule_js (JStr s)) (\<lambda>r. Inr [r]) else Inr [])"
| "normalize_rules_js JNull = Inr []"
| "normalize_rules_js (JRegExp src fl) = sum_bind (normalize_rule_js (JRegExp src fl)) (\<lambda>r. Inr [r])"
| "normalize_rules_js (JObj kvs) = sum_bind (normalize_rule_js (JObj kvs)) (\<lambda>r. Inr [r])"
| "normalize_rule_list [] = Inr []"
| "normalize_rule_list (x # xs) = cons_result (normalize_rule_js x) (normalize_rule_list xs)"
  by pat_completeness auto
termination
  by (relation "measure (\<lambda>a. case a of Inl v \<Rightarrow> 2 * size v | Inr (Inl v) \<Rightarrow> 2 * size v + 1
                                    | Inr (Inr xs) \<Rightarrow> 2 * size_list size xs + 1)")
    (auto simp: opt_truthy_def split: option.splits dest: size_map_of_less)

section \<open>Querying the rule set\<close>

text \<open>
  \<open>RuleSet._run\<close> on a resource path: a rule with a resource condition fails on an
  empty path or a path the condition rejects; otherwise it contributes its uses (with its
  \<open>enforce\<close>), then those of every nested rule that matches, then those of the first
  \<open>oneOf\<close> branch that matches. The result says whether the rule matched.
\<close>

fun rs_run :: "rs_rule \<Rightarrow> resource_path \<Rightarrow> bool \<times> (enforce option \<times> loader_entry) list"
  and rs_run_all :: "rs_rule list \<Rightarrow> resource_path \<Rightarrow> (enforce option \<times> loader_entry) list"
  and rs_run_first :: "rs_rule list \<Rightarrow> resource_path \<Rightarrow> (enforce option \<times> loader_entry) list" where
  "rs_run (RsRule res enf use rules oneOf) p =
     (if res \<noteq> None \<and> (p = [] \<or> \<not> cond_matches (the res) p) then (False, [])
      else (True, map (\<lambda>u. (enf, u)) use @ rs_run_all rules p @ rs_run_first oneOf p))"
| "rs_run_all [] p = []"
| "rs_run_all (r # rs) p = snd (rs_run r p) @ rs_run_all rs p"
| "rs_run_first [] p = []"
| "rs_run_first (r # rs) p = (if fst (rs_run r p) then snd (rs_run r p) else rs_run_first rs p)"

text \<open>\<open>RuleSet.exec\<close>: \<open>_run\<close> on the rule \<open>{rules: this.rules}\<close>.\<close>

definition rs_exec :: "rs_rule list \<Rightarrow> resource_path \<Rightarrow> (enforce option \<times> loader_entry) list" where
  "rs_exec rs p = snd (rs_run (RsRule None None [] rs []) p)"

text \<open>\<open>NormalModuleFactory\<close> on the rule set's result: post, normal, pre loaders.\<close>

definition rs_module_loaders :: "rs_rule list \<Rightarrow> resource_path \<Rightarrow> loader_entry list" where
  "rs_module_loaders rs p =
     (let us = rs_exec rs p
      in uses_with (Some EnforcePost) us @ uses_with None us @ uses_with (Some EnforcePre) us)"

text \<open>A rule of the typed model of \<open>Webpack_Rules\<close> as a normalised rule of the rule set.\<close>

definition nrule_to_rs :: "nrule \<Rightarrow> rs_rule" where
  "nrule_to_rs nr = RsRule (map_option CRegExp (nr_test nr)) (nr_enforce nr) (nr_use nr) [] []"

section \<open>Lemmas: querying\<close>

lemma rs_exec_eq: "rs_exec rs p = rs_run_all rs p"
  by (simp add: rs_exec_def)

lemma rs_run_all_append: "rs_run_all (xs @ ys) p = rs_run_all xs p @ rs_run_all ys p"
  by (induction xs) simp_all

text \<open>
  The typed model is the rule set's behaviour on rules without nesting: querying the
  converted rules gives the matched uses of \<open>Webpack_Rules\<close>.
\<close>

lemma rs_exec_nrules: "rs_exec (map nrule_to_rs nrs) p = matched_uses nrs p"
proof (induction nrs)
  case Nil
  then show ?case by (simp add: rs_exec_eq matched_uses_def)
next
  case (Cons nr nrs)
  have "snd (rs_run (nrule_to_rs nr) p) =
      (if rule_matches nr p then map (\<lambda>u. (nr_enforce nr, u)) (nr_use nr) else [])"
    by (cases "nr_test nr") (auto simp: nrule_to_rs_def rule_matches_def)
  with Cons show ?case by (simp add: rs_exec_eq matched_uses_def)
qed

lemma rs_module_loaders_nrules: "rs_module_loaders (map nrule_to_rs nrs) p = module_loaders nrs p"
  by (simp add: rs_module_loaders_def module_loaders_def rs_exec_nrules)

text \<open>\<open>oneOf\<close>: only the first branch that matches contributes.\<close>

lemma rs_run_first_append_match:
  "\<forall>r\<in>set xs. \<not> fst (rs_run r p) \<Longrightarrow> fst (rs_run r p) \<Longrightarrow>
   rs_run_first (xs @ r # ys) p = snd (rs_run r p)"
  by (induction xs) simp_all

lemma rs_run_not_matched: "\<not> fst (rs_run r p) \<Longrightarrow> snd (rs_run r p) = []"
  by (cases r) (auto split: if_splits)

section \<open>Lemmas: errors of the reading\<close>

text \<open>A rule has one result source: \<open>use\<close> after a \<open>loader\<close> shorthand throws.\<close>

lemma rule_loader_use_string:
  "js_get v ''loaders'' = None \<Longrightarrow> js_get v ''loader'' = Some (JStr s) \<Longrightarrow>
   \<not> opt_truthy (js_get v ''options'') \<Longrightarrow> \<not> opt_truthy (js_get v ''query'') \<Longrightarrow>
   rule_loader_use v = sum_bind (normalize_use_list (map JStr (js_split CHR ''!'' s))) (\<lambda>us. Inr (True, us))"
  by (simp add: rule_loader_use_def js_or_def opt_truthy_def)

lemma normalize_rule_js_use_after_loader:
  assumes "rule_resource (JObj kvs) = Inr res" and "rule_loader_use (JObj kvs) = Inr (True, us)"
    and "opt_truthy (map_of kvs ''use'')"
  shows "normalize_rule_js (JObj kvs) = Inl OneResultSource"
  using assms by simp

end
