(* ===== verification/Webpack_Merge.thy ===== *)
theory Webpack_Merge
  imports Webpack_RuleSet
begin

text \<open>
  webpack-merge 4 (\<open>merge(a, b)\<close>, which Vue CLI's \<open>resolveWebpackConfig\<close> calls
  with the configuration and each \<open>configureWebpack\<close> object) on JavaScript values.
  It is lodash's \<open>mergeWith({}, a, b, joinArrays())\<close>: the customizer
  \<open>joinArrays\<close> concatenates two arrays, merges two plain objects recursively
  (\<open>mergeWith({}, a, b, ...)\<close> again) and otherwise returns (a copy of) the second
  value, which lodash assigns. Merging into \<open>{}\<close> keeps the keys of the first object in
  their order and appends the keys only the second has. The model's values have no
  functions and no \<open>undefined\<close>; a regular expression is an object but not a plain
  one, so it is replaced like any other non-mergeable value.

  \<open>webpack_merge\<close> of \<open>Webpack_Rules\<close> is the abstraction of this merge to
  \<open>module.rules\<close> (\<open>module_rules_js_merge\<close>).
\<close>

section \<open>The merge\<close>

fun js_merge :: "js_value \<Rightarrow> js_value \<Rightarrow> js_value" where
  "js_merge (JArr xs) (JArr ys) = JArr (xs @ ys)"
| "js_merge (JObj ps) (JObj qs) =
     JObj (map (\<lambda>p. case map_of qs (fst p) of None \<Rightarrow> p | Some w \<Rightarrow> (fst p, js_merge (snd p) w)) ps
           @ filter (\<lambda>q. fst q \<notin> set (map fst ps)) qs)"
| "js_merge a b = b"

text \<open>The rule array of a configuration value: \<open>module.rules\<close> when it is an array.\<close>

definition module_rules_js :: "js_value \<Rightarrow> js_value list option" where
  "module_rules_js v =
     (case js_get v ''module'' of
        Some m \<Rightarrow> (case js_get m ''rules'' of Some (JArr rs) \<Rightarrow> Some rs | _ \<Rightarrow> None)
      | None \<Rightarrow> None)"

section \<open>Lemmas\<close>

lemma map_of_merge_map:
  "map_of (map (\<lambda>p. case map_of qs (fst p) of None \<Rightarrow> p | Some w \<Rightarrow> (fst p, g (snd p) w)) ps) k =
     (case map_of ps k of None \<Rightarrow> None
      | Some v \<Rightarrow> Some (case map_of qs k of None \<Rightarrow> v | Some w \<Rightarrow> g v w))"
  by (induction ps) (auto split: option.splits)

lemma map_of_filter_new:
  "map_of (filter (\<lambda>q. fst q \<notin> fst ` set ps) qs) k = (if map_of ps k = None then map_of qs k else None)"
proof (induction qs)
  case Nil
  then show ?case by simp
next
  case (Cons q qs)
  have "fst q \<in> fst ` set ps \<longleftrightarrow> map_of ps (fst q) \<noteq> None" by (simp add: map_of_eq_None_iff)
  with Cons show ?case by (cases q) auto
qed

lemma js_get_merge_obj:
  "js_get (js_merge (JObj ps) (JObj qs)) k =
     (case map_of ps k of
        None \<Rightarrow> map_of qs k
      | Some v \<Rightarrow> (case map_of qs k of None \<Rightarrow> Some v | Some w \<Rightarrow> Some (js_merge v w)))"
  by (simp add: js_get_def map_add_def map_of_merge_map map_of_filter_new split: option.splits)

lemma js_get_Some_obj: "js_get v k = Some x \<Longrightarrow> \<exists>ps. v = JObj ps"
  by (cases v) (simp_all add: js_get_def)

lemma js_merge_obj_keys:
  "js_merge (JObj ps) (JObj qs) = JObj ms \<Longrightarrow> map fst ms = map fst ps @ filter (\<lambda>k. k \<notin> set (map fst ps)) (map fst qs)"
  by (auto simp: filter_map comp_def split: option.splits intro!: map_cong)

lemma js_get_merge_absent:
  assumes "js_get b k = None" "a = JObj ps" "b = JObj qs"
  shows "js_get (js_merge a b) k = js_get a k"
  using assms by (simp only: js_get_merge_obj) (simp add: js_get_def split: option.splits)

lemma js_get_merge_both:
  assumes "js_get a k = Some v" "js_get b k = Some w" "a = JObj ps" "b = JObj qs"
  shows "js_get (js_merge a b) k = Some (js_merge v w)"
  using assms by (simp only: js_get_merge_obj) (simp add: js_get_def)


text \<open>
  On \<open>module.rules\<close> the merge concatenates the two rule arrays: this is the typed
  \<open>webpack_merge\<close>.
\<close>

lemma module_rules_js_merge:
  assumes "module_rules_js a = Some xs" "module_rules_js b = Some ys"
  shows "module_rules_js (js_merge a b) = Some (xs @ ys)"
proof -
  obtain ma mb where ma: "js_get a ''module'' = Some ma" and mb: "js_get b ''module'' = Some mb"
    using assms by (auto simp: module_rules_js_def split: option.splits)
  have ra: "js_get ma ''rules'' = Some (JArr xs)" and rb: "js_get mb ''rules'' = Some (JArr ys)"
    using assms ma mb by (auto simp: module_rules_js_def split: option.splits js_value.splits)
  obtain ps qs where "a = JObj ps" "b = JObj qs" using ma mb js_get_Some_obj by blast
  with ma mb have "js_get (js_merge a b) ''module'' = Some (js_merge ma mb)"
    by (rule js_get_merge_both)
  moreover obtain ps' qs' where "ma = JObj ps'" "mb = JObj qs'" using ra rb js_get_Some_obj by blast
  then have "js_get (js_merge ma mb) ''rules'' = Some (js_merge (JArr xs) (JArr ys))"
    by (rule js_get_merge_both [OF ra rb])
  then have "js_get (js_merge ma mb) ''rules'' = Some (JArr (xs @ ys))" by simp
  ultimately show ?thesis by (simp add: module_rules_js_def)
qed

lemma normalize_rule_list_append:
  "normalize_rule_list (xs @ ys) =
     sum_bind (normalize_rule_list xs) (\<lambda>a. sum_bind (normalize_rule_list ys) (\<lambda>b. Inr (a @ b)))"
proof (induction xs)
  case Nil
  then show ?case by (cases "normalize_rule_list ys") simp_all
next
  case (Cons x xs)
  then show ?case
    by (cases "normalize_rule_js x"; cases "normalize_rule_list xs"; cases "normalize_rule_list ys")
      (simp_all add: cons_result_def)
qed

end
