(* ===== verification/Vue_Config.thy ===== *)
theory Vue_Config
  imports Vue_Options Loader_Runner Webpack_Merge
begin

text \<open>
  \<open>src/vue.config.js\<close>, the project's options for the Vue CLI service:
  \<^item> \<open>chainWebpack\<close> (lines 2--4) deletes the base configuration's rule named
    \<open>svg\<close> from \<open>config.module.rules\<close>;
  \<^item> \<open>configureWebpack\<close> (lines 5--20) is an object whose \<open>module.rules\<close>
    holds one rule: \<open>test: /\.(svg)(\?.*)?$/\<close> (line 8) and
    \<open>use: [{loader: 'svg-sprite-loader', options: {runtimeCompat: true}},
    'svgo-loader']\<close> (lines 9--17).
  The definitions follow the object literal field by field. The lemmas compute what
  the rule's pattern accepts and what webpack makes of its \<open>use\<close> list.
\<close>

section \<open>The exported options\<close>

definition chainWebpack :: "chain_config \<Rightarrow> chain_config" where
  "chainWebpack config = config\<lparr>cc_rules := cm_delete ''svg'' (cc_rules config)\<rparr>"

text \<open>\<open>/\.(svg)(\?.*)?$/\<close>: a dot, the group \<open>svg\<close>, an optional group
  \<open>?\<close> followed by any characters, then the end of the input.\<close>

definition svg_test :: js_regex where
  "svg_test =
     \<lparr>re_body =
        Seq (Atom (CChar CHR ''.''))
          (Seq (Group (Seq (Atom (CChar CHR ''s'')) (Seq (Atom (CChar CHR ''v'')) (Atom (CChar CHR ''g'')))))
            (Opt (Group (Seq (Atom (CChar CHR ''?'')) (Star (Atom CDot)))))),
      re_anchor_start = False, re_anchor_end = True, re_ignore_case = False\<rparr>"

text \<open>
  The same literal as text: the characters between the slashes of line 8
  (\<open>CHR 0x5C\<close> is the backslash) and its flags (none).
\<close>

definition svg_test_source :: string where
  "svg_test_source = CHR 0x5C # ''.(svg)('' @ CHR 0x5C # ''?.*)?$''"

definition svg_test_flags :: string where
  "svg_test_flags = []"

definition svg_sprite_loader_options :: js_value where
  "svg_sprite_loader_options = JObj [(''runtimeCompat'', JBool True)]"

definition svg_sprite_loader_use :: use_item where
  "svg_sprite_loader_use = UseObject (Some ''svg-sprite-loader'') (Some svg_sprite_loader_options) None"

definition svgo_loader_use :: use_item where
  "svgo_loader_use = UseString ''svgo-loader''"

definition svg_rule_use :: "use_item list" where
  "svg_rule_use = [svg_sprite_loader_use, svgo_loader_use]"

definition svg_rule :: rule where
  "svg_rule = \<lparr>rule_test = Some svg_test, rule_enforce = None, rule_use = svg_rule_use\<rparr>"

definition svg_rules :: "rule list" where
  "svg_rules = [svg_rule]"

definition configureWebpack :: webpack_config where
  "configureWebpack = \<lparr>module_rules = svg_rules\<rparr>"

definition vue_config :: vue_project_options where
  "vue_config = \<lparr>opt_chainWebpack = Some chainWebpack, opt_configureWebpack = Some (RawObject configureWebpack)\<rparr>"

subsection \<open>The object literal as a JavaScript value\<close>

text \<open>
  \<open>configureWebpack\<close> (lines 5--20) as the value the file evaluates to, which is
  what webpack's \<open>RuleSet\<close> reads: the regular expression literal of line 8, the
  use objects of lines 10--15 and 16, the rule object of lines 7--18, the \<open>module\<close>
  object of lines 6--19.
\<close>

definition svg_test_literal :: js_value where
  "svg_test_literal = JRegExp svg_test_source svg_test_flags"

definition svg_sprite_loader_js :: js_value where
  "svg_sprite_loader_js =
     JObj [(''loader'', JStr ''svg-sprite-loader''), (''options'', svg_sprite_loader_options)]"

definition svgo_loader_js :: js_value where
  "svgo_loader_js = JStr ''svgo-loader''"

definition svg_use_js :: js_value where
  "svg_use_js = JArr [svg_sprite_loader_js, svgo_loader_js]"

definition svg_rule_js :: js_value where
  "svg_rule_js = JObj [(''test'', svg_test_literal), (''use'', svg_use_js)]"

definition configureWebpack_module_js :: js_value where
  "configureWebpack_module_js = JObj [(''rules'', JArr [svg_rule_js])]"

definition configureWebpack_js :: js_value where
  "configureWebpack_js = JObj [(''module'', configureWebpack_module_js)]"

text \<open>
  The whole export (lines 1--21) as Vue CLI's \<open>loadUserOptions\<close> receives it: the
  arrow function of lines 2--4 and the object of lines 5--20.
\<close>

definition vue_config_exports :: "(string \<times> opt_value) list" where
  "vue_config_exports = [(''chainWebpack'', OFunction chainWebpack), (''configureWebpack'', OValue configureWebpack_js)]"

section \<open>What webpack makes of the rule\<close>

text \<open>The two \<open>use\<close> entries after webpack's normalisation.\<close>

definition svg_sprite_entry :: loader_entry where
  "svg_sprite_entry = \<lparr>le_loader = ''svg-sprite-loader'', le_options = Some svg_sprite_loader_options\<rparr>"

definition svgo_entry :: loader_entry where
  "svgo_entry = \<lparr>le_loader = ''svgo-loader'', le_options = None\<rparr>"

text \<open>The loaders the rule contributes for a resource path.\<close>

definition svg_loaders :: "resource_path \<Rightarrow> loader_entry list" where
  "svg_loaders p = (if js_test svg_test p then [svg_sprite_entry, svgo_entry] else [])"

section \<open>Lemmas: the options\<close>

lemma js_truthy_svg_sprite_loader_options [simp]: "js_truthy svg_sprite_loader_options"
  by (simp add: svg_sprite_loader_options_def)

lemma cc_rules_chainWebpack: "cc_rules (chainWebpack c) = cm_delete ''svg'' (cc_rules c)"
  by (simp add: chainWebpack_def)

lemma chainWebpack_plain: "cm_plain h (cc_rules c) \<Longrightarrow> cm_plain h (cc_rules (chainWebpack c))"
  by (simp add: cc_rules_chainWebpack cm_plain_delete)

lemma chainWebpack_wf: "cm_wf (cc_rules c) \<Longrightarrow> cm_wf (cc_rules (chainWebpack c))"
  by (simp add: cc_rules_chainWebpack cm_delete_wf)

lemma normalize_svg_rule:
  "normalize_rule svg_rule =
     Inr \<lparr>nr_test = Some svg_test, nr_enforce = None, nr_use = [svg_sprite_entry, svgo_entry]\<rparr>"
  by (simp add: normalize_rule_def svg_rule_def svg_rule_use_def svg_sprite_loader_use_def svgo_loader_use_def
      normalize_use_item_string_def svg_sprite_entry_def svgo_entry_def)

lemma svg_test_Nil: "\<not> js_test svg_test []"
  by (simp add: svg_test_def regex_simps)

lemma rule_matches_svg_rule:
  "rule_matches \<lparr>nr_test = Some svg_test, nr_enforce = None, nr_use = us\<rparr> p = js_test svg_test p"
  using svg_test_Nil by (cases p) (simp_all add: rule_matches_def)

section \<open>Lemmas: the pattern\<close>

lemma svg_body_lang:
  "w \<in> lang False (re_body svg_test) \<longleftrightarrow>
     (\<exists>q. w = ''.svg'' @ q \<and> (q = [] \<or> (\<exists>r. q = CHR ''?'' # r \<and> (\<forall>c\<in>set r. \<not> line_terminator c))))"
  by (auto simp: svg_test_def in_kleene_chars)

lemma js_test_svg_test_search:
  "js_test svg_test s \<longleftrightarrow>
     (\<exists>p t. s = p @ t \<and> t \<in> lang False (re_body svg_test))"
proof -
  have "re_anchor_end svg_test" "\<not> re_anchor_start svg_test" "\<not> re_ignore_case svg_test"
    by (simp_all add: svg_test_def)
  then show ?thesis by (simp add: js_test_end_anchored)
qed

lemma svg_test_no_query:
  assumes "CHR ''?'' \<notin> set p"
  shows "js_test svg_test p \<longleftrightarrow> (\<exists>x. p = x @ ''.svg'')"
  using assms by (auto simp: js_test_svg_test_search svg_body_lang)

section \<open>Lemmas: the service with these options\<close>

lemma base_svg_test_eq: "base_svg_test = svg_test"
  by (simp add: base_svg_test_def asset_test_def query_suffix_def svg_test_def)

lemma normalize_chainWebpack_base_rules:
  "normalize_rules (module_rules (chain_to_config (chainWebpack (vue_base_chain empty_chain)))) =
     Inr [vue_nrule, images_nrule, media_nrule, fonts_nrule]"
  by (simp add: cc_rules_chainWebpack chain_to_config_rules vue_base_chain_rules to_config_defs
      base_nrule_defs)

lemma normalize_configureWebpack:
  "normalize_rules (module_rules configureWebpack) =
     Inr [\<lparr>nr_test = Some svg_test, nr_enforce = None, nr_use = [svg_sprite_entry, svgo_entry]\<rparr>]"
  by (simp add: configureWebpack_def svg_rules_def normalize_rules_def normalize_svg_rule)

text \<open>The rules webpack ends up with under the project's options.\<close>

lemma normalize_service_rules:
  "normalize_rules (module_rules (service_webpack_config vue_config)) =
     Inr [vue_nrule, images_nrule, media_nrule, fonts_nrule,
          \<lparr>nr_test = Some svg_test, nr_enforce = None, nr_use = [svg_sprite_entry, svgo_entry]\<rparr>]"
proof -
  have "normalize_rules (module_rules (service_webpack_config vue_config)) =
      traverse_sum normalize_rule
        (module_rules (chain_to_config (chainWebpack (vue_base_chain empty_chain))) @ module_rules configureWebpack)"
    by (simp add: vue_config_def service_webpack_config_both webpack_merge_def normalize_rules_def)
  also have "\<dots> = Inr [vue_nrule, images_nrule, media_nrule, fonts_nrule,
          \<lparr>nr_test = Some svg_test, nr_enforce = None, nr_use = [svg_sprite_entry, svgo_entry]\<rparr>]"
    using normalize_chainWebpack_base_rules normalize_configureWebpack
    by (simp add: traverse_sum_append normalize_rules_def)
  finally show ?thesis .
qed

text \<open>The tests of the rules webpack ends up with, before normalisation.\<close>

lemma service_rule_tests:
  "map rule_test (module_rules (service_webpack_config vue_config)) =
     [Some vue_test, Some images_test, Some media_test, Some fonts_test, Some svg_test]"
  by (simp add: vue_config_def service_webpack_config_both webpack_merge_def cc_rules_chainWebpack
      chain_to_config_rules vue_base_chain_rules to_config_defs configureWebpack_def svg_rules_def svg_rule_def)

text \<open>
  The loaders of every request under the project's options: those of the base rules
  that remain, then those of the project's rule.
\<close>

lemma service_request_loaders:
  "request_loaders (service_webpack_config vue_config) req =
     Inr (module_loaders [vue_nrule, images_nrule, media_nrule, fonts_nrule] (fst (split_resource req))
          @ svg_loaders (fst (split_resource req)))"
proof -
  let ?p = "fst (split_resource req)"
  let ?svg = "\<lparr>nr_test = Some svg_test, nr_enforce = None, nr_use = [svg_sprite_entry, svgo_entry]\<rparr>"
  let ?base = "[vue_nrule, images_nrule, media_nrule, fonts_nrule]"
  have normal: "list_all (\<lambda>nr. nr_enforce nr = None) (?base @ [?svg])"
    and normal_base: "list_all (\<lambda>nr. nr_enforce nr = None) ?base"
    by (simp_all add: base_nrule_defs)
  have "request_loaders (service_webpack_config vue_config) req = Inr (module_loaders (?base @ [?svg]) ?p)"
    by (simp add: vue_config_def service_webpack_config_both request_loaders_merge
        normalize_chainWebpack_base_rules normalize_configureWebpack)
  also have "module_loaders (?base @ [?svg]) ?p = module_loaders ?base ?p @ svg_loaders ?p"
    using module_loaders_all_normal [OF normal] module_loaders_all_normal [OF normal_base]
    by (simp add: matched_uses_append matched_uses_Cons rule_matches_svg_rule svg_loaders_def)
  finally show ?thesis .
qed

lemma base_loaders_svg_ext:
  assumes "CHR ''?'' \<notin> set p" and "ext = ''svg'' \<or> ext = ''SVG''"
  shows "module_loaders [vue_nrule, images_nrule, media_nrule, fonts_nrule] (p @ CHR ''.'' # ext) = []"
  using base_tests_reject_svg [OF assms]
  by (simp add: module_loaders_def uses_with_def matched_uses_def rule_matches_def base_nrule_defs)

lemma svg_test_rejects_upper:
  assumes "CHR ''?'' \<notin> set p"
  shows "\<not> js_test svg_test (p @ ''.SVG'')"
proof
  assume "js_test svg_test (p @ ''.SVG'')"
  with assms obtain x where "p @ ''.SVG'' = x @ ''.svg''"
    by (auto simp: svg_test_no_query)
  then have "''.SVG'' = ''.svg''" by (simp add: append_eq_append_conv)
  then show False by simp
qed

lemma chainWebpack_empty: "chainWebpack empty_chain = empty_chain"
  by (simp add: chainWebpack_def empty_chain_def cm_empty_def)

text \<open>
  loader-runner on the rule's two loaders, whose modules have a normal function and no
  pitch: the file is read, then \<open>svgo-loader\<close> runs, then
  \<open>svg-sprite-loader\<close>; the first error ends the run.
\<close>

lemma run_loaders_full_svg:
  assumes "impl svg_sprite_entry = \<lparr>li_normal = Some sprite, li_pitch = None\<rparr>"
    and "impl svgo_entry = \<lparr>li_normal = Some svgo, li_pitch = None\<rparr>"
  shows "run_loaders_full impl [svg_sprite_entry, svgo_entry] read =
           (case read of Inl e \<Rightarrow> Inl e
            | Inr c \<Rightarrow> (case svgo c of Inl e \<Rightarrow> Inl e | Inr c' \<Rightarrow> sprite c'))"
  using assms
  by (simp add: run_loaders_full_def pitch_phase_at pitch_phase_past split: sum.split)

section \<open>Lemmas: webpack's rule set on the object literal\<close>

lemma configureWebpack_js_rules:
  "Option.bind (js_get configureWebpack_js ''module'') (\<lambda>m. js_get m ''rules'') = Some (JArr [svg_rule_js])"
  by (simp add: configureWebpack_js_def configureWebpack_module_js_def js_get_def)

text \<open>The two translations of the use list agree: the raw one read by \<open>RuleSet\<close>, the typed one.\<close>

lemma normalize_svg_use_js: "normalize_use_js svg_use_js = traverse_sum normalize_use_item svg_rule_use"
  by (simp add: svg_use_js_def svg_sprite_loader_js_def svgo_loader_js_def svg_rule_use_def
      svg_sprite_loader_use_def svgo_loader_use_def js_get_def opt_truthy_def js_or_def
      svg_sprite_loader_options_def)

lemma normalize_svg_rule_js:
  "normalize_rules_js (JArr [svg_rule_js]) =
     Inr [RsRule (Some (CRegExp svg_test)) None [svg_sprite_entry, svgo_entry] [] []]"
  by (simp add: svg_rule_js_def svg_test_literal_def svg_use_js_def svg_sprite_loader_js_def
      svgo_loader_js_def svg_test_source_def svg_test_flags_def svg_test_def svg_sprite_entry_def
      svgo_entry_def svg_sprite_loader_options_def normalize_use_item_string_def
      rule_resource_def rule_loader_use_def js_get_def opt_truthy_def js_or_def js_object_def
      combine_matchers_def cons_result_def enforce_of_def) code_simp

lemma rs_module_loaders_svg:
  "rs_module_loaders [RsRule (Some (CRegExp svg_test)) None [svg_sprite_entry, svgo_entry] [] []] p =
     svg_loaders p"
  using svg_test_Nil
  by (cases p) (simp_all add: rs_module_loaders_def rs_exec_def uses_with_def svg_loaders_def)

end
