(* ===== verification/Spec2Isabelle.thy ===== *)
theory Spec2Isabelle
  imports Vue_Config
begin

text \<open>
  \<^bold>\<open>What is verified.\<close> The repository is one file, \<open>src/vue.config.js\<close>: the
  project options of a Vue CLI 4 application. \<open>chainWebpack\<close> (lines 2--4)
  deletes the base configuration's rule named \<open>svg\<close>; \<open>configureWebpack\<close>
  (lines 5--20) adds a rule that sends files matching \<open>/\.(svg)(\?.*)?$/\<close> through
  \<open>svg-sprite-loader\<close> (options \<open>{runtimeCompat: true}\<close>) and \<open>svgo-loader\<close>.
  The file has no logic of its own; what it means is decided by the tools that read it.
  So the development models the file together with the parts of those tools that give
  it its meaning, and proves what the build does with every request.

  \<^bold>\<open>The parts and how they interact.\<close>
  \<^enum> The Vue CLI service runs its base configuration's chain function, then the project's
    \<open>chainWebpack\<close>, on a webpack-chain \<open>Config\<close>. It converts the result with
    \<open>toConfig()\<close> and merges the \<open>configureWebpack\<close> object into it with
    webpack-merge, which appends arrays.
  \<^enum> webpack normalises each rule's \<open>use\<close> list (failing at start-up on a malformed
    entry). For each request it cuts off the query at the first \<open>?\<close>, tests every
    rule's \<open>test\<close> regex on the resource path, and collects the matching rules'
    loaders in rule order (post, normal, pre).
  \<^enum> loader-runner visits the loaders' pitch functions from the first to the last,
    reads the file, then runs their normal functions from the last to the first.
  \<^enum> A rule's \<open>test\<close> is decided by the JavaScript engine's
    \<open>RegExp.prototype.test\<close>.

  \<^bold>\<open>Theories.\<close>
  \<^item> \<open>Prelude\<close>: type names (\<open>js_string\<close>, \<open>resource_path\<close>, ...), the
    simp-rule collections \<open>regex_simps\<close> and \<open>config_simps\<close>, and generic facts
    on prefix/suffix splits, on \<open>takeWhile\<close>/\<open>dropWhile\<close> at a separator, and on
    file extensions (\<open>dot_suffix_ext\<close>).
  \<^item> \<open>JS_Regex\<close>: the pattern syntax (\<open>rexp\<close>, \<open>js_regex\<close> with anchors and
    the \<open>i\<close> flag), its language \<open>lang\<close>, and the promise of \<open>test\<close>
    (\<open>regex_search\<close>). The engine is modelled as \<open>js_test\<close>, which tries every
    start index like \<open>RegExpBuiltinExec\<close>, with an executable Brzozowski-derivative
    matcher. \<open>matcher_correct\<close> and \<open>js_test_correct\<close> prove that the
    executable engine refines the language semantics.
  \<^item> \<open>Regex_Syntax\<close>: the text of a literal. \<open>parse_pattern\<close> parses the pattern
    between the slashes (a mutual recursion \<open>parse_disj\<close>/\<open>parse_alt\<close>/
    \<open>parse_atom\<close> on fuel, the anchors, an end \<open>$\<close> counted as an anchor only
    when an even run of backslashes precedes it) and the flags; \<open>print_pattern\<close> and
    \<open>print_flags\<close> write a pattern back as text. The lemmas prove that the fuel
    given is enough (\<open>parse_fuel_stable\<close>, \<open>parse_fuel_enough\<close>), that the
    parser returns patterns in the forms \<open>is_disj\<close> (\<open>parse_forms\<close>), and the
    round trip: parsing the printed text of such a pattern gives it back
    (\<open>parse_print_rexp\<close> at every grammar level, \<open>parse_print_pattern\<close>,
    \<open>reparse_print_pattern\<close>).
  \<^item> \<open>Chain_Map\<close>: the JavaScript \<open>Map\<close> under webpack-chain's
    \<open>ChainedMap\<close>, as an association list (\<open>cm_get\<close>, \<open>cm_set\<close>,
    \<open>cm_delete\<close>, \<open>cm_keys\<close>, \<open>cm_values\<close>, \<open>cm_get_or_compute\<close>). The
    invariant \<open>cm_wf\<close> (distinct keys) is preserved by every operation, and each
    operation refines the matching update of the abstract map \<open>map_of\<close>.
    \<open>values()\<close> goes through \<open>order()\<close> (\<open>cm_order\<close>: \<open>Object.keys\<close> order,
    then one \<open>order_step\<close> per name moving entries with \<open>.before\<close>/\<open>.after\<close>
    hints by \<open>indexOf\<close> and \<open>splice\<close>), and the \<open>Orderable\<close> setters throw on
    a conflicting hint (\<open>orderable_before\<close>, \<open>orderable_after\<close>). The lemmas prove
    the order a permutation of the keys, equal to insertion order without hints
    (\<open>cm_ordered_values_plain\<close>), the splices equal to \<open>insert_before\<close>/
    \<open>insert_after\<close>, and when a \<open>delete\<close> commutes with it
    (\<open>cm_order_cm_delete\<close>).
  \<^item> \<open>Webpack_Rules\<close>: configuration values (\<open>js_value\<close>, \<open>use_item\<close>,
    \<open>rule\<close>, \<open>webpack_config\<close>), \<open>normalize_use_item\<close> with its errors
    \<open>OptionsAndQuery\<close> and \<open>NoLoaderSpecified\<close>, \<open>webpack_merge\<close>,
    \<open>split_resource\<close>, \<open>matched_uses\<close>/\<open>module_loaders\<close>/
    \<open>request_loaders\<close>, and the loader-runner loop \<open>iterate_normal_loaders\<close>.
    The lemmas cover the round trips of request splitting and use-string
    normalisation, the error cases of normalisation, rule matching over appended rule
    lists, and the equivalence of the index loop with \<open>foldr\<close>
    (\<open>run_loaders_foldr\<close>).
  \<^item> \<open>Webpack_RuleSet\<close>: webpack's \<open>lib/RuleSet.js\<close> on raw JavaScript values
    (\<open>js_value\<close>, with truthiness \<open>js_truthy\<close> and property reads \<open>js_get\<close>):
    \<open>normalize_condition\<close>, \<open>normalize_use_js\<close>, \<open>normalize_rule_js\<close>/
    \<open>normalize_rules_js\<close> with the exceptions of \<open>normalizeRule\<close> (one resource
    source, one result source, the \<open>loader\<close>/\<open>loaders\<close>/\<open>options\<close>
    shorthands) as \<open>Inl\<close> values, nested \<open>rules\<close> and \<open>oneOf\<close>, and the query
    \<open>rs_exec\<close> (\<open>_run\<close>). Its recursion through object properties terminates by
    a size measure (\<open>size_map_of_less\<close>). \<open>rs_module_loaders_nrules\<close> proves the
    typed model of \<open>Webpack_Rules\<close> equal to it on rules without nesting.
  \<^item> \<open>Webpack_Merge\<close>: webpack-merge 4's \<open>merge\<close> on JavaScript values
    (\<open>js_merge\<close>: lodash \<open>mergeWith\<close> with \<open>joinArrays\<close>, arrays concatenated,
    plain objects merged key by key, anything else replaced). The lemmas give its
    lookups (\<open>js_get_merge_obj\<close>), its key order, and that on \<open>module.rules\<close> it
    is the typed \<open>webpack_merge\<close> (\<open>module_rules_js_merge\<close>).
  \<^item> \<open>Loader_Runner\<close>: loader-runner's \<open>runLoaders\<close> as the step relation
    \<open>lr_step\<close>, one rule per branch of \<open>iteratePitchingLoaders\<close>,
    \<open>processResource\<close> and \<open>iterateNormalLoaders\<close>, on a state with the loader
    index, the \<open>pitchExecuted\<close>/\<open>normalExecuted\<close> flags and the phase. The
    lemmas prove the relation deterministic, the invariant \<open>lr_inv\<close> (flags per
    loader, index in range) preserved with progress (\<open>lr_progress\<close>), that every run
    from \<open>lr_init\<close> reaches the result of the recursive reference
    \<open>run_loaders_full\<close> (\<open>lr_init_reach\<close>, \<open>lr_init_result\<close>), and that
    without pitches the reference is \<open>run_loaders\<close> (\<open>pitch_phase_plain\<close>).
  \<^item> \<open>Vue_Cli\<close>: the chainable configuration (\<open>chain_config\<close>), the builder
    calls (\<open>module_rule\<close>, \<open>define_rule\<close>, ...), \<open>toConfig\<close>
    (\<open>chain_to_config\<close>), the asset rules of \<open>lib/config/base.js\<close>
    (\<open>vue_base_chain\<close>), and the service's composition
    (\<open>resolve_chainable_config\<close>, \<open>resolve_webpack_config\<close>,
    \<open>service_webpack_config\<close>), where each \<open>configureWebpack\<close> entry is an
    object or a function (\<open>raw_config\<close>) and the loop of
    \<open>resolveWebpackConfig\<close> keeps a function's in-place changes and merges its
    result when it is truthy. It proves that no base asset rule other than
    \<open>svg\<close> matches a path ending in \<open>.svg\<close> or \<open>.SVG\<close>, and that each
    base pattern is what its source text in \<open>base.js\<close> parses to, and that on a path
    without \<open>?\<close> each pattern fixes the extension after the last dot
    (\<open>asset_test_last_ext\<close> and its instances).
  \<^item> \<open>Vue_Options\<close>: how the service reads the file (\<open>Service.loadUserOptions\<close>):
    the export as an object, a function or anything else (\<open>file_export\<close>), the joi
    schema of \<open>lib/options.js\<close> (\<open>vue_options_schema\<close>, \<open>type_ok\<close>), its
    checks in schema order and then for unknown keys (\<open>validate_options\<close>), the
    composition \<open>load_user_options\<close> with its fatal and non-fatal errors, and the two
    hooks the service registers (\<open>project_hooks\<close>).
  \<^item> \<open>Vue_Config\<close>: the translation of \<open>src/vue.config.js\<close>, one definition per
    field of the exported object, and \<open>configureWebpack\<close> once more as the raw value
    \<open>configureWebpack_js\<close> that the file evaluates to. Its lemmas give the language of the rule's pattern
    and the loaders of every request under the project's options
    (\<open>service_request_loaders\<close>).
  \<^item> \<open>Spec2Isabelle\<close> (this theory): the properties of the program, C1--C16.

  \<^bold>\<open>The properties.\<close> C1: a request for \<open>*.svg\<close>, with or without a
  query, gets exactly \<open>svg-sprite-loader\<close> with \<open>{runtimeCompat: true}\<close>, then
  \<open>svgo-loader\<close>. C2: \<open>file-loader\<close>, the default SVG rule's loader, is in no
  request's loader list (\<open>url-loader\<close> of the image, media and font rules may still
  call it internally as its fallback for large files; that happens inside a loader and
  is not a loader of the list). C3: every request the rule's pattern rejects is handled
  as without the project options. C4: the exact language of the regex literal.
  C5: \<open>chainWebpack\<close> removes the \<open>svg\<close> rule and only it, keeping the map's
  keys distinct and the other entries in order. C6, C9: the loaders run
  \<open>svgo-loader\<close> first; the result is \<open>sprite (svgo file)\<close> for every loader
  behaviour. C7: on a path without \<open>?\<close> the rule's query group never takes part
  in a match. C8: \<open>*.SVG\<close> files get no loader. C10: loader-runner on the rule's
  loaders finishes, with the file read, passed through \<open>svgo-loader\<close> then
  \<open>svg-sprite-loader\<close>, or the first error. C11: for every path, the loaders of
  webpack's \<open>RuleSet\<close> reading of the object literal are \<open>svg_loaders\<close>, so
  C1--C10 are about what webpack reads. C12: without \<open>chainWebpack\<close> an SVG
  would also go through \<open>file-loader\<close>, so line 3 is needed. C13: at most one
  rule of the resolved configuration applies to any request. C14: whatever ordering
  hints other plugins put on rules, \<open>chainWebpack\<close> leaves the emitted order of
  the other rules unchanged unless one is ordered relative to \<open>svg\<close> (or before
  itself). C15: merged into any configuration value, \<open>configureWebpack\<close>
  appends its rule to \<open>module.rules\<close> and changes no other field; C16: on the
  rules webpack reads this is the typed model's \<open>webpack_merge\<close>.
  C6, C7 and C8 are recorded as findings in the manifest, with two more: the removal
  works only because the service runs the project's \<open>chainWebpack\<close> after the
  base configuration's (before it there is no \<open>svg\<close> rule to delete), and a rule
  hinted relative to \<open>svg\<close> may be emitted elsewhere once \<open>svg\<close> is deleted,
  a case C14's proviso excludes (\<open>cm_order_cm_delete\<close>).

  \<^bold>\<open>Loops, bounds and fuel.\<close> Every function is total by structural recursion:
  derivatives on the pattern, \<open>derivs\<close> and \<open>traverse_sum\<close> on lists, and the
  loader loop on the loader index, which starts at the number of loaders and decreases;
  the reference \<open>pitch_phase\<close> terminates by the measure \<open>length ls - i\<close>,
  \<open>js_split\<close> by the length of the string, the rule set's reading by the size of
  the value read.
  loader-runner's own loop is a relation, so that it finishes is a theorem
  (\<open>lr_init_reach\<close>, C10), proved by induction on that measure.
  The one use of fuel is the pattern parser: a call chain goes through at most three
  parser levels per character consumed, so \<open>parse_pattern\<close> gives three units per
  character plus three. \<open>parse_fuel_stable\<close> proves this enough for every input:
  with that much fuel or more the result is the same, so running out of fuel never
  decides a parse (\<open>parse_fuel_enough\<close>); an atom consumes a character and no level
  makes the input longer (\<open>parse_rest_length\<close>). The configuration has no machine
  integers.

  \<^bold>\<open>Not modelled.\<close> What \<open>svg-sprite-loader\<close> and \<open>svgo-loader\<close> do
  to the content (a loader's effect is an arbitrary function); the service's own
  \<open>pug\<close> rule (\<open>lib/config/base.js\<close>) and style rules
  (\<open>lib/config/css.js\<close>: css, postcss, scss, sass, less, stylus), whose
  \<open>oneOf\<close> branches the rule model has no constructor for and whose tests match
  neither \<open>.svg\<close> nor \<open>.SVG\<close>, so C1--C3, C8 and C13 are stated for the modelled
  rules; the rules of plugins (babel, eslint, typescript), since the repository ships no
  \<open>package.json\<close> and which plugins a build installs is not known from it; webpack's inline loaders,
  function-valued conditions and uses, the \<open>issuer\<close>/\<open>resourceQuery\<close>
  conditions and the references table of object options; loader-runner's \<open>loadLoader\<close> failures, raw
  argument conversion and callbacks; webpack-chain's
  \<open>merge\<close>, \<open>when\<close> and \<open>batch\<close>; the fields of the resolved webpack
  configuration other than \<open>module.rules\<close> (so a function-valued
  \<open>configureWebpack\<close> is modelled on the rule list it sees and changes, and the
  service's configuration is not one JavaScript value: C15 and C16 relate the raw
  merge to the typed one instead) and \<open>validateWebpackConfig\<close>;
  webpack-merge's \<open>customizeArray\<close>/\<open>customizeObject\<close> variants (Vue CLI does not
  use them) and values the model has no constructor for (functions, class instances,
  \<open>undefined\<close>), as well as the numeric-key ordering of plain objects there;
  regex syntax the configuration does not use; and non-ASCII characters, since
  \<open>char\<close> is a byte, so U+2028/U+2029 are not line terminators of the model.
\<close>

section \<open>Example chains with ordering hints\<close>

text \<open>
  Chainable configurations as other plugins could leave them, with \<open>.before\<close> and
  \<open>.after\<close> hints on their rules, for the properties of ordering below.
\<close>

definition hinted_rule :: "string option \<Rightarrow> string option \<Rightarrow> chain_rule" where
  "hinted_rule b a = new_rule\<lparr>cr_before := b, cr_after := a\<rparr>"

definition hinted_chain :: chain_config where
  "hinted_chain = \<lparr>cc_rules = [(''vue'', hinted_rule None None), (''svg'', hinted_rule (Some ''vue'') None),
                               (''pug'', hinted_rule None (Some ''vue''))]\<rparr>"


section \<open>How the project's options route SVG files\<close>

text \<open>
  C1. A request for a file whose name ends in \<open>.svg\<close> (with or without a query) is
  handled by exactly two loaders: \<open>svg-sprite-loader\<close> with the options
  \<open>{runtimeCompat: true}\<close>, then \<open>svgo-loader\<close> without options. No loader of the
  base configuration is involved.
\<close>

theorem svg_requests_use_sprite_and_svgo:
  assumes "CHR ''?'' \<notin> set p" and "q = [] \<or> hd q = CHR ''?''"
  shows "request_loaders (service_webpack_config vue_config) (p @ ''.svg'' @ q) =
           Inr [svg_sprite_entry, svgo_entry]"
proof -
  have path: "fst (split_resource (p @ ''.svg'' @ q)) = p @ ''.svg''"
    using split_resource_of_parts [of "p @ ''.svg''" q] assms by simp
  have base: "module_loaders [vue_nrule, images_nrule, media_nrule, fonts_nrule] (p @ ''.svg'') = []"
    using base_loaders_svg_ext [OF assms(1), of "''svg''"] by simp
  have "js_test svg_test (p @ ''.svg'')"
    using assms(1) by (simp add: svg_test_no_query)
  then show ?thesis
    unfolding service_request_loaders path by (simp add: base svg_loaders_def)
qed

theorem svg_requests_use_sprite_and_svgo_witness:
  "request_loaders (service_webpack_config vue_config) (''src/icons/logo'' @ ''.svg'' @ ''?inline'') =
     Inr [svg_sprite_entry, svgo_entry]"
  by (rule svg_requests_use_sprite_and_svgo) simp_all

text \<open>
  C2. The default SVG rule is never applied: for no request does the resolved
  configuration use \<open>file-loader\<close>, the loader of the base configuration's
  \<open>svg\<close> rule. (\<open>url-loader\<close> of the other asset rules may still call
  \<open>file-loader\<close> internally as its fallback for large files; that call is not a
  loader of the request's list.)
\<close>

theorem file_loader_never_applied:
  assumes "request_loaders (service_webpack_config vue_config) req = Inr ls"
  shows "''file-loader'' \<notin> le_loader ` set ls"
proof -
  let ?p = "fst (split_resource req)"
  let ?base = "[vue_nrule, images_nrule, media_nrule, fonts_nrule]"
  have ls: "ls = module_loaders ?base ?p @ svg_loaders ?p"
    using assms by (simp add: service_request_loaders)
  have "set (module_loaders ?base ?p) \<subseteq> set (concat (map nr_use ?base))"
    by (rule set_module_loaders)
  with ls show ?thesis
    by (auto simp: base_nrule_defs svg_loaders_def svg_sprite_entry_def svgo_entry_def)
qed

theorem file_loader_never_applied_witness:
  "''file-loader'' \<notin> le_loader ` set
     (module_loaders [vue_nrule, images_nrule, media_nrule, fonts_nrule]
        (fst (split_resource ''src/assets/logo.svg''))
      @ svg_loaders (fst (split_resource ''src/assets/logo.svg'')))"
  by (rule file_loader_never_applied [OF service_request_loaders])

text \<open>
  C3. Every other request is handled exactly as without \<open>vue.config.js\<close>: when the
  rule's pattern does not match the resource path, the loaders are those of Vue CLI's
  base configuration.
\<close>

theorem non_svg_requests_unchanged:
  assumes "\<not> js_test svg_test (fst (split_resource req))"
  shows "request_loaders (service_webpack_config vue_config) req =
           request_loaders (service_webpack_config no_project_options) req"
  using assms
  by (simp add: service_request_loaders default_request_loaders svg_loaders_def module_loaders_def
      matched_uses_Cons rule_matches_def base_svg_nrule_def base_svg_test_eq)

theorem non_svg_requests_unchanged_witness:
  "request_loaders (service_webpack_config vue_config) ''src/App.vue'' =
     request_loaders (service_webpack_config no_project_options) ''src/App.vue''"
  by (rule non_svg_requests_unchanged)
    (simp add: split_resource_def svg_test_def regex_simps line_terminator_def)

section \<open>The rule's pattern\<close>

text \<open>
  C4. The pattern \<open>/\.(svg)(\?.*)?$/\<close> of line 8 accepts a string exactly when it
  ends in \<open>.svg\<close>, or in \<open>.svg?\<close> followed by characters none of which is a line
  terminator.
\<close>

theorem svg_test_iff:
  "js_test svg_test s \<longleftrightarrow>
     (\<exists>p q. s = p @ ''.svg'' @ q \<and>
        (q = [] \<or> (\<exists>r. q = CHR ''?'' # r \<and> (\<forall>c\<in>set r. \<not> line_terminator c))))"
  by (auto simp: js_test_svg_test_search svg_body_lang)

theorem svg_test_iff_witness: "js_test svg_test ''icon.svg?v=2''"
proof -
  have "''icon.svg?v=2'' = ''icon'' @ ''.svg'' @ CHR ''?'' # ''v=2''" by simp
  moreover have "\<forall>c\<in>set ''v=2''. \<not> line_terminator c" by (simp add: line_terminator_def)
  ultimately show ?thesis using svg_test_iff [of "''icon.svg?v=2''"] by blast
qed

text \<open>
  C7. Webpack matches \<open>test\<close> against the resource path, which never contains
  \<open>?\<close>: on every request the pattern behaves as \<open>/\.svg$/\<close>, and its optional
  query group \<open>(\?.*)?\<close> never takes part in a match.
\<close>

theorem svg_query_group_unused:
  "js_test svg_test (fst (split_resource req)) \<longleftrightarrow> (\<exists>x. fst (split_resource req) = x @ ''.svg'')"
  using split_resource_path [of req] by (rule svg_test_no_query)

text \<open>
  C8. The pattern is case-sensitive and so is every base rule for \<open>.svg\<close>: a file
  named \<open>*.SVG\<close> gets no loader at all under the project's options.
\<close>

theorem uppercase_svg_gets_no_loader:
  assumes "CHR ''?'' \<notin> set p"
  shows "request_loaders (service_webpack_config vue_config) (p @ ''.SVG'') = Inr []"
proof -
  have path: "fst (split_resource (p @ ''.SVG'')) = p @ ''.SVG''"
    using split_resource_of_parts [of "p @ ''.SVG''" "[]"] assms by simp
  have base: "module_loaders [vue_nrule, images_nrule, media_nrule, fonts_nrule] (p @ ''.SVG'') = []"
    using base_loaders_svg_ext [OF assms, of "''SVG''"] by simp
  have "\<not> js_test svg_test (p @ ''.SVG'')"
    using assms by (rule svg_test_rejects_upper)
  then show ?thesis
    unfolding service_request_loaders path by (simp add: base svg_loaders_def)
qed

theorem uppercase_svg_gets_no_loader_witness:
  "request_loaders (service_webpack_config vue_config) (''src/icons/Logo'' @ ''.SVG'') = Inr []"
  by (rule uppercase_svg_gets_no_loader) simp

section \<open>chainWebpack\<close>

text \<open>
  C5. On a well-formed rule map, \<open>chainWebpack\<close> removes the rule named \<open>svg\<close>
  and nothing else: the map stays well-formed, as a partial function it is the old one
  with \<open>svg\<close> undefined, and the remaining rules keep their order.
\<close>

theorem chainWebpack_removes_only_svg:
  assumes "cm_wf (cc_rules c)"
  shows "cm_wf (cc_rules (chainWebpack c))
         \<and> map_of (cc_rules (chainWebpack c)) = (map_of (cc_rules c))(''svg'' := None)
         \<and> cm_keys (cc_rules (chainWebpack c)) = filter (\<lambda>k. k \<noteq> ''svg'') (cm_keys (cc_rules c))"
proof (intro conjI)
  show "cm_wf (cc_rules (chainWebpack c))"
    using assms by (rule chainWebpack_wf)
  show "map_of (cc_rules (chainWebpack c)) = (map_of (cc_rules c))(''svg'' := None)"
    using assms by (simp add: cc_rules_chainWebpack map_of_cm_delete)
  show "cm_keys (cc_rules (chainWebpack c)) = filter (\<lambda>k. k \<noteq> ''svg'') (cm_keys (cc_rules c))"
    using assms by (simp add: cc_rules_chainWebpack cm_delete_filter cm_keys_def filter_map comp_def)
qed

theorem chainWebpack_removes_only_svg_witness:
  "cm_keys (cc_rules (chainWebpack (vue_base_chain empty_chain))) = [''vue'', ''images'', ''media'', ''fonts'']"
  using chainWebpack_removes_only_svg [OF vue_base_chain_wf]
  by (simp add: vue_base_chain_rules cm_keys_def)

section \<open>The loaders at work\<close>

text \<open>
  C6. For an SVG file the loaders' normal phases run \<open>svgo-loader\<close> first and
  \<open>svg-sprite-loader\<close> second: webpack applies a rule's \<open>use\<close> list from the
  last entry to the first.
\<close>

theorem svgo_runs_before_sprite:
  assumes "CHR ''?'' \<notin> set p"
    and "request_loaders (service_webpack_config vue_config) (p @ ''.svg'') = Inr ls"
  shows "execution_order ls = [''svgo-loader'', ''svg-sprite-loader'']"
proof -
  have path: "fst (split_resource (p @ ''.svg'')) = p @ ''.svg''"
    using split_resource_of_parts [of "p @ ''.svg''" "[]"] assms(1) by simp
  have base: "module_loaders [vue_nrule, images_nrule, media_nrule, fonts_nrule] (p @ ''.svg'') = []"
    using base_loaders_svg_ext [OF assms(1), of "''svg''"] by simp
  have "ls = svg_loaders (p @ ''.svg'')"
    using assms(2) unfolding service_request_loaders path by (simp add: base)
  moreover have "js_test svg_test (p @ ''.svg'')"
    using assms(1) by (simp add: svg_test_no_query)
  ultimately show ?thesis
    by (simp add: svg_loaders_def execution_order_rev svg_sprite_entry_def svgo_entry_def)
qed

theorem svgo_runs_before_sprite_witness:
  "execution_order
     (module_loaders [vue_nrule, images_nrule, media_nrule, fonts_nrule]
        (fst (split_resource (''logo'' @ ''.svg'')))
      @ svg_loaders (fst (split_resource (''logo'' @ ''.svg''))))
   = [''svgo-loader'', ''svg-sprite-loader'']"
  by (rule svgo_runs_before_sprite [OF _ service_request_loaders]) simp

text \<open>
  C9. On an SVG path the two loaders compose: the module's source is
  \<open>svg-sprite-loader\<close> applied to the output of \<open>svgo-loader\<close> applied to the file.
\<close>

theorem svg_pipeline_composition:
  assumes "js_test svg_test p"
  shows "run_loaders run (svg_loaders p) c = run svg_sprite_entry (run svgo_entry c)"
  using assms by (simp add: svg_loaders_def run_loaders_foldr)

theorem svg_pipeline_composition_witness:
  "run_loaders (\<lambda>l s. s @ le_loader l) (svg_loaders ''a.svg'') ''<svg/>'' =
     ''<svg/>svgo-loadersvg-sprite-loader''"
proof -
  have "js_test svg_test ''a.svg''"
    by (simp add: svg_test_def regex_simps line_terminator_def)
  from svg_pipeline_composition [OF this, where run = "\<lambda>l s. s @ le_loader l" and c = "''<svg/>''"]
  show ?thesis by (simp add: svg_sprite_entry_def svgo_entry_def)
qed

section \<open>loader-runner on the SVG rule\<close>

text \<open>
  C10. Building an SVG module finishes: when the two loader modules have a normal
  function and no pitch, loader-runner's loop, started on the rule's loaders, reaches
  a finished state whose result is the file's content passed through
  \<open>svgo-loader\<close> and then \<open>svg-sprite-loader\<close>, or the first error on the
  way (reading the file, then \<open>svgo-loader\<close>, then \<open>svg-sprite-loader\<close>).
\<close>

theorem svg_module_build_finishes:
  assumes "js_test svg_test p"
    and "impl svg_sprite_entry = \<lparr>li_normal = Some sprite, li_pitch = None\<rparr>"
    and "impl svgo_entry = \<lparr>li_normal = Some svgo, li_pitch = None\<rparr>"
  shows "\<exists>s. (lr_step impl (svg_loaders p) read)\<^sup>*\<^sup>* (lr_init (svg_loaders p)) s \<and>
           lr_phase s = Finished (case read of Inl e \<Rightarrow> Inl e
                                  | Inr c \<Rightarrow> (case svgo c of Inl e \<Rightarrow> Inl e | Inr c' \<Rightarrow> sprite c'))"
proof -
  have "svg_loaders p = [svg_sprite_entry, svgo_entry]"
    using assms(1) by (simp add: svg_loaders_def)
  with lr_init_reach [of impl "svg_loaders p" read] run_loaders_full_svg [OF assms(2,3)]
  show ?thesis by simp
qed

theorem svg_module_build_finishes_witness:
  "\<exists>s. (lr_step (\<lambda>l. if l = svg_sprite_entry then \<lparr>li_normal = Some (\<lambda>c. Inr (c @ ''S'')), li_pitch = None\<rparr>
                      else \<lparr>li_normal = Some (\<lambda>c. Inr (c @ ''O'')), li_pitch = None\<rparr>)
          (svg_loaders ''a.svg'') (Inr ''x''))\<^sup>*\<^sup>* (lr_init (svg_loaders ''a.svg'')) s \<and>
       lr_phase s = Finished (Inr ''xOS'')"
proof -
  have "js_test svg_test ''a.svg''"
    by (simp add: svg_test_def regex_simps line_terminator_def)
  from svg_module_build_finishes [OF this, of "\<lambda>l. if l = svg_sprite_entry
      then \<lparr>li_normal = Some (\<lambda>c. Inr (c @ ''S'')), li_pitch = None\<rparr>
      else \<lparr>li_normal = Some (\<lambda>c. Inr (c @ ''O'')), li_pitch = None\<rparr>"
      "\<lambda>c. Inr (c @ ''S'')" "\<lambda>c. Inr (c @ ''O'')" "Inr ''x''"]
  show ?thesis by (simp add: svg_sprite_entry_def svgo_entry_def)
qed

section \<open>webpack's rule set on the object literal\<close>

text \<open>
  C11. The typed model that C1--C10 are about is what webpack reads from the literal:
  for every resource path, the loaders that the rule set read from the object give the
  path are the rule's loaders \<open>svg_loaders\<close> of the typed model.
\<close>

theorem rule_set_reading_agrees:
  assumes "Option.bind (js_get configureWebpack_js ''module'') (\<lambda>m. js_get m ''rules'') = Some rules"
    and "normalize_rules_js rules = Inr rs"
  shows "rs_module_loaders rs p = svg_loaders p"
proof -
  from assms(1) configureWebpack_js_rules have "rules = JArr [svg_rule_js]" by simp
  with assms(2) normalize_svg_rule_js
  have "rs = [RsRule (Some (CRegExp svg_test)) None [svg_sprite_entry, svgo_entry] [] []]" by simp
  then show ?thesis by (simp add: rs_module_loaders_svg)
qed

theorem rule_set_reading_agrees_witness:
  "rs_module_loaders [RsRule (Some (CRegExp svg_test)) None [svg_sprite_entry, svgo_entry] [] []] ''logo.svg'' =
     svg_loaders ''logo.svg''"
  by (rule rule_set_reading_agrees [OF configureWebpack_js_rules normalize_svg_rule_js])

section \<open>Why chainWebpack is there\<close>

text \<open>
  C12. Without \<open>chainWebpack\<close>, that is with \<open>configureWebpack\<close> alone, a request
  for \<open>*.svg\<close> would go through three loaders: the base configuration's
  \<open>file-loader\<close> (which turns the file into a URL module) as well as
  \<open>svg-sprite-loader\<close> and \<open>svgo-loader\<close>. Deleting the base rule is what makes
  C1 hold.
\<close>

theorem svg_without_chainWebpack_gets_file_loader:
  assumes "CHR ''?'' \<notin> set p"
  shows "request_loaders (service_webpack_config (vue_config\<lparr>opt_chainWebpack := None\<rparr>)) (p @ ''.svg'') =
           Inr [\<lparr>le_loader = ''file-loader'', le_options = Some (JObj [(''name'', asset_name ''img'')])\<rparr>,
                svg_sprite_entry, svgo_entry]"
proof -
  let ?base = "[vue_nrule, images_nrule, base_svg_nrule, media_nrule, fonts_nrule]"
  let ?svg = "\<lparr>nr_test = Some svg_test, nr_enforce = None, nr_use = [svg_sprite_entry, svgo_entry]\<rparr>"
  have cfg: "service_webpack_config (vue_config\<lparr>opt_chainWebpack := None\<rparr>) =
      webpack_merge (chain_to_config (vue_base_chain empty_chain)) configureWebpack"
    by (simp add: vue_config_def service_webpack_config_def service_chain_fns_def
        service_raw_configs_def resolve_webpack_config_def resolve_chainable_config_def)
  have path: "fst (split_resource (p @ ''.svg'')) = p @ ''.svg''"
    using split_resource_of_parts [of "p @ ''.svg''" "[]"] assms by simp
  have normal: "list_all (\<lambda>nr. nr_enforce nr = None) (?base @ [?svg])"
    by (simp add: base_nrule_defs)
  have svg: "js_test svg_test (p @ ''.svg'')"
    using assms by (simp add: svg_test_no_query)
  have rej: "\<not> js_test vue_test (p @ ''.svg'') \<and> \<not> js_test images_test (p @ ''.svg'')
      \<and> \<not> js_test media_test (p @ ''.svg'') \<and> \<not> js_test fonts_test (p @ ''.svg'')"
    using base_tests_reject_svg [OF assms, of "''svg''"] by simp
  have "request_loaders (service_webpack_config (vue_config\<lparr>opt_chainWebpack := None\<rparr>)) (p @ ''.svg'') =
      Inr (module_loaders (?base @ [?svg]) (p @ ''.svg''))"
    unfolding cfg request_loaders_merge normalize_base_rules normalize_configureWebpack path by simp
  also have "\<dots> = Inr (map snd (matched_uses (?base @ [?svg]) (p @ ''.svg'')))"
    by (simp only: module_loaders_all_normal [OF normal])
  also have "\<dots> = Inr [\<lparr>le_loader = ''file-loader'', le_options = Some (JObj [(''name'', asset_name ''img'')])\<rparr>,
                svg_sprite_entry, svgo_entry]"
    using svg rej
    by (simp add: matched_uses_Cons rule_matches_def base_nrule_defs base_svg_test_eq)
  finally show ?thesis .
qed

theorem svg_without_chainWebpack_gets_file_loader_witness:
  "request_loaders (service_webpack_config (vue_config\<lparr>opt_chainWebpack := None\<rparr>)) (''src/icons/logo'' @ ''.svg'') =
     Inr [\<lparr>le_loader = ''file-loader'', le_options = Some (JObj [(''name'', asset_name ''img'')])\<rparr>,
          svg_sprite_entry, svgo_entry]"
  by (rule svg_without_chainWebpack_gets_file_loader) simp

section \<open>No request is handled twice\<close>

text \<open>
  C13. Under the project's options at most one rule of the resolved configuration
  applies to any request (of the rules the development has: the project's rule and the
  base asset rules): on a path without \<open>?\<close> every rule's pattern fixes the extension
  after the last dot, and the extensions of different rules differ.
\<close>

theorem at_most_one_rule_applies:
  assumes "normalize_rules (module_rules (service_webpack_config vue_config)) = Inr rs"
  shows "length (filter (\<lambda>nr. rule_matches nr (fst (split_resource req))) rs) \<le> 1"
proof -
  let ?p = "fst (split_resource req)"
  have q: "CHR ''?'' \<notin> set ?p" by (rule split_resource_path)
  have v: "js_test vue_test ?p \<Longrightarrow> last_ext ?p = ''vue''" by (rule vue_test_last_ext)
  have i: "js_test images_test ?p \<Longrightarrow> last_ext ?p \<in> {''png'', ''jpg'', ''jpeg'', ''gif'', ''webp''}"
    using q by (rule images_test_last_ext)
  have m: "js_test media_test ?p \<Longrightarrow> last_ext ?p \<in> {''mp4'', ''webm'', ''ogg'', ''mp3'', ''wav'', ''flac'', ''aac''}"
    using q by (rule media_test_last_ext)
  have f: "js_test fonts_test ?p \<Longrightarrow> last_ext ?p \<notin> {''vue'', ''png'', ''jpg'', ''jpeg'', ''gif'', ''webp'', ''svg'',
      ''mp4'', ''webm'', ''ogg'', ''mp3'', ''wav'', ''flac'', ''aac''}"
    using q by (rule fonts_test_last_ext)
  have g: "js_test svg_test ?p \<Longrightarrow> last_ext ?p = ''svg''"
    using q base_svg_test_last_ext [of ?p] by (simp add: base_svg_test_eq)
  from assms normalize_service_rules show ?thesis
    using v i m f g by (auto simp: rule_matches_def base_nrule_defs)
qed

theorem at_most_one_rule_applies_witness:
  "length (filter (\<lambda>nr. rule_matches nr (fst (split_resource ''src/App.vue'')))
     [vue_nrule, images_nrule, media_nrule, fonts_nrule,
      \<lparr>nr_test = Some svg_test, nr_enforce = None, nr_use = [svg_sprite_entry, svgo_entry]\<rparr>]) \<le> 1"
  by (rule at_most_one_rule_applies [OF normalize_service_rules])

section \<open>chainWebpack and the order of the emitted rules\<close>

text \<open>
  C14. Whatever ordering hints the rules carry, the rules \<open>toConfig\<close> emits after
  \<open>chainWebpack\<close> are the rules it would have emitted before, in the same order, with
  the \<open>svg\<close> rule left out, provided that no other rule is ordered relative to
  \<open>svg\<close> and none is ordered before itself.
\<close>

theorem chainWebpack_preserves_rule_order:
  assumes "cm_wf (cc_rules c)"
    and "\<forall>k \<in> set (cm_keys (cc_rules c)). k \<noteq> ''svg'' \<longrightarrow>
           cr_before (the (map_of (cc_rules c) k)) \<noteq> Some ''svg'' \<and>
           cr_after (the (map_of (cc_rules c) k)) \<noteq> Some ''svg'' \<and>
           cr_before (the (map_of (cc_rules c) k)) \<noteq> Some k"
  shows "module_rules (chain_to_config (chainWebpack c)) =
           map (\<lambda>n. rule_to_config (the (map_of (cc_rules c) n)))
             (filter (\<lambda>n. n \<noteq> ''svg'') (cm_order rule_hints (cc_rules c)))"
proof -
  have order: "cm_order rule_hints (cc_rules (chainWebpack c)) =
      filter (\<lambda>n. n \<noteq> ''svg'') (cm_order rule_hints (cc_rules c))"
    using assms by (simp add: cc_rules_chainWebpack cm_order_cm_delete rule_hints_def)
  have "map (\<lambda>n. rule_to_config (the (map_of (cc_rules (chainWebpack c)) n))) (filter (\<lambda>n. n \<noteq> ''svg'') ns) =
        map (\<lambda>n. rule_to_config (the (map_of (cc_rules c) n))) (filter (\<lambda>n. n \<noteq> ''svg'') ns)" for ns
    using assms(1) by (intro map_cong) (simp_all add: cc_rules_chainWebpack map_of_cm_delete)
  then show ?thesis
    by (simp add: chain_to_config_def cm_ordered_values_def order)
qed

theorem chainWebpack_preserves_rule_order_witness:
  "cm_order rule_hints (cc_rules hinted_chain) = [''svg'', ''vue'', ''pug''] \<and>
   module_rules (chain_to_config (chainWebpack hinted_chain)) =
     [rule_to_config (hinted_rule None None), rule_to_config (hinted_rule None (Some ''vue''))]"
proof -
  have order: "cm_order rule_hints (cc_rules hinted_chain) = [''svg'', ''vue'', ''pug'']"
    by (simp add: hinted_chain_def hinted_rule_def new_rule_def rule_hints_def cm_order_def
        js_object_keys_def is_array_index_def cm_keys_def order_step_def
        js_splice_remove1_def js_splice_insert_def js_splice_start_def)
  have "module_rules (chain_to_config (chainWebpack hinted_chain)) =
      map (\<lambda>n. rule_to_config (the (map_of (cc_rules hinted_chain) n)))
        (filter (\<lambda>n. n \<noteq> ''svg'') (cm_order rule_hints (cc_rules hinted_chain)))"
    by (rule chainWebpack_preserves_rule_order)
      (simp_all add: hinted_chain_def hinted_rule_def new_rule_def cm_keys_def)
  with order show ?thesis by (simp add: hinted_chain_def)
qed

section \<open>configureWebpack merged into a full configuration\<close>

text \<open>
  C15. Merged with webpack-merge into any configuration value whose \<open>module.rules\<close>
  is an array, the object of lines 5--20 appends its rule to that array and changes
  nothing else: every other top-level field, and every other field of \<open>module\<close>
  (\<open>noParse\<close>, for instance), keeps its value.
\<close>

theorem configureWebpack_only_appends_rule:
  assumes "module_rules_js base = Some rs"
  shows "module_rules_js (js_merge base configureWebpack_js) = Some (rs @ [svg_rule_js]) \<and>
         (\<forall>k. k \<noteq> ''module'' \<longrightarrow> js_get (js_merge base configureWebpack_js) k = js_get base k) \<and>
         (\<forall>k. k \<noteq> ''rules'' \<longrightarrow>
            Option.bind (js_get (js_merge base configureWebpack_js) ''module'') (\<lambda>m. js_get m k) =
            Option.bind (js_get base ''module'') (\<lambda>m. js_get m k))"
proof -
  obtain m where m: "js_get base ''module'' = Some m" and r: "js_get m ''rules'' = Some (JArr rs)"
    using assms by (auto simp: module_rules_js_def split: option.splits js_value.splits)
  obtain ps where base: "base = JObj ps" using m js_get_Some_obj by blast
  obtain ms where mobj: "m = JObj ms" using r js_get_Some_obj by blast
  have cw: "module_rules_js configureWebpack_js = Some [svg_rule_js]"
    by (simp add: module_rules_js_def configureWebpack_js_def configureWebpack_module_js_def js_get_def)
  have top: "js_get (js_merge base configureWebpack_js) k = js_get base k" if "k \<noteq> ''module''" for k
    using that base by (intro js_get_merge_absent) (simp_all add: configureWebpack_js_def js_get_def)
  have mod: "js_get (js_merge base configureWebpack_js) ''module'' = Some (js_merge m configureWebpack_module_js)"
    using m base by (intro js_get_merge_both) (simp_all add: configureWebpack_js_def js_get_def)
  have inner: "js_get (js_merge m configureWebpack_module_js) k = js_get m k" if "k \<noteq> ''rules''" for k
    using that mobj by (intro js_get_merge_absent) (simp_all add: configureWebpack_module_js_def js_get_def)
  show ?thesis
    using module_rules_js_merge [OF assms cw] top inner mod m by simp
qed

theorem configureWebpack_only_appends_rule_witness:
  "module_rules_js (js_merge (JObj [(''mode'', JStr ''production''),
                                    (''module'', JObj [(''noParse'', JRegExp ''^vue$'' []), (''rules'', JArr [])])])
                    configureWebpack_js) = Some [svg_rule_js] \<and>
   js_get (js_merge (JObj [(''mode'', JStr ''production''),
                           (''module'', JObj [(''noParse'', JRegExp ''^vue$'' []), (''rules'', JArr [])])])
           configureWebpack_js) ''mode'' = Some (JStr ''production'')"
  using configureWebpack_only_appends_rule
    [of "JObj [(''mode'', JStr ''production''),
               (''module'', JObj [(''noParse'', JRegExp ''^vue$'' []), (''rules'', JArr [])])]" "[]"]
  by (simp add: module_rules_js_def js_get_def)

text \<open>
  C16. On the rules webpack reads, the merge is what the typed model's
  \<open>webpack_merge\<close> says: if \<open>RuleSet\<close> reads the rule array of a configuration value
  as the rules \<open>rs\<close>, it reads the rule array of that value merged with the object of
  lines 5--20 as \<open>rs\<close> followed by the rule of lines 7--18.
\<close>

theorem configureWebpack_merge_refines_rules:
  assumes "module_rules_js base = Some xs" and "normalize_rule_list xs = Inr rs"
  shows "\<exists>ys. module_rules_js (js_merge base configureWebpack_js) = Some ys \<and>
           normalize_rule_list ys = Inr (rs @ [RsRule (Some (CRegExp svg_test)) None [svg_sprite_entry, svgo_entry] [] []])"
proof -
  have cw: "module_rules_js configureWebpack_js = Some [svg_rule_js]"
    by (simp add: module_rules_js_def configureWebpack_js_def configureWebpack_module_js_def js_get_def)
  have "normalize_rule_list [svg_rule_js] =
      Inr [RsRule (Some (CRegExp svg_test)) None [svg_sprite_entry, svgo_entry] [] []]"
    using normalize_svg_rule_js by simp
  with module_rules_js_merge [OF assms(1) cw] assms(2) show ?thesis
    by (simp add: normalize_rule_list_append)
qed

theorem configureWebpack_merge_refines_rules_witness:
  "\<exists>ys. module_rules_js (js_merge (JObj [(''module'', JObj [(''rules'', JArr [])])]) configureWebpack_js) = Some ys \<and>
     normalize_rule_list ys = Inr [RsRule (Some (CRegExp svg_test)) None [svg_sprite_entry, svgo_entry] [] []]"
  using configureWebpack_merge_refines_rules [of "JObj [(''module'', JObj [(''rules'', JArr [])])]" "[]" "[]"]
  by (simp add: module_rules_js_def js_get_def)

end
